(* ===== verification/Go_Prelude.thy ===== *)
theory Go_Prelude
  imports Main "HOL-Library.Sublist"
begin

text \<open>
  Shared vocabulary of the development. A Go string is the list of its bytes (\<open>string\<close>), an
  \<open>int64\<close> is an \<open>int\<close> whose range is written out where it matters, and a Go error is a value of
  the datatype \<open>err\<close>. The theory holds the functions of Go's standard library that goose calls
  (\<open>strings\<close>, \<open>strconv\<close>, \<open>path/filepath\<close>, \<open>bufio\<close>, \<open>errors\<close>) as executable definitions, and the
  generic lemmas the component theories share.
\<close>

named_theorems go_defs \<open>definitions that component proofs unfold together\<close>
named_theorems op_splits \<open>case distinctions on the results of fallible operations\<close>

lemmas result_splits [op_splits] = sum.splits prod.splits option.splits if_splits

type_synonym version = int
type_synonym path = string

section \<open>Integers\<close>

definition MaxInt64 :: int where "MaxInt64 = 9223372036854775807"
definition MinInt64 :: int where "MinInt64 = - 9223372036854775808"

definition in_int64 :: "int \<Rightarrow> bool" where
  "in_int64 n \<longleftrightarrow> MinInt64 \<le> n \<and> n \<le> MaxInt64"

definition wrap64 :: "int \<Rightarrow> int" where
  "wrap64 n = (n + 2 ^ 63) mod 2 ^ 64 - 2 ^ 63"

lemma wrap64_id: "in_int64 n \<Longrightarrow> wrap64 n = n"
  by (simp add: in_int64_def wrap64_def MinInt64_def MaxInt64_def)

lemma wrap64_in_range: "in_int64 (wrap64 n)"
proof -
  have "0 \<le> (n + 2 ^ 63) mod 2 ^ 64" "(n + 2 ^ 63) mod 2 ^ 64 < 2 ^ 64"
    by simp_all
  then show ?thesis
    by (simp add: in_int64_def wrap64_def MinInt64_def MaxInt64_def)
qed

section \<open>Characters that have no literal\<close>

definition nl :: string where "nl = [CHR 0x0A]"
definition tab :: string where "tab = [CHR 0x09]"
definition cr :: string where "cr = [CHR 0x0D]"
definition sq :: string where "sq = [CHR 0x27]"
definition dq :: string where "dq = [CHR 0x22]"
definition bq :: string where "bq = [CHR 0x60]"

lemmas char_defs = nl_def tab_def cr_def sq_def dq_def bq_def

text \<open>
  The verb \<open>%q\<close> of \<open>fmt\<close>. Bytes from 128 on are kept, as Go does for the printable characters of valid
  UTF-8.
\<close>

definition hex_digit :: "nat \<Rightarrow> char" where
  "hex_digit n = char_of (if n < 10 then 48 + n else 87 + n)"

definition quote_char :: "char \<Rightarrow> string" where
  "quote_char c =
     (case map_of (zip [CHR 0x22, CHR 0x5C, CHR 0x07, CHR 0x08, CHR 0x0C, CHR 0x0A, CHR 0x0D, CHR 0x09, CHR 0x0B]
                       [CHR 0x22, CHR 0x5C, CHR ''a'', CHR ''b'', CHR ''f'', CHR ''n'', CHR ''r'', CHR ''t'', CHR ''v'']) c of
        Some d \<Rightarrow> [CHR 0x5C, d]
      | None \<Rightarrow>
          (let n = of_char c :: nat
           in if n < 32 \<or> n = 127 then [CHR 0x5C, CHR ''x'', hex_digit (n div 16), hex_digit (n mod 16)] else [c]))"

definition Quote :: "string \<Rightarrow> string" where
  "Quote s = dq @ concat (map quote_char s) @ dq"

section \<open>The package strings\<close>

fun HasPrefix :: "string \<Rightarrow> string \<Rightarrow> bool" where
  "HasPrefix s [] = True"
| "HasPrefix [] (c # cs) = False"
| "HasPrefix (d # ds) (c # cs) = (d = c \<and> HasPrefix ds cs)"

definition HasSuffix :: "string \<Rightarrow> string \<Rightarrow> bool" where
  "HasSuffix s t = HasPrefix (rev s) (rev t)"

fun Contains :: "string \<Rightarrow> string \<Rightarrow> bool" where
  "Contains [] t = (t = [])"
| "Contains (c # s) t = (HasPrefix (c # s) t \<or> Contains s t)"

text \<open>\<open>strings.Cut\<close> with a one-byte separator: the text before and after, \<open>None\<close> when absent.\<close>

fun Cut :: "string \<Rightarrow> char \<Rightarrow> (string \<times> string) option" where
  "Cut [] sep = None"
| "Cut (c # s) sep =
     (if c = sep then Some ([], s)
      else map_option (\<lambda>(b, a). (c # b, a)) (Cut s sep))"

fun Join :: "string list \<Rightarrow> string \<Rightarrow> string" where
  "Join [] sep = []"
| "Join [s] sep = s"
| "Join (s # t # ts) sep = s @ sep @ Join (t # ts) sep"

text \<open>
  \<open>strings.Replace\<close> with \<open>n = 1\<close> and \<open>strings.ReplaceAll\<close>, for a non-empty \<open>old\<close>: goose only
  replaces \<open>--\<close>, \<open>+goose\<close> and decimal numbers.
\<close>

fun Replace1 :: "string \<Rightarrow> string \<Rightarrow> string \<Rightarrow> string" where
  "Replace1 [] old new = []"
| "Replace1 (c # s) old new =
     (if HasPrefix (c # s) old then new @ drop (length old) (c # s)
      else c # Replace1 s old new)"

function ReplaceAll :: "string \<Rightarrow> string \<Rightarrow> string \<Rightarrow> string" where
  "ReplaceAll s old new =
     (case s of [] \<Rightarrow> []
      | c # s' \<Rightarrow>
          (if old \<noteq> [] \<and> HasPrefix s old then new @ ReplaceAll (drop (length old) s) old new
           else c # ReplaceAll s' old new))"
  by pat_completeness auto
termination
  by (relation "measure (\<lambda>(s, _, _). length s)") auto

declare ReplaceAll.simps [simp del]

lemma HasPrefix_iff: "HasPrefix s t \<longleftrightarrow> prefix t s"
  by (induction s t rule: HasPrefix.induct) auto

lemma HasPrefix_append [simp]: "HasPrefix (t @ s) t"
  by (simp add: HasPrefix_iff)

lemma HasPrefix_self [simp]: "HasPrefix s s"
  by (simp add: HasPrefix_iff)

lemma HasPrefix_trans_prefix: "HasPrefix u e \<Longrightarrow> prefix u t \<Longrightarrow> HasPrefix t e"
  by (auto simp: HasPrefix_iff intro: prefix_order.trans)

lemma HasSuffix_iff: "HasSuffix s t \<longleftrightarrow> suffix t s"
  by (simp add: HasSuffix_def HasPrefix_iff suffix_to_prefix)

lemma Contains_append_mid: "Contains (a @ t @ b) t"
proof (induction a)
  case Nil
  have "HasPrefix (t @ b) t" by simp
  then show ?case by (cases "t @ b") auto
qed auto

lemma Cut_Some: "Cut s sep = Some (b, a) \<Longrightarrow> s = b @ sep # a \<and> sep \<notin> set b"
  by (induction s arbitrary: b a) (auto split: if_splits)

lemma Cut_None: "Cut s sep = None \<longleftrightarrow> sep \<notin> set s"
  by (induction s) auto

lemma Cut_append: "sep \<notin> set b \<Longrightarrow> Cut (b @ sep # a) sep = Some (b, a)"
  by (induction b) auto

subsection \<open>White space\<close>

text \<open>
  The UTF-8 encodings of the runes with Unicode property White\_Space, which is what
  \<open>unicode.IsSpace\<close> and \<open>bufio\<close> test: six ASCII bytes, U+0085, U+00A0, U+1680, U+2000 to U+200A,
  U+2028, U+2029, U+202F, U+205F and U+3000. Each multi-byte encoding starts with a byte that is
  no continuation byte, so stripping encodings at either end of the bytes is what decoding runes
  from that end does.
\<close>

definition space_encodings :: "string list" where
  "space_encodings =
    [[CHR 0x20], [CHR 0x09], [CHR 0x0A], [CHR 0x0B], [CHR 0x0C], [CHR 0x0D],
     [CHR 0xC2, CHR 0x85], [CHR 0xC2, CHR 0xA0], [CHR 0xE1, CHR 0x9A, CHR 0x80],
     [CHR 0xE2, CHR 0x80, CHR 0x80], [CHR 0xE2, CHR 0x80, CHR 0x81],
     [CHR 0xE2, CHR 0x80, CHR 0x82], [CHR 0xE2, CHR 0x80, CHR 0x83],
     [CHR 0xE2, CHR 0x80, CHR 0x84], [CHR 0xE2, CHR 0x80, CHR 0x85],
     [CHR 0xE2, CHR 0x80, CHR 0x86], [CHR 0xE2, CHR 0x80, CHR 0x87],
     [CHR 0xE2, CHR 0x80, CHR 0x88], [CHR 0xE2, CHR 0x80, CHR 0x89],
     [CHR 0xE2, CHR 0x80, CHR 0x8A], [CHR 0xE2, CHR 0x80, CHR 0xA8],
     [CHR 0xE2, CHR 0x80, CHR 0xA9], [CHR 0xE2, CHR 0x80, CHR 0xAF],
     [CHR 0xE2, CHR 0x81, CHR 0x9F], [CHR 0xE3, CHR 0x80, CHR 0x80]]"

definition leading :: "string list \<Rightarrow> string \<Rightarrow> string option" where
  "leading es s = find (\<lambda>e. e \<noteq> [] \<and> HasPrefix s e) es"

lemma leading_Some: "leading es s = Some e \<Longrightarrow> e \<in> set es \<and> e \<noteq> [] \<and> HasPrefix s e"
  by (auto simp: leading_def find_Some_iff in_set_conv_nth)

lemma leading_None: "leading es s = None \<longleftrightarrow> (\<forall>e\<in>set es. e \<noteq> [] \<longrightarrow> \<not> HasPrefix s e)"
  by (auto simp: leading_def find_None_iff)

lemma leading_Nil [simp]: "leading es [] = None"
  by (auto simp: leading_None HasPrefix_iff)

function strip :: "string list \<Rightarrow> string \<Rightarrow> string" where
  "strip es s = (case leading es s of None \<Rightarrow> s | Some e \<Rightarrow> strip es (drop (length e) s))"
  by pat_completeness auto
termination
proof (relation "measure (\<lambda>(_, s). length s)", simp)
  fix es s e
  assume "leading es s = Some e"
  then have "e \<noteq> []" and "HasPrefix s e" by (auto dest: leading_Some)
  then have "0 < length e" and "0 < length s"
    by (auto simp: HasPrefix_iff prefix_def)
  then show "((es, drop (length e) s), (es, s)) \<in> measure (\<lambda>(_, s). length s)"
    by simp
qed

declare strip.simps [simp del]

lemma strip_None: "leading es s = None \<Longrightarrow> strip es s = s"
  by (simp add: strip.simps)

lemma strip_no_leading: "leading es (strip es s) = None"
  by (induction es s rule: strip.induct) (auto simp: strip.simps split: option.splits)

lemma strip_suffix: "suffix (strip es s) s"
proof (induction es s rule: strip.induct)
  case (1 es s)
  show ?case
  proof (cases "leading es s")
    case None
    then show ?thesis by (simp add: strip_None)
  next
    case (Some e)
    with 1 have "suffix (strip es (drop (length e) s)) (drop (length e) s)" by blast
    then have "suffix (strip es (drop (length e) s)) s"
      by (rule suffix_order.trans) (rule suffix_drop)
    with Some show ?thesis by (simp add: strip.simps [of es s])
  qed
qed

definition trim_left :: "string \<Rightarrow> string" where
  "trim_left s = strip space_encodings s"

definition trim_right :: "string \<Rightarrow> string" where
  "trim_right s = rev (strip (map rev space_encodings) (rev s))"

definition TrimSpace :: "string \<Rightarrow> string" where
  "TrimSpace s = trim_right (trim_left s)"

lemma trim_right_prefix: "prefix (trim_right s) s"
proof -
  have "suffix (strip (map rev space_encodings) (rev s)) (rev s)" by (rule strip_suffix)
  then show ?thesis by (simp add: trim_right_def suffix_to_prefix)
qed

lemma leading_prefix: "leading es s = None \<Longrightarrow> prefix u s \<Longrightarrow> leading es u = None"
  by (auto simp: leading_None dest: HasPrefix_trans_prefix)

lemma TrimSpace_no_leading: "leading space_encodings (TrimSpace s) = None"
  unfolding TrimSpace_def
  by (rule leading_prefix [OF _ trim_right_prefix])
    (simp add: trim_left_def strip_no_leading)

lemma TrimSpace_no_trailing: "leading (map rev space_encodings) (rev (TrimSpace s)) = None"
  by (simp add: TrimSpace_def trim_right_def strip_no_leading)

lemma TrimSpace_fixed:
  assumes "leading space_encodings s = None"
    and "leading (map rev space_encodings) (rev s) = None"
  shows "TrimSpace s = s"
  using assms by (simp add: TrimSpace_def trim_left_def trim_right_def strip_None)

lemma TrimSpace_idem [simp]: "TrimSpace (TrimSpace s) = TrimSpace s"
  by (rule TrimSpace_fixed [OF TrimSpace_no_leading TrimSpace_no_trailing])

lemma TrimSpace_Nil [simp]: "TrimSpace [] = []"
  by (simp add: TrimSpace_def trim_left_def trim_right_def strip_None)

text \<open>
  \<open>bufio.ScanWords\<close>: the maximal runs of bytes between white space.
\<close>

function words_from :: "string \<Rightarrow> string \<Rightarrow> string list" where
  "words_from cur s =
     (case s of [] \<Rightarrow> (if cur = [] then [] else [rev cur])
      | c # s' \<Rightarrow>
          (case leading space_encodings s of
             None \<Rightarrow> words_from (c # cur) s'
           | Some e \<Rightarrow> (if cur = [] then [] else [rev cur]) @ words_from [] (drop (length e) s)))"
  by pat_completeness auto
termination
proof (relation "measure (\<lambda>(_, s). length s)", simp, simp)
  fix cur s c s' e
  assume "s = c # s'" and "leading space_encodings s = Some e"
  then have "e \<noteq> []" by (auto dest: leading_Some)
  with \<open>s = c # s'\<close> show "(([], drop (length e) s), (cur, s)) \<in> measure (\<lambda>(_, s). length s)"
    by (cases e) auto
qed

declare words_from.simps [simp del]

definition ScanWords :: "string \<Rightarrow> string list" where
  "ScanWords s = words_from [] s"

subsection \<open>Case folding\<close>

definition to_lower_byte :: "char \<Rightarrow> char" where
  "to_lower_byte c =
     (let n = (of_char c :: nat) in if 65 \<le> n \<and> n \<le> 90 then char_of (n + 32) else c)"

text \<open>
  \<open>strings.EqualFold\<close> against an ASCII string: besides the letter cases only U+017F (long s) and
  U+212A (Kelvin sign) fold to an ASCII letter.
\<close>

fun fold_key :: "string \<Rightarrow> string" where
  "fold_key [] = []"
| "fold_key (c # s) =
     (if c = CHR 0xC5 \<and> HasPrefix s [CHR 0xBF] then CHR ''s'' # fold_key (drop 1 s)
      else if c = CHR 0xE2 \<and> HasPrefix s [CHR 0x84, CHR 0xAA] then CHR ''k'' # fold_key (drop 2 s)
      else to_lower_byte c # fold_key s)"

definition EqualFold :: "string \<Rightarrow> string \<Rightarrow> bool" where
  "EqualFold s t \<longleftrightarrow> fold_key s = fold_key t"

section \<open>The package strconv\<close>

definition digit_char :: "nat \<Rightarrow> char" where
  "digit_char d = char_of (48 + d)"

fun nat_digits :: "nat \<Rightarrow> string" where
  "nat_digits n = (if n < 10 then [digit_char n] else nat_digits (n div 10) @ [digit_char (n mod 10)])"

declare nat_digits.simps [simp del]

definition FormatInt :: "int \<Rightarrow> string" where
  "FormatInt n = (if n < 0 then CHR ''-'' # nat_digits (nat (- n)) else nat_digits (nat n))"

definition FormatNat :: "nat \<Rightarrow> string" where
  "FormatNat n = nat_digits n"

definition digit_val :: "char \<Rightarrow> nat option" where
  "digit_val c = (let n = (of_char c :: nat) in if 48 \<le> n \<and> n \<le> 57 then Some (n - 48) else None)"

fun digits_val :: "nat \<Rightarrow> string \<Rightarrow> nat option" where
  "digits_val acc [] = Some acc"
| "digits_val acc (c # s) =
     (case digit_val c of None \<Rightarrow> None | Some d \<Rightarrow> digits_val (10 * acc + d) s)"

datatype num_error = ErrSyntax | ErrRange

text \<open>\<open>strconv.ParseInt(s, 10, 64)\<close>: an optional sign, then decimal digits only.\<close>

definition parse_magnitude :: "string \<Rightarrow> nat option" where
  "parse_magnitude s = (if s = [] then None else digits_val 0 s)"

definition ParseInt :: "string \<Rightarrow> num_error + int" where
  "ParseInt s =
     (let (neg, body) =
        (case s of [] \<Rightarrow> (False, [])
         | c # t \<Rightarrow> (if c = CHR ''-'' then (True, t) else if c = CHR ''+'' then (False, t) else (False, s)))
      in case parse_magnitude body of
           None \<Rightarrow> Inl ErrSyntax
         | Some m \<Rightarrow>
             (let n = (if neg then - int m else int m)
              in if in_int64 n then Inr n else Inl ErrRange))"

lemma digit_val_digit_char [simp]: "d < 10 \<Longrightarrow> digit_val (digit_char d) = Some d"
  by (simp add: digit_val_def digit_char_def)

lemma digits_val_append:
  "digits_val acc (s @ t) = (case digits_val acc s of None \<Rightarrow> None | Some a \<Rightarrow> digits_val a t)"
  by (induction s arbitrary: acc) (auto split: option.splits)

lemma digits_val_nat_digits: "digits_val 0 (nat_digits n) = Some n"
proof (induction n rule: nat_digits.induct)
  case (1 n)
  show ?case
  proof (cases "n < 10")
    case True
    then show ?thesis by (simp add: nat_digits.simps [of n])
  next
    case False
    with 1 have "digits_val 0 (nat_digits (n div 10)) = Some (n div 10)" by blast
    with False show ?thesis
      by (simp add: nat_digits.simps [of n] digits_val_append)
  qed
qed

lemma nat_digits_nonempty [simp]: "nat_digits n \<noteq> []"
  by (subst nat_digits.simps) simp

lemma digit_char_sign:
  assumes "d < 10"
  shows "digit_char d \<noteq> CHR ''-''" and "digit_char d \<noteq> CHR ''+''"
proof -
  have v: "digit_val (digit_char d) = Some d" using assms by simp
  show "digit_char d \<noteq> CHR ''-''"
  proof
    assume "digit_char d = CHR ''-''"
    with v show False by (simp add: digit_val_def)
  qed
  show "digit_char d \<noteq> CHR ''+''"
  proof
    assume "digit_char d = CHR ''+''"
    with v show False by (simp add: digit_val_def)
  qed
qed

lemma nat_digits_chars: "c \<in> set (nat_digits n) \<Longrightarrow> \<exists>d<10. c = digit_char d"
proof (induction n rule: nat_digits.induct)
  case (1 n)
  show ?case
  proof (cases "n < 10")
    case True
    with "1.prems" have "c = digit_char n" by (simp add: nat_digits.simps [of n])
    with True show ?thesis by blast
  next
    case False
    have "\<exists>d<10. digit_char (n mod 10) = digit_char d"
      by (rule exI [of _ "n mod 10"]) simp
    with False 1 show ?thesis by (auto simp: nat_digits.simps [of n])
  qed
qed

text \<open>Formatting a version and parsing it back gives the version.\<close>

lemma ParseInt_FormatInt:
  assumes "in_int64 n"
  shows "ParseInt (FormatInt n) = Inr n"
proof (cases "n < 0")
  case True
  with assms show ?thesis
    by (simp add: ParseInt_def FormatInt_def parse_magnitude_def digits_val_nat_digits)
next
  case False
  obtain c s where cs: "nat_digits (nat n) = c # s"
    by (cases "nat_digits (nat n)") auto
  then have "c \<in> set (nat_digits (nat n))" by simp
  then obtain d where d: "d < 10" "c = digit_char d" by (blast dest: nat_digits_chars)
  then have c: "c \<noteq> CHR ''-''" "c \<noteq> CHR ''+''" by (simp_all add: digit_char_sign)
  have "parse_magnitude (c # s) = Some (nat n)"
    using digits_val_nat_digits [of "nat n"] by (simp add: parse_magnitude_def cs)
  then have "ParseInt (c # s) = (let n = int (nat n) in if in_int64 n then Inr n else Inl ErrRange)"
    using c by (simp add: ParseInt_def)
  then show ?thesis using assms False cs by (simp add: FormatInt_def)
qed

lemma ParseInt_in_int64: "ParseInt s = Inr n \<Longrightarrow> in_int64 n"
  by (auto simp: ParseInt_def Let_def split: option.splits if_splits list.splits)

section \<open>The package path/filepath (on Unix)\<close>

definition slash :: char where "slash = CHR ''/''"

definition Base :: "path \<Rightarrow> string" where
  "Base p =
     (if p = [] then ''.''
      else (let q = rev (dropWhile ((=) slash) (rev p))
            in if q = [] then [slash] else rev (takeWhile ((\<noteq>) slash) (rev q))))"

text \<open>The extension is the suffix beginning at the final dot of the final element.\<close>

fun ext_rev :: "string \<Rightarrow> string \<Rightarrow> string" where
  "ext_rev acc [] = []"
| "ext_rev acc (c # s) =
     (if c = slash then [] else if c = CHR ''.'' then c # acc else ext_rev (c # acc) s)"

definition Ext :: "path \<Rightarrow> string" where
  "Ext p = ext_rev [] (rev p)"

text \<open>\<open>path.Join\<close> of a directory in clean form and a file name.\<close>

definition path_Join :: "path \<Rightarrow> string \<Rightarrow> path" where
  "path_Join dir name =
     (if dir = '''' \<or> dir = ''.'' then name else if dir = [slash] then slash # name else dir @ [slash] @ name)"

lemma ext_rev_suffix: "ext_rev acc s \<noteq> [] \<Longrightarrow> \<exists>pre. rev s @ acc = pre @ ext_rev acc s"
proof (induction acc s rule: ext_rev.induct)
  case (2 acc c s)
  then show ?case
    by (cases "c = slash"; cases "c = CHR ''.''") (auto split: if_splits)
qed simp

lemma Ext_suffix: "Ext p \<noteq> [] \<Longrightarrow> HasSuffix p (Ext p)"
  using ext_rev_suffix [of "[]" "rev p"] by (auto simp: Ext_def HasSuffix_iff suffix_def)

section \<open>The package bufio: lines\<close>

text \<open>
  An \<open>io.Reader\<close> is its contents followed by an optional read error. \<open>bufio.ScanLines\<close> splits at
  line feeds and drops one trailing carriage return; a line whose bytes fill the scanner's buffer
  stops the scan with \<open>ErrTooLong\<close>, after the lines before it have been returned.
\<close>

definition drop_cr :: "string \<Rightarrow> string" where
  "drop_cr s = (if s \<noteq> [] \<and> last s = CHR 0x0D then butlast s else s)"

fun raw_lines :: "string \<Rightarrow> string \<Rightarrow> string list" where
  "raw_lines cur [] = (if cur = [] then [] else [rev cur])"
| "raw_lines cur (c # s) =
     (if c = CHR 0x0A then rev cur # raw_lines [] s else raw_lines (c # cur) s)"

definition ScanLines :: "int \<Rightarrow> string \<Rightarrow> string list \<times> bool" where
  "ScanLines bufsize s =
     (let rs = raw_lines [] s; ok = takeWhile (\<lambda>l. int (length l) < bufsize) rs
      in (map drop_cr ok, length ok < length rs))"

lemma raw_lines_line: "CHR 0x0A \<notin> set l \<Longrightarrow> raw_lines cur (l @ CHR 0x0A # s) = (rev cur @ l) # raw_lines [] s"
  by (induction l arbitrary: cur) auto

definition unlines :: "string list \<Rightarrow> string" where
  "unlines ls = concat (map (\<lambda>l. l @ nl) ls)"

lemma unlines_simps [simp]:
  "unlines [] = []" "unlines (l # ls) = l @ nl @ unlines ls" "unlines (xs @ ys) = unlines xs @ unlines ys"
  by (simp_all add: unlines_def)

lemma raw_lines_unlines: "\<forall>l\<in>set ls. CHR 0x0A \<notin> set l \<Longrightarrow> raw_lines [] (unlines ls) = ls"
  by (induction ls) (simp_all add: nl_def raw_lines_line)

lemma ScanLines_unlines:
  assumes "\<forall>l\<in>set ls. CHR 0x0A \<notin> set l \<and> int (length l) < n \<and> drop_cr l = l"
  shows "ScanLines n (unlines ls) = (ls, False)"
proof -
  have rl: "raw_lines [] (unlines ls) = ls" using assms by (simp add: raw_lines_unlines)
  have tw: "takeWhile (\<lambda>l. int (length l) < n) ls = ls" using assms by (simp add: takeWhile_eq_all_conv)
  have cr: "map drop_cr ls = ls" using assms by (simp add: map_idI)
  show ?thesis unfolding ScanLines_def Let_def rl tw cr by simp
qed

end
