(* ===== verification/Goose_Errors.thy ===== *)
theory Goose_Errors
  imports Go_Prelude
begin

text \<open>
  Error values and the small result types they carry: the sentinels of \<open>provider_errors.go\<close>,
  \<open>migrate.go\<close>, \<open>database/store.go\<close> and \<open>parser.go\<close>, wrapping as \<open>fmt.Errorf\<close> does with \<open>%w\<close>, the
  structure \<open>PartialError\<close>, and \<open>Source\<close>, \<open>MigrationResult\<close> and \<open>MigrationStatus\<close> of
  \<open>provider_types.go\<close>. Durations and time stamps of results are left out.
\<close>

text \<open>\<open>TypeNone\<close> is the zero value of the Go string type, which the legacy collector leaves.\<close>

datatype MigrationType = TypeGo | TypeSQL | TypeNone

record Source =
  SType :: MigrationType
  SPath :: path
  SVersion :: version

datatype sentinel =
    ErrVersionNotFound | ErrNoMigrations | ErrAlreadyApplied | ErrNotApplied
  | ErrInvalidVersion | ErrMissingZeroVersion
  | ErrNoMigrationFiles | ErrNoCurrentVersion | ErrNoNextVersion
  | DBErrVersionNotFound
  | ErrEmptyAnnotation | ErrInvalidAnnotation
  | ErrNoRows | ErrTxDone | ErrUnsupported | ErrNotExist | ErrExist | ErrTooLong

text \<open>
  \<open>Panic\<close> stands for a panic that unwinds through the caller and \<open>Blocked\<close> for waiting forever on
  a mutex: both end an operation without an error value, and no operation handles them.
\<close>

datatype err =
    Msg string
  | Sent sentinel
  | Wrap string err
  | Multi err err
  | NumErr num_error
  | PartialError (Applied: "MigrationResult list") (Failed: MigrationResult) (Cause: err)
  | Panic string
  | Blocked
and MigrationResult =
    MigrationResult (RSource: Source) (RDirection: string) (REmpty: bool) (RError: "err option")

text \<open>\<open>errors.Is\<close> against a sentinel follows \<open>Unwrap\<close>; \<open>PartialError.Unwrap\<close> gives its cause.\<close>

fun errors_Is :: "err \<Rightarrow> sentinel \<Rightarrow> bool" where
  "errors_Is (Sent s) t = (s = t)"
| "errors_Is (Wrap m e) t = errors_Is e t"
| "errors_Is (Multi a b) t = (errors_Is a t \<or> errors_Is b t)"
| "errors_Is (PartialError as f e) t = errors_Is e t"
| "errors_Is _ t = False"

definition type_string :: "MigrationType \<Rightarrow> string" where
  "type_string t = (case t of TypeGo \<Rightarrow> ''go'' | TypeSQL \<Rightarrow> ''sql'' | TypeNone \<Rightarrow> '''')"

datatype State = StatePending | StateApplied

record MigrationStatus =
  MSource :: Source
  MState :: State

lemma errors_Is_Wrap_Sent [simp]: "errors_Is (Wrap m (Sent s)) t \<longleftrightarrow> s = t"
  by simp

end
