(* ===== verification/Dialects.thy ===== *)
theory Dialects
  imports Goose_Errors
begin

text \<open>
  The SQL dialects: the statements of \<open>internal/dialects\<close>, one definition per method, the interface
  \<open>Querier\<close> of \<open>database/dialect\<close> as a record (with the optional method of \<open>QuerierExtender\<close>), and
  the lookups by dialect in \<open>database/dialects.go\<close>, \<open>internal/legacystore\<close>, \<open>dialect.go\<close> and \<open>db.go\<close>.
  Statement texts are copied to the byte.
\<close>

record querier =
  Q_CreateTable :: "string \<Rightarrow> string"
  Q_InsertVersion :: "string \<Rightarrow> string"
  Q_DeleteVersion :: "string \<Rightarrow> string"
  Q_GetMigrationByVersion :: "string \<Rightarrow> string"
  Q_ListMigrations :: "string \<Rightarrow> string"
  Q_GetLatestVersion :: "string \<Rightarrow> string"
  Q_TableExists :: "(string \<Rightarrow> string) option"

definition parseTableIdentifier :: "string \<Rightarrow> string \<times> string" where
  "parseTableIdentifier name = (case Cut name (CHR ''.'') of None \<Rightarrow> ([], name) | Some (schema, table) \<Rightarrow> (schema, table))"

definition formatYDBTableName :: "string \<Rightarrow> string" where
  "formatYDBTableName tableName = bq @ tableName @ bq"

section \<open>The statements\<close>

definition clickhouse_CreateTable :: "string \<Rightarrow> string" where
  "clickhouse_CreateTable tableName =
     ''CREATE TABLE IF NOT EXISTS '' @ tableName @ '' ('' @ nl @
     tab @ tab @ ''version_id Int64,'' @ nl @
     tab @ tab @ ''is_applied UInt8,'' @ nl @
     tab @ tab @ ''date Date default now(),'' @ nl @
     tab @ tab @ ''tstamp DateTime default now()'' @ nl @
     tab @ ''  )'' @ nl @
     tab @ ''  ENGINE = MergeTree()'' @ nl @
     tab @ tab @ ''ORDER BY (date)''"

definition clickhouse_InsertVersion :: "string \<Rightarrow> string" where
  "clickhouse_InsertVersion tableName =
     ''INSERT INTO '' @ tableName @ '' (version_id, is_applied) VALUES ($1, $2)''"

definition clickhouse_DeleteVersion :: "string \<Rightarrow> string" where
  "clickhouse_DeleteVersion tableName =
     ''ALTER TABLE '' @ tableName @ '' DELETE WHERE version_id = $1 SETTINGS mutations_sync = 2''"

definition clickhouse_GetMigrationByVersion :: "string \<Rightarrow> string" where
  "clickhouse_GetMigrationByVersion tableName =
     ''SELECT tstamp, is_applied FROM '' @ tableName @ '' WHERE version_id = $1 ORDER BY tstamp DESC LIMIT 1''"

definition clickhouse_ListMigrations :: "string \<Rightarrow> string" where
  "clickhouse_ListMigrations tableName =
     ''SELECT version_id, is_applied FROM '' @ tableName @ '' ORDER BY version_id DESC''"

definition clickhouse_GetLatestVersion :: "string \<Rightarrow> string" where
  "clickhouse_GetLatestVersion tableName =
     ''SELECT max(version_id) FROM '' @ tableName"

definition NewClickhouse :: querier where
  "NewClickhouse =
     \<lparr>Q_CreateTable = clickhouse_CreateTable,
      Q_InsertVersion = clickhouse_InsertVersion,
      Q_DeleteVersion = clickhouse_DeleteVersion,
      Q_GetMigrationByVersion = clickhouse_GetMigrationByVersion,
      Q_ListMigrations = clickhouse_ListMigrations,
      Q_GetLatestVersion = clickhouse_GetLatestVersion,
      Q_TableExists = None\<rparr>"

definition dsql_CreateTable :: "string \<Rightarrow> string" where
  "dsql_CreateTable tableName =
     ''CREATE TABLE '' @ tableName @ '' ('' @ nl @
     tab @ tab @ ''id integer PRIMARY KEY,'' @ nl @
     tab @ tab @ ''version_id bigint NOT NULL,'' @ nl @
     tab @ tab @ ''is_applied boolean NOT NULL,'' @ nl @
     tab @ tab @ ''tstamp timestamp NOT NULL DEFAULT now()'' @ nl @
     tab @ '')''"

definition dsql_InsertVersion :: "string \<Rightarrow> string" where
  "dsql_InsertVersion tableName =
     ''INSERT INTO '' @ tableName @ '' (id, version_id, is_applied) '' @ nl @
     tab @ ''      VALUES ('' @ nl @
     tab @ ''          COALESCE((SELECT MAX(id) FROM '' @ tableName @ ''), 0) + 1,'' @ nl @
     tab @ ''          $1, '' @ nl @
     tab @ ''          $2'' @ nl @
     tab @ ''      )''"

definition dsql_DeleteVersion :: "string \<Rightarrow> string" where
  "dsql_DeleteVersion tableName =
     ''DELETE FROM '' @ tableName @ '' WHERE version_id=$1''"

definition dsql_GetMigrationByVersion :: "string \<Rightarrow> string" where
  "dsql_GetMigrationByVersion tableName =
     ''SELECT tstamp, is_applied FROM '' @ tableName @ '' WHERE version_id=$1 ORDER BY tstamp DESC LIMIT 1''"

definition dsql_ListMigrations :: "string \<Rightarrow> string" where
  "dsql_ListMigrations tableName =
     ''SELECT version_id, is_applied from '' @ tableName @ '' ORDER BY id DESC''"

definition dsql_GetLatestVersion :: "string \<Rightarrow> string" where
  "dsql_GetLatestVersion tableName =
     ''SELECT max(version_id) FROM '' @ tableName"

definition dsql_TableExists :: "string \<Rightarrow> string" where
  "dsql_TableExists tableName =
     (let (schemaName, table) = parseTableIdentifier tableName
      in if schemaName \<noteq> []
         then ''SELECT EXISTS ( SELECT 1 FROM pg_tables WHERE schemaname = '' @ sq @ schemaName @ sq @ '' AND tablename = '' @
         sq @ table @ sq @ '' )''
         else ''SELECT EXISTS ( SELECT 1 FROM pg_tables WHERE (current_schema() IS NULL OR schemaname = current_schema()) AND tablename = '' @
         sq @ table @ sq @ '' )'')"

definition NewAuroraDSQL :: querier where
  "NewAuroraDSQL =
     \<lparr>Q_CreateTable = dsql_CreateTable,
      Q_InsertVersion = dsql_InsertVersion,
      Q_DeleteVersion = dsql_DeleteVersion,
      Q_GetMigrationByVersion = dsql_GetMigrationByVersion,
      Q_ListMigrations = dsql_ListMigrations,
      Q_GetLatestVersion = dsql_GetLatestVersion,
      Q_TableExists = Some dsql_TableExists\<rparr>"

definition mysql_CreateTable :: "string \<Rightarrow> string" where
  "mysql_CreateTable tableName =
     ''CREATE TABLE '' @ tableName @ '' ('' @ nl @
     tab @ tab @ ''id bigint(20) unsigned NOT NULL AUTO_INCREMENT,'' @ nl @
     tab @ tab @ ''version_id bigint NOT NULL,'' @ nl @
     tab @ tab @ ''is_applied boolean NOT NULL,'' @ nl @
     tab @ tab @ ''tstamp timestamp NULL default now(),'' @ nl @
     tab @ tab @ ''PRIMARY KEY(id)'' @ nl @
     tab @ '')''"

definition mysql_InsertVersion :: "string \<Rightarrow> string" where
  "mysql_InsertVersion tableName =
     ''INSERT INTO '' @ tableName @ '' (version_id, is_applied) VALUES (?, ?)''"

definition mysql_DeleteVersion :: "string \<Rightarrow> string" where
  "mysql_DeleteVersion tableName =
     ''DELETE FROM '' @ tableName @ '' WHERE version_id=?''"

definition mysql_GetMigrationByVersion :: "string \<Rightarrow> string" where
  "mysql_GetMigrationByVersion tableName =
     ''SELECT tstamp, is_applied FROM '' @ tableName @ '' WHERE version_id=? ORDER BY tstamp DESC LIMIT 1''"

definition mysql_ListMigrations :: "string \<Rightarrow> string" where
  "mysql_ListMigrations tableName =
     ''SELECT version_id, is_applied from '' @ tableName @ '' ORDER BY id DESC''"

definition mysql_GetLatestVersion :: "string \<Rightarrow> string" where
  "mysql_GetLatestVersion tableName =
     ''SELECT MAX(version_id) FROM '' @ tableName"

definition mysql_TableExists :: "string \<Rightarrow> string" where
  "mysql_TableExists tableName =
     (let (schemaName, table) = parseTableIdentifier tableName
      in if schemaName \<noteq> []
         then ''SELECT EXISTS ( SELECT 1 FROM information_schema.tables WHERE table_schema = '' @ sq @ schemaName @
         sq @ '' AND table_name = '' @ sq @ table @ sq @ '' )''
         else ''SELECT EXISTS ( SELECT 1 FROM information_schema.tables WHERE (database() IS NULL OR table_schema = database()) AND table_name = '' @
         sq @ table @ sq @ '' )'')"

definition NewMysql :: querier where
  "NewMysql =
     \<lparr>Q_CreateTable = mysql_CreateTable,
      Q_InsertVersion = mysql_InsertVersion,
      Q_DeleteVersion = mysql_DeleteVersion,
      Q_GetMigrationByVersion = mysql_GetMigrationByVersion,
      Q_ListMigrations = mysql_ListMigrations,
      Q_GetLatestVersion = mysql_GetLatestVersion,
      Q_TableExists = Some mysql_TableExists\<rparr>"

definition postgres_CreateTable :: "string \<Rightarrow> string" where
  "postgres_CreateTable tableName =
     ''CREATE TABLE '' @ tableName @ '' ('' @ nl @
     tab @ tab @ ''id integer PRIMARY KEY GENERATED BY DEFAULT AS IDENTITY,'' @ nl @
     tab @ tab @ ''version_id bigint NOT NULL,'' @ nl @
     tab @ tab @ ''is_applied boolean NOT NULL,'' @ nl @
     tab @ tab @ ''tstamp timestamp NOT NULL DEFAULT now()'' @ nl @
     tab @ '')''"

definition postgres_InsertVersion :: "string \<Rightarrow> string" where
  "postgres_InsertVersion tableName =
     ''INSERT INTO '' @ tableName @ '' (version_id, is_applied) VALUES ($1, $2)''"

definition postgres_DeleteVersion :: "string \<Rightarrow> string" where
  "postgres_DeleteVersion tableName =
     ''DELETE FROM '' @ tableName @ '' WHERE version_id=$1''"

definition postgres_GetMigrationByVersion :: "string \<Rightarrow> string" where
  "postgres_GetMigrationByVersion tableName =
     ''SELECT tstamp, is_applied FROM '' @ tableName @ '' WHERE version_id=$1 ORDER BY tstamp DESC LIMIT 1''"

definition postgres_ListMigrations :: "string \<Rightarrow> string" where
  "postgres_ListMigrations tableName =
     ''SELECT version_id, is_applied from '' @ tableName @ '' ORDER BY id DESC''"

definition postgres_GetLatestVersion :: "string \<Rightarrow> string" where
  "postgres_GetLatestVersion tableName =
     ''SELECT max(version_id) FROM '' @ tableName"

definition postgres_TableExists :: "string \<Rightarrow> string" where
  "postgres_TableExists tableName =
     (let (schemaName, table) = parseTableIdentifier tableName
      in if schemaName \<noteq> []
         then ''SELECT EXISTS ( SELECT 1 FROM pg_tables WHERE schemaname = '' @ sq @ schemaName @ sq @ '' AND tablename = '' @
         sq @ table @ sq @ '' )''
         else ''SELECT EXISTS ( SELECT 1 FROM pg_tables WHERE (current_schema() IS NULL OR schemaname = current_schema()) AND tablename = '' @
         sq @ table @ sq @ '' )'')"

definition NewPostgres :: querier where
  "NewPostgres =
     \<lparr>Q_CreateTable = postgres_CreateTable,
      Q_InsertVersion = postgres_InsertVersion,
      Q_DeleteVersion = postgres_DeleteVersion,
      Q_GetMigrationByVersion = postgres_GetMigrationByVersion,
      Q_ListMigrations = postgres_ListMigrations,
      Q_GetLatestVersion = postgres_GetLatestVersion,
      Q_TableExists = Some postgres_TableExists\<rparr>"

definition redshift_CreateTable :: "string \<Rightarrow> string" where
  "redshift_CreateTable tableName =
     ''CREATE TABLE '' @ tableName @ '' ('' @ nl @
     tab @ tab @ ''id integer NOT NULL identity(1, 1),'' @ nl @
     tab @ tab @ ''version_id bigint NOT NULL,'' @ nl @
     tab @ tab @ ''is_applied boolean NOT NULL,'' @ nl @
     tab @ tab @ ''tstamp timestamp NULL default sysdate,'' @ nl @
     tab @ tab @ ''PRIMARY KEY(id)'' @ nl @
     tab @ '')''"

definition redshift_InsertVersion :: "string \<Rightarrow> string" where
  "redshift_InsertVersion tableName =
     ''INSERT INTO '' @ tableName @ '' (version_id, is_applied) VALUES ($1, $2)''"

definition redshift_DeleteVersion :: "string \<Rightarrow> string" where
  "redshift_DeleteVersion tableName =
     ''DELETE FROM '' @ tableName @ '' WHERE version_id=$1''"

definition redshift_GetMigrationByVersion :: "string \<Rightarrow> string" where
  "redshift_GetMigrationByVersion tableName =
     ''SELECT tstamp, is_applied FROM '' @ tableName @ '' WHERE version_id=$1 ORDER BY tstamp DESC LIMIT 1''"

definition redshift_ListMigrations :: "string \<Rightarrow> string" where
  "redshift_ListMigrations tableName =
     ''SELECT version_id, is_applied from '' @ tableName @ '' ORDER BY id DESC''"

definition redshift_GetLatestVersion :: "string \<Rightarrow> string" where
  "redshift_GetLatestVersion tableName =
     ''SELECT max(version_id) FROM '' @ tableName"

definition NewRedshift :: querier where
  "NewRedshift =
     \<lparr>Q_CreateTable = redshift_CreateTable,
      Q_InsertVersion = redshift_InsertVersion,
      Q_DeleteVersion = redshift_DeleteVersion,
      Q_GetMigrationByVersion = redshift_GetMigrationByVersion,
      Q_ListMigrations = redshift_ListMigrations,
      Q_GetLatestVersion = redshift_GetLatestVersion,
      Q_TableExists = None\<rparr>"

definition spanner_CreateTable :: "string \<Rightarrow> string" where
  "spanner_CreateTable tableName =
     ''CREATE TABLE '' @ tableName @ '' ('' @ nl @
     tab @ tab @ ''version_id INT64 NOT NULL,'' @ nl @
     tab @ tab @ ''is_applied BOOL NOT NULL,'' @ nl @
     tab @ tab @ ''tstamp TIMESTAMP DEFAULT (CURRENT_TIMESTAMP()),'' @ nl @
     tab @ '') PRIMARY KEY(version_id)''"

definition spanner_InsertVersion :: "string \<Rightarrow> string" where
  "spanner_InsertVersion tableName =
     ''INSERT INTO '' @ tableName @ '' (version_id, is_applied) VALUES (?, ?)''"

definition spanner_DeleteVersion :: "string \<Rightarrow> string" where
  "spanner_DeleteVersion tableName =
     ''DELETE FROM '' @ tableName @ '' WHERE version_id=?''"

definition spanner_GetMigrationByVersion :: "string \<Rightarrow> string" where
  "spanner_GetMigrationByVersion tableName =
     ''SELECT tstamp, is_applied FROM '' @ tableName @ '' WHERE version_id=? ORDER BY tstamp DESC LIMIT 1''"

definition spanner_ListMigrations :: "string \<Rightarrow> string" where
  "spanner_ListMigrations tableName =
     ''SELECT version_id, is_applied from '' @ tableName @ '' ORDER BY version_id DESC''"

definition spanner_GetLatestVersion :: "string \<Rightarrow> string" where
  "spanner_GetLatestVersion tableName =
     ''SELECT MAX(version_id) FROM '' @ tableName"

definition NewSpanner :: querier where
  "NewSpanner =
     \<lparr>Q_CreateTable = spanner_CreateTable,
      Q_InsertVersion = spanner_InsertVersion,
      Q_DeleteVersion = spanner_DeleteVersion,
      Q_GetMigrationByVersion = spanner_GetMigrationByVersion,
      Q_ListMigrations = spanner_ListMigrations,
      Q_GetLatestVersion = spanner_GetLatestVersion,
      Q_TableExists = None\<rparr>"

definition sqlite3_CreateTable :: "string \<Rightarrow> string" where
  "sqlite3_CreateTable tableName =
     ''CREATE TABLE '' @ tableName @ '' ('' @ nl @
     tab @ tab @ ''id INTEGER PRIMARY KEY AUTOINCREMENT,'' @ nl @
     tab @ tab @ ''version_id INTEGER NOT NULL,'' @ nl @
     tab @ tab @ ''is_applied INTEGER NOT NULL,'' @ nl @
     tab @ tab @ ''tstamp TIMESTAMP DEFAULT (datetime('' @ sq @ ''now'' @ sq @ ''))'' @ nl @
     tab @ '')''"

definition sqlite3_InsertVersion :: "string \<Rightarrow> string" where
  "sqlite3_InsertVersion tableName =
     ''INSERT INTO '' @ tableName @ '' (version_id, is_applied) VALUES (?, ?)''"

definition sqlite3_DeleteVersion :: "string \<Rightarrow> string" where
  "sqlite3_DeleteVersion tableName =
     ''DELETE FROM '' @ tableName @ '' WHERE version_id=?''"

definition sqlite3_GetMigrationByVersion :: "string \<Rightarrow> string" where
  "sqlite3_GetMigrationByVersion tableName =
     ''SELECT tstamp, is_applied FROM '' @ tableName @ '' WHERE version_id=? ORDER BY tstamp DESC LIMIT 1''"

definition sqlite3_ListMigrations :: "string \<Rightarrow> string" where
  "sqlite3_ListMigrations tableName =
     ''SELECT version_id, is_applied from '' @ tableName @ '' ORDER BY id DESC''"

definition sqlite3_GetLatestVersion :: "string \<Rightarrow> string" where
  "sqlite3_GetLatestVersion tableName =
     ''SELECT MAX(version_id) FROM '' @ tableName"

definition NewSqlite3 :: querier where
  "NewSqlite3 =
     \<lparr>Q_CreateTable = sqlite3_CreateTable,
      Q_InsertVersion = sqlite3_InsertVersion,
      Q_DeleteVersion = sqlite3_DeleteVersion,
      Q_GetMigrationByVersion = sqlite3_GetMigrationByVersion,
      Q_ListMigrations = sqlite3_ListMigrations,
      Q_GetLatestVersion = sqlite3_GetLatestVersion,
      Q_TableExists = None\<rparr>"

text \<open>The structure \<open>turso\<close> embeds \<open>sqlite3\<close>.\<close>

definition NewTurso :: querier where
  "NewTurso = NewSqlite3"

definition sqlserver_CreateTable :: "string \<Rightarrow> string" where
  "sqlserver_CreateTable tableName =
     ''CREATE TABLE '' @ tableName @ '' ('' @ nl @
     tab @ tab @ ''id INT NOT NULL IDENTITY(1,1) PRIMARY KEY,'' @ nl @
     tab @ tab @ ''version_id BIGINT NOT NULL,'' @ nl @
     tab @ tab @ ''is_applied BIT NOT NULL,'' @ nl @
     tab @ tab @ ''tstamp DATETIME NULL DEFAULT CURRENT_TIMESTAMP'' @ nl @
     tab @ '')''"

definition sqlserver_InsertVersion :: "string \<Rightarrow> string" where
  "sqlserver_InsertVersion tableName =
     ''INSERT INTO '' @ tableName @ '' (version_id, is_applied) VALUES (@p1, @p2)''"

definition sqlserver_DeleteVersion :: "string \<Rightarrow> string" where
  "sqlserver_DeleteVersion tableName =
     ''DELETE FROM '' @ tableName @ '' WHERE version_id=@p1''"

definition sqlserver_GetMigrationByVersion :: "string \<Rightarrow> string" where
  "sqlserver_GetMigrationByVersion tableName =
     ''SELECT TOP 1 tstamp, is_applied FROM '' @ tableName @ '' WHERE version_id=@p1 ORDER BY tstamp DESC''"

definition sqlserver_ListMigrations :: "string \<Rightarrow> string" where
  "sqlserver_ListMigrations tableName =
     ''SELECT version_id, is_applied FROM '' @ tableName @ '' ORDER BY id DESC''"

definition sqlserver_GetLatestVersion :: "string \<Rightarrow> string" where
  "sqlserver_GetLatestVersion tableName =
     ''SELECT MAX(version_id) FROM '' @ tableName"

definition NewSqlserver :: querier where
  "NewSqlserver =
     \<lparr>Q_CreateTable = sqlserver_CreateTable,
      Q_InsertVersion = sqlserver_InsertVersion,
      Q_DeleteVersion = sqlserver_DeleteVersion,
      Q_GetMigrationByVersion = sqlserver_GetMigrationByVersion,
      Q_ListMigrations = sqlserver_ListMigrations,
      Q_GetLatestVersion = sqlserver_GetLatestVersion,
      Q_TableExists = None\<rparr>"

definition starrocks_CreateTable :: "string \<Rightarrow> string" where
  "starrocks_CreateTable tableName =
     ''CREATE TABLE IF NOT EXISTS '' @ tableName @ '' ('' @ nl @
     tab @ tab @ ''id bigint NOT NULL AUTO_INCREMENT,'' @ nl @
     tab @ tab @ ''version_id bigint NOT NULL,'' @ nl @
     tab @ tab @ ''is_applied boolean NOT NULL,'' @ nl @
     tab @ tab @ ''tstamp datetime NULL default CURRENT_TIMESTAMP'' @ nl @
     tab @ '')'' @ nl @
     tab @ ''PRIMARY KEY (id)'' @ nl @
     tab @ ''DISTRIBUTED BY HASH (id)'' @ nl @
     tab @ ''ORDER BY (id,version_id)''"

definition starrocks_InsertVersion :: "string \<Rightarrow> string" where
  "starrocks_InsertVersion tableName =
     ''INSERT INTO '' @ tableName @ '' (version_id, is_applied) VALUES (?, ?)''"

definition starrocks_DeleteVersion :: "string \<Rightarrow> string" where
  "starrocks_DeleteVersion tableName =
     ''DELETE FROM '' @ tableName @ '' WHERE version_id=?''"

definition starrocks_GetMigrationByVersion :: "string \<Rightarrow> string" where
  "starrocks_GetMigrationByVersion tableName =
     ''SELECT tstamp, is_applied FROM '' @ tableName @ '' WHERE version_id=? ORDER BY tstamp DESC LIMIT 1''"

definition starrocks_ListMigrations :: "string \<Rightarrow> string" where
  "starrocks_ListMigrations tableName =
     ''SELECT version_id, is_applied from '' @ tableName @ '' ORDER BY id DESC''"

definition starrocks_GetLatestVersion :: "string \<Rightarrow> string" where
  "starrocks_GetLatestVersion tableName =
     ''SELECT MAX(version_id) FROM '' @ tableName"

definition NewStarrocks :: querier where
  "NewStarrocks =
     \<lparr>Q_CreateTable = starrocks_CreateTable,
      Q_InsertVersion = starrocks_InsertVersion,
      Q_DeleteVersion = starrocks_DeleteVersion,
      Q_GetMigrationByVersion = starrocks_GetMigrationByVersion,
      Q_ListMigrations = starrocks_ListMigrations,
      Q_GetLatestVersion = starrocks_GetLatestVersion,
      Q_TableExists = None\<rparr>"

definition tidb_CreateTable :: "string \<Rightarrow> string" where
  "tidb_CreateTable tableName =
     ''CREATE TABLE '' @ tableName @ '' ('' @ nl @
     tab @ tab @ ''id BIGINT UNSIGNED NOT NULL AUTO_INCREMENT UNIQUE,'' @ nl @
     tab @ tab @ ''version_id bigint NOT NULL,'' @ nl @
     tab @ tab @ ''is_applied boolean NOT NULL,'' @ nl @
     tab @ tab @ ''tstamp timestamp NULL default now(),'' @ nl @
     tab @ tab @ ''PRIMARY KEY(id)'' @ nl @
     tab @ '')''"

definition tidb_InsertVersion :: "string \<Rightarrow> string" where
  "tidb_InsertVersion tableName =
     ''INSERT INTO '' @ tableName @ '' (version_id, is_applied) VALUES (?, ?)''"

definition tidb_DeleteVersion :: "string \<Rightarrow> string" where
  "tidb_DeleteVersion tableName =
     ''DELETE FROM '' @ tableName @ '' WHERE version_id=?''"

definition tidb_GetMigrationByVersion :: "string \<Rightarrow> string" where
  "tidb_GetMigrationByVersion tableName =
     ''SELECT tstamp, is_applied FROM '' @ tableName @ '' WHERE version_id=? ORDER BY tstamp DESC LIMIT 1''"

definition tidb_ListMigrations :: "string \<Rightarrow> string" where
  "tidb_ListMigrations tableName =
     ''SELECT version_id, is_applied from '' @ tableName @ '' ORDER BY id DESC''"

definition tidb_GetLatestVersion :: "string \<Rightarrow> string" where
  "tidb_GetLatestVersion tableName =
     ''SELECT MAX(version_id) FROM '' @ tableName"

definition NewTidb :: querier where
  "NewTidb =
     \<lparr>Q_CreateTable = tidb_CreateTable,
      Q_InsertVersion = tidb_InsertVersion,
      Q_DeleteVersion = tidb_DeleteVersion,
      Q_GetMigrationByVersion = tidb_GetMigrationByVersion,
      Q_ListMigrations = tidb_ListMigrations,
      Q_GetLatestVersion = tidb_GetLatestVersion,
      Q_TableExists = None\<rparr>"

definition vertica_CreateTable :: "string \<Rightarrow> string" where
  "vertica_CreateTable tableName =
     ''CREATE TABLE '' @ tableName @ '' ('' @ nl @
     tab @ tab @ ''id identity(1,1) NOT NULL,'' @ nl @
     tab @ tab @ ''version_id bigint NOT NULL,'' @ nl @
     tab @ tab @ ''is_applied boolean NOT NULL,'' @ nl @
     tab @ tab @ ''tstamp timestamp NULL default now(),'' @ nl @
     tab @ tab @ ''PRIMARY KEY(id)'' @ nl @
     tab @ '')''"

definition vertica_InsertVersion :: "string \<Rightarrow> string" where
  "vertica_InsertVersion tableName =
     ''INSERT INTO '' @ tableName @ '' (version_id, is_applied) VALUES (?, ?)''"

definition vertica_DeleteVersion :: "string \<Rightarrow> string" where
  "vertica_DeleteVersion tableName =
     ''DELETE FROM '' @ tableName @ '' WHERE version_id=?''"

definition vertica_GetMigrationByVersion :: "string \<Rightarrow> string" where
  "vertica_GetMigrationByVersion tableName =
     ''SELECT tstamp, is_applied FROM '' @ tableName @ '' WHERE version_id=? ORDER BY tstamp DESC LIMIT 1''"

definition vertica_ListMigrations :: "string \<Rightarrow> string" where
  "vertica_ListMigrations tableName =
     ''SELECT version_id, is_applied from '' @ tableName @ '' ORDER BY id DESC''"

definition vertica_GetLatestVersion :: "string \<Rightarrow> string" where
  "vertica_GetLatestVersion tableName =
     ''SELECT MAX(version_id) FROM '' @ tableName"

definition NewVertica :: querier where
  "NewVertica =
     \<lparr>Q_CreateTable = vertica_CreateTable,
      Q_InsertVersion = vertica_InsertVersion,
      Q_DeleteVersion = vertica_DeleteVersion,
      Q_GetMigrationByVersion = vertica_GetMigrationByVersion,
      Q_ListMigrations = vertica_ListMigrations,
      Q_GetLatestVersion = vertica_GetLatestVersion,
      Q_TableExists = None\<rparr>"

definition ydb_CreateTable :: "string \<Rightarrow> string" where
  "ydb_CreateTable tableName =
     ''CREATE TABLE '' @ formatYDBTableName tableName @ '' ('' @ nl @
     tab @ tab @ ''version_id Uint64,'' @ nl @
     tab @ tab @ ''is_applied Bool,'' @ nl @
     tab @ tab @ ''tstamp Timestamp,'' @ nl @
     nl @
     tab @ tab @ ''PRIMARY KEY(version_id)'' @ nl @
     tab @ '')''"

definition ydb_InsertVersion :: "string \<Rightarrow> string" where
  "ydb_InsertVersion tableName =
     ''INSERT INTO '' @ formatYDBTableName tableName @ '' ('' @ nl @
     tab @ tab @ ''version_id, '' @ nl @
     tab @ tab @ ''is_applied, '' @ nl @
     tab @ tab @ ''tstamp'' @ nl @
     tab @ '') VALUES ('' @ nl @
     tab @ tab @ ''CAST($1 AS Uint64), '' @ nl @
     tab @ tab @ ''$2, '' @ nl @
     tab @ tab @ ''CurrentUtcTimestamp()'' @ nl @
     tab @ '')''"

definition ydb_DeleteVersion :: "string \<Rightarrow> string" where
  "ydb_DeleteVersion tableName =
     ''DELETE FROM '' @ formatYDBTableName tableName @ '' WHERE version_id = $1''"

definition ydb_GetMigrationByVersion :: "string \<Rightarrow> string" where
  "ydb_GetMigrationByVersion tableName =
     ''SELECT tstamp, is_applied FROM '' @ formatYDBTableName tableName @ '' WHERE version_id = $1 ORDER BY tstamp DESC LIMIT 1''"

definition ydb_ListMigrations :: "string \<Rightarrow> string" where
  "ydb_ListMigrations tableName =
     nl @
     tab @ ''SELECT version_id, is_applied, tstamp AS __discard_column_tstamp '' @ nl @
     tab @ ''FROM '' @ formatYDBTableName tableName @ '' ORDER BY __discard_column_tstamp DESC''"

definition ydb_GetLatestVersion :: "string \<Rightarrow> string" where
  "ydb_GetLatestVersion tableName =
     ''SELECT MAX(version_id) FROM '' @ formatYDBTableName tableName"

definition NewYDB :: querier where
  "NewYDB =
     \<lparr>Q_CreateTable = ydb_CreateTable,
      Q_InsertVersion = ydb_InsertVersion,
      Q_DeleteVersion = ydb_DeleteVersion,
      Q_GetMigrationByVersion = ydb_GetMigrationByVersion,
      Q_ListMigrations = ydb_ListMigrations,
      Q_GetLatestVersion = ydb_GetLatestVersion,
      Q_TableExists = None\<rparr>"

section \<open>Lookup by dialect\<close>

type_synonym Dialect = string

definition DialectCustom :: Dialect where "DialectCustom = ''''"

definition builtin_queriers :: "(Dialect \<times> querier) list" where
  "builtin_queriers =
     [(''clickhouse'', NewClickhouse), (''dsql'', NewAuroraDSQL), (''mssql'', NewSqlserver), (''mysql'', NewMysql),
      (''postgres'', NewPostgres), (''redshift'', NewRedshift), (''sqlite3'', NewSqlite3), (''spanner'', NewSpanner),
      (''starrocks'', NewStarrocks), (''tidb'', NewTidb), (''turso'', NewTurso), (''vertica'', NewVertica),
      (''ydb'', NewYDB)]"

definition NewStoreFromQuerier :: "string \<Rightarrow> querier option \<Rightarrow> err + (string \<times> querier)" where
  "NewStoreFromQuerier tableName q =
     (if tableName = [] then Inl (Msg ''table name must not be empty'')
      else
        (case q of
           None \<Rightarrow> Inl (Msg ''querier must not be nil'')
         | Some q' \<Rightarrow> Inr (tableName, q')))"

definition NewStore :: "Dialect \<Rightarrow> string \<Rightarrow> err + (string \<times> querier)" where
  "NewStore d tableName =
     (if d = DialectCustom then Inl (Msg ''custom dialect is not supported'')
      else
        (case map_of builtin_queriers d of
           None \<Rightarrow> Inl (Msg (''unknown dialect: '' @ Quote d))
         | Some q \<Rightarrow> NewStoreFromQuerier tableName (Some q)))"

definition queryController_TableExists :: "querier \<Rightarrow> string \<Rightarrow> string" where
  "queryController_TableExists q tableName =
     (case Q_TableExists q of None \<Rightarrow> '''' | Some f \<Rightarrow> f tableName)"

definition legacy_NewStore :: "Dialect \<Rightarrow> err + querier" where
  "legacy_NewStore d =
     (if d = ''postgres'' then Inr NewPostgres
      else if d = ''mysql'' then Inr NewMysql
      else if d = ''sqlite3'' then Inr NewSqlite3
      else if d = ''spanner'' then Inr NewSpanner
      else if d = ''mssql'' then Inr NewSqlserver
      else if d = ''redshift'' then Inr NewRedshift
      else if d = ''tidb'' then Inr NewTidb
      else if d = ''clickhouse'' then Inr NewClickhouse
      else if d = ''vertica'' then Inr NewVertica
      else if d = ''ydb'' then Inr NewYDB
      else if d = ''turso'' then Inr NewTurso
      else if d = ''starrocks'' then Inr NewStarrocks
      else Inl (Msg (''unknown querier dialect: '' @ d)))"

text \<open>
  \<open>SetDialect\<close> replaces the package's store, here the argument and the second result. It assigns the
  result of \<open>NewStore\<close> even on an error, a nil store, but no name of the switch leads there.
\<close>

definition dialect_of_name :: "string \<Rightarrow> Dialect option" where
  "dialect_of_name s =
     (if s \<in> {''postgres'', ''pgx''} then Some ''postgres''
      else if s = ''mysql'' then Some ''mysql''
      else if s \<in> {''sqlite3'', ''sqlite''} then Some ''sqlite3''
      else if s = ''spanner'' then Some ''spanner''
      else if s \<in> {''mssql'', ''azuresql'', ''sqlserver''} then Some ''mssql''
      else if s = ''redshift'' then Some ''redshift''
      else if s = ''tidb'' then Some ''tidb''
      else if s = ''clickhouse'' then Some ''clickhouse''
      else if s = ''vertica'' then Some ''vertica''
      else if s = ''ydb'' then Some ''ydb''
      else if s = ''turso'' then Some ''turso''
      else if s = ''starrocks'' then Some ''starrocks''
      else None)"

definition SetDialect :: "string \<Rightarrow> querier option \<Rightarrow> err option \<times> querier option" where
  "SetDialect s store =
     (case dialect_of_name s of
        None \<Rightarrow> (Some (Msg (Quote s @ '': unknown dialect'')), store)
      | Some d \<Rightarrow>
          (case legacy_NewStore d of
             Inl e \<Rightarrow> (Some e, None)
           | Inr q \<Rightarrow> (None, Some q)))"

text \<open>\<open>sql.Open\<close> is the argument \<open>sql_Open\<close>.\<close>

definition driver_of_name :: "string \<Rightarrow> string" where
  "driver_of_name driver =
     (if driver = ''mssql'' then ''sqlserver''
      else if driver = ''tidb'' then ''mysql''
      else if driver = ''spanner'' then ''spanner''
      else if driver = ''turso'' then ''libsql''
      else if driver = ''sqlite3'' then ''sqlite''
      else if driver \<in> {''postgres'', ''redshift''} then ''pgx''
      else if driver = ''starrocks'' then ''mysql''
      else driver)"

definition OpenDBWithDriver ::
    "(string \<Rightarrow> string \<Rightarrow> err + 'db) \<Rightarrow> string \<Rightarrow> string \<Rightarrow> querier option \<Rightarrow> (err + 'db) \<times> querier option" where
  "OpenDBWithDriver sql_Open driver dbstring store =
     (case SetDialect driver store of
        (Some e, store') \<Rightarrow> (Inl e, store')
      | (None, store') \<Rightarrow>
          (if driver_of_name driver \<in>
                {''postgres'', ''pgx'', ''sqlite3'', ''sqlite'', ''spanner'', ''mysql'', ''sqlserver'', ''clickhouse'',
                 ''vertica'', ''azuresql'', ''ydb'', ''libsql'', ''starrocks''}
           then (sql_Open (driver_of_name driver) dbstring, store')
           else (Inl (Msg (''unsupported driver '' @ driver_of_name driver)), store')))"


section \<open>Lemmas\<close>

lemmas statement_defs =
  clickhouse_CreateTable_def clickhouse_InsertVersion_def clickhouse_DeleteVersion_def
  clickhouse_GetMigrationByVersion_def clickhouse_ListMigrations_def clickhouse_GetLatestVersion_def
  dsql_CreateTable_def dsql_InsertVersion_def dsql_DeleteVersion_def dsql_GetMigrationByVersion_def
  dsql_ListMigrations_def dsql_GetLatestVersion_def dsql_TableExists_def mysql_CreateTable_def
  mysql_InsertVersion_def mysql_DeleteVersion_def mysql_GetMigrationByVersion_def
  mysql_ListMigrations_def mysql_GetLatestVersion_def mysql_TableExists_def postgres_CreateTable_def
  postgres_InsertVersion_def postgres_DeleteVersion_def postgres_GetMigrationByVersion_def
  postgres_ListMigrations_def postgres_GetLatestVersion_def postgres_TableExists_def
  redshift_CreateTable_def redshift_InsertVersion_def redshift_DeleteVersion_def
  redshift_GetMigrationByVersion_def redshift_ListMigrations_def redshift_GetLatestVersion_def
  spanner_CreateTable_def spanner_InsertVersion_def spanner_DeleteVersion_def
  spanner_GetMigrationByVersion_def spanner_ListMigrations_def spanner_GetLatestVersion_def
  sqlite3_CreateTable_def sqlite3_InsertVersion_def sqlite3_DeleteVersion_def
  sqlite3_GetMigrationByVersion_def sqlite3_ListMigrations_def sqlite3_GetLatestVersion_def
  sqlserver_CreateTable_def sqlserver_InsertVersion_def sqlserver_DeleteVersion_def
  sqlserver_GetMigrationByVersion_def sqlserver_ListMigrations_def sqlserver_GetLatestVersion_def
  starrocks_CreateTable_def starrocks_InsertVersion_def starrocks_DeleteVersion_def
  starrocks_GetMigrationByVersion_def starrocks_ListMigrations_def starrocks_GetLatestVersion_def
  tidb_CreateTable_def tidb_InsertVersion_def tidb_DeleteVersion_def tidb_GetMigrationByVersion_def
  tidb_ListMigrations_def tidb_GetLatestVersion_def vertica_CreateTable_def vertica_InsertVersion_def
  vertica_DeleteVersion_def vertica_GetMigrationByVersion_def vertica_ListMigrations_def
  vertica_GetLatestVersion_def ydb_CreateTable_def ydb_InsertVersion_def ydb_DeleteVersion_def
  ydb_GetMigrationByVersion_def ydb_ListMigrations_def ydb_GetLatestVersion_def
  formatYDBTableName_def char_defs

lemmas new_querier_defs =
  NewClickhouse_def NewAuroraDSQL_def NewMysql_def NewPostgres_def NewRedshift_def NewSpanner_def
  NewSqlite3_def NewTurso_def NewSqlserver_def NewStarrocks_def NewTidb_def NewVertica_def NewYDB_def

definition queries :: "querier \<Rightarrow> string \<Rightarrow> string list" where
  "queries q t =
     [Q_CreateTable q t, Q_InsertVersion q t, Q_DeleteVersion q t, Q_GetMigrationByVersion q t,
      Q_ListMigrations q t, Q_GetLatestVersion q t] @
     (case Q_TableExists q of None \<Rightarrow> [] | Some f \<Rightarrow> [f t])"

lemma builtin_queries_distinct: "(d, q) \<in> set builtin_queriers \<Longrightarrow> distinct (queries q t)"
  by (auto simp: builtin_queriers_def queries_def new_querier_defs statement_defs case_prod_beta
      split: if_splits)

lemma builtin_queries_nonempty: "(d, q) \<in> set builtin_queriers \<Longrightarrow> [] \<notin> set (queries q t)"
  by (auto simp: builtin_queriers_def queries_def new_querier_defs statement_defs case_prod_beta
      split: if_splits)

section \<open>Properties\<close>

text \<open>
  For every built-in dialect and every table name, the statements that create the version
  table, insert, delete, look up and list versions, find the latest one and test for the table are
  pairwise different, so no call can reach the server as another one.
\<close>

theorem builtin_statements_distinct: "list_all (\<lambda>(d, q). distinct (queries q t)) builtin_queriers"
  using builtin_queries_distinct by (auto simp: list_all_iff)

text \<open>
  The legacy store and the provider's store use the same statements for the same dialect, and
  the dialects they know differ by Aurora DSQL only.
\<close>

theorem legacy_and_provider_dialects:
  assumes "t \<noteq> []"
  shows "legacy_NewStore d = Inr q \<longleftrightarrow> d \<noteq> ''dsql'' \<and> NewStore d t = Inr (t, q)"
  using assms
  by (auto simp: legacy_NewStore_def NewStore_def NewStoreFromQuerier_def builtin_queriers_def DialectCustom_def)

text \<open>
  Opening a database by driver name sets the package's store and reaches \<open>sql.Open\<close> with a driver
  whenever the name is one \<open>SetDialect\<close> knows, so its own test for unsupported drivers never fires;
  for any other name nothing changes.
\<close>

theorem OpenDBWithDriver_cases:
  "OpenDBWithDriver sql_Open driver dbstring store =
     (case dialect_of_name driver of
        None \<Rightarrow> (Inl (Msg (Quote driver @ '': unknown dialect'')), store)
      | Some d \<Rightarrow> (sql_Open (driver_of_name driver) dbstring, Some (the (map_of builtin_queriers d))))"
  by (auto simp: OpenDBWithDriver_def SetDialect_def dialect_of_name_def driver_of_name_def
      legacy_NewStore_def builtin_queriers_def)

end
