(* ===== verification/Sql_Parser.thy ===== *)
theory Sql_Parser
  imports Goose_Errors
begin

text \<open>
  The SQL migration parser, \<open>internal/sqlparser\<close>: the line-driven state machine of
  \<open>ParseSQLMigration\<close>, the annotation reader, the semicolon test and \<open>ParseAllFromFS\<close>.
  One call of \<open>scan_step\<close> is one iteration of the scanner loop. What the parser takes from other
  packages (variable interpolation, the combination of errors, the error group) is a parameter,
  the record \<open>ext\<close>. The second half proves that both directions see the same sections and the same
  transaction mode, that the statements of one direction do not depend on the other's text, and
  that a migration written with statement blocks is read back.
\<close>

section \<open>Parameters and data\<close>

record ext =
  interpolate :: "string \<Rightarrow> err + string"
  multierr_append :: "err option \<Rightarrow> err option \<Rightarrow> err option"
  group_wait :: "err option \<Rightarrow> err option \<Rightarrow> err option"

text \<open>
  The documented contract of \<open>multierr.Append\<close> (nil arguments are ignored, two errors combine to
  one) and of an error group of two goroutines (the first non-nil error, or nil).
\<close>

definition append_laws :: "'x ext_scheme \<Rightarrow> bool" where
  "append_laws x \<longleftrightarrow>
     (\<forall>a. multierr_append x a None = a \<and> multierr_append x None a = a) \<and>
     (\<forall>a b. multierr_append x (Some a) (Some b) \<noteq> None)"

definition wait_laws :: "'x ext_scheme \<Rightarrow> bool" where
  "wait_laws x \<longleftrightarrow>
     (\<forall>a b. group_wait x a b \<in> (if a = None then {b} else if b = None then {a} else {a, b}))"

datatype Direction = DirectionUp | DirectionDown

definition FromBool :: "bool \<Rightarrow> Direction" where
  "FromBool b = (if b then DirectionUp else DirectionDown)"

definition Direction_String :: "Direction \<Rightarrow> string" where
  "Direction_String d = (case d of DirectionUp \<Rightarrow> ''up'' | DirectionDown \<Rightarrow> ''down'')"

definition ToBool :: "Direction \<Rightarrow> bool" where
  "ToBool d \<longleftrightarrow> d = DirectionUp"

datatype parserState =
    start | gooseUp | gooseStatementBeginUp | gooseStatementEndUp
  | gooseDown | gooseStatementBeginDown | gooseStatementEndDown

fun state_num :: "parserState \<Rightarrow> nat" where
  "state_num start = 0"
| "state_num gooseUp = 1"
| "state_num gooseStatementBeginUp = 2"
| "state_num gooseStatementEndUp = 3"
| "state_num gooseDown = 4"
| "state_num gooseStatementBeginDown = 5"
| "state_num gooseStatementEndDown = 6"

definition scanBufSize :: int where
  "scanBufSize = 4 * 1024 * 1024"

datatype annotation =
    annotationUp | annotationDown | annotationStatementBegin | annotationStatementEnd
  | annotationNoTransaction | annotationEnvsubOn | annotationEnvsubOff

fun annotation_text :: "annotation \<Rightarrow> string" where
  "annotation_text annotationUp = ''Up''"
| "annotation_text annotationDown = ''Down''"
| "annotation_text annotationStatementBegin = ''StatementBegin''"
| "annotation_text annotationStatementEnd = ''StatementEnd''"
| "annotation_text annotationNoTransaction = ''NO TRANSACTION''"
| "annotation_text annotationEnvsubOn = ''ENVSUB ON''"
| "annotation_text annotationEnvsubOff = ''ENVSUB OFF''"

text \<open>
  The source ranges over a map; no two texts are equal under case folding, so the order is
  immaterial.
\<close>

definition supportedAnnotations :: "annotation list" where
  "supportedAnnotations =
     [annotationUp, annotationDown, annotationStatementBegin, annotationStatementEnd,
      annotationNoTransaction, annotationEnvsubOn, annotationEnvsubOff]"

definition extractAnnotation :: "string \<Rightarrow> err + annotation" where
  "extractAnnotation line =
     (if HasPrefix line '' '' \<or> HasPrefix line tab
      then Inl (Wrap (Quote line @ '' contains leading whitespace'') (Sent ErrInvalidAnnotation))
      else
        (let cmd = Replace1 (ReplaceAll line ''--'' '''') ''+goose'' ''''
         in if Contains cmd ''+goose''
            then Inl (Wrap (Quote cmd @ '' contains multiple '' @ sq @ ''+goose'' @ sq @ '' annotations'')
                   (Sent ErrInvalidAnnotation))
            else
              (let a = TrimSpace cmd
               in if a = [] then Inl (Sent ErrEmptyAnnotation)
                  else
                    (case find (\<lambda>s. EqualFold (annotation_text s) a) supportedAnnotations of
                       Some s \<Rightarrow> Inr s
                     | None \<Rightarrow> Inl (Wrap (Quote a @ '' not supported'') (Sent ErrInvalidAnnotation))))))"

definition cleanupStatement :: "string \<Rightarrow> string" where
  "cleanupStatement input = TrimSpace input"

fun last_word :: "string \<Rightarrow> string list \<Rightarrow> string" where
  "last_word prev [] = prev"
| "last_word prev (w # ws) = (if HasPrefix w ''--'' then prev else last_word w ws)"

definition endsWithSemicolon :: "string \<Rightarrow> bool" where
  "endsWithSemicolon line =
     HasSuffix (last_word '''' (takeWhile (\<lambda>w. int (length w) < scanBufSize) (ScanWords line))) '';''"

definition missingSemicolonError :: "parserState \<Rightarrow> Direction \<Rightarrow> string \<Rightarrow> err" where
  "missingSemicolonError st d s =
     Msg (''failed to parse migration: state '' @ FormatNat (state_num st) @ '', direction: '' @
          Direction_String d @ '': unexpected unfinished SQL query: '' @ Quote s @
          '': missing semicolon?'')"

section \<open>The state machine\<close>

record parser =
  ps_state :: parserState
  ps_useTx :: bool
  ps_useEnvsub :: bool
  ps_buf :: string
  ps_stmts :: "string list"

definition init_parser :: parser where
  "init_parser = \<lparr>ps_state = start, ps_useTx = True, ps_useEnvsub = False, ps_buf = [], ps_stmts = []\<rparr>"

definition is_annotation_line :: "string \<Rightarrow> bool" where
  "is_annotation_line line \<longleftrightarrow> HasPrefix (TrimSpace line) ''--'' \<and> Contains line ''+goose''"

text \<open>
  The \<open>switch cmd\<close>. The flag says whether the loop body ends with \<open>continue\<close>: only
  \<open>StatementEnd\<close> falls through to the code that exports the statement.
\<close>

definition handle_annotation :: "Direction \<Rightarrow> parser \<Rightarrow> annotation \<Rightarrow> err + (bool \<times> parser)" where
  "handle_annotation dir ps cmd =
     (case cmd of
        annotationUp \<Rightarrow>
          (case ps_state ps of
             start \<Rightarrow> Inr (True, ps\<lparr>ps_state := gooseUp\<rparr>)
           | _ \<Rightarrow> Inl (Msg (''duplicate -- +goose Up annotations; stateMachine='' @ FormatNat (state_num (ps_state ps)))))
      | annotationDown \<Rightarrow>
          (if ps_state ps \<in> {gooseUp, gooseStatementEndUp}
           then (let bufferRemaining = TrimSpace (ps_buf ps)
                 in if bufferRemaining \<noteq> [] then Inl (missingSemicolonError (ps_state ps) dir bufferRemaining)
                    else Inr (True, ps\<lparr>ps_state := gooseDown\<rparr>))
           else Inl (Msg (''must start with -- +goose Up annotation, stateMachine='' @ FormatNat (state_num (ps_state ps)))))
      | annotationStatementBegin \<Rightarrow>
          (if ps_state ps \<in> {gooseUp, gooseStatementEndUp}
           then Inr (True, ps\<lparr>ps_state := gooseStatementBeginUp\<rparr>)
           else if ps_state ps \<in> {gooseDown, gooseStatementEndDown}
           then Inr (True, ps\<lparr>ps_state := gooseStatementBeginDown\<rparr>)
           else Inl (Msg (''-- +goose StatementBegin must be defined after -- +goose Up or -- +goose Down annotation, stateMachine='' @
                          FormatNat (state_num (ps_state ps)))))
      | annotationStatementEnd \<Rightarrow>
          (case ps_state ps of
             gooseStatementBeginUp \<Rightarrow> Inr (False, ps\<lparr>ps_state := gooseStatementEndUp\<rparr>)
           | gooseStatementBeginDown \<Rightarrow> Inr (False, ps\<lparr>ps_state := gooseStatementEndDown\<rparr>)
           | _ \<Rightarrow> Inl (Msg ''-- +goose StatementEnd must be defined after -- +goose StatementBegin''))
      | annotationNoTransaction \<Rightarrow> Inr (True, ps\<lparr>ps_useTx := False\<rparr>)
      | annotationEnvsubOn \<Rightarrow> Inr (True, ps\<lparr>ps_useEnvsub := True\<rparr>)
      | annotationEnvsubOff \<Rightarrow> Inr (True, ps\<lparr>ps_useEnvsub := False\<rparr>))"

text \<open>Writing the line to the buffer; the possibly expanded line is what the semicolon test sees.\<close>

definition write_line :: "'x ext_scheme \<Rightarrow> parser \<Rightarrow> string \<Rightarrow> err + (parser \<times> string)" where
  "write_line x ps line =
     (if ps_state ps \<in> {gooseStatementEndDown, gooseStatementEndUp} then Inr (ps, line)
      else
        (case (if ps_useEnvsub ps then interpolate x line else Inr line) of
           Inl e \<Rightarrow> Inl (Wrap ''variable substitution failed'' e)
         | Inr expanded \<Rightarrow> Inr (ps\<lparr>ps_buf := ps_buf ps @ expanded @ nl\<rparr>, expanded)))"

definition section_of :: "parserState \<Rightarrow> Direction option" where
  "section_of st =
     (if st \<in> {gooseUp, gooseStatementBeginUp, gooseStatementEndUp} then Some DirectionUp
      else if st \<in> {gooseDown, gooseStatementBeginDown, gooseStatementEndDown} then Some DirectionDown
      else None)"

definition store_statement :: "parser \<Rightarrow> parserState \<Rightarrow> parser" where
  "store_statement ps st =
     ps\<lparr>ps_stmts := ps_stmts ps @ [cleanupStatement (ps_buf ps)], ps_buf := [], ps_state := st\<rparr>"

definition export_statement :: "parser \<Rightarrow> string \<Rightarrow> parser" where
  "export_statement ps line =
     (case ps_state ps of
        gooseUp \<Rightarrow> (if endsWithSemicolon line then store_statement ps gooseUp else ps)
      | gooseDown \<Rightarrow> (if endsWithSemicolon line then store_statement ps gooseDown else ps)
      | gooseStatementEndUp \<Rightarrow> store_statement ps gooseUp
      | gooseStatementEndDown \<Rightarrow> store_statement ps gooseDown
      | _ \<Rightarrow> ps)"

definition text_line :: "'x ext_scheme \<Rightarrow> Direction \<Rightarrow> parser \<Rightarrow> string \<Rightarrow> err + parser" where
  "text_line x dir ps line =
     (if ps_buf ps = [] \<and> (HasPrefix (TrimSpace line) ''--'' \<or> line = [])
      then Inr ps
      else
        (case write_line x ps line of
           Inl e \<Rightarrow> Inl e
         | Inr (ps', line') \<Rightarrow>
             (case section_of (ps_state ps') of
                None \<Rightarrow> Inl (Msg (''failed to parse migration: unexpected state '' @
                               FormatNat (state_num (ps_state ps')) @ '' on line '' @ Quote line'))
              | Some d \<Rightarrow>
                  (if d \<noteq> dir then Inr (ps'\<lparr>ps_buf := []\<rparr>)
                   else Inr (export_statement ps' line')))))"

definition scan_step :: "'x ext_scheme \<Rightarrow> Direction \<Rightarrow> parser \<Rightarrow> string \<Rightarrow> err + parser" where
  "scan_step x dir ps line =
     (if ps_state ps = start \<and> TrimSpace line = [] then Inr ps
      else if is_annotation_line line
      then (case extractAnnotation line of
              Inl e \<Rightarrow> Inl (Wrap (''failed to parse annotation line '' @ Quote line) e)
            | Inr cmd \<Rightarrow>
                (case handle_annotation dir ps cmd of
                   Inl e \<Rightarrow> Inl e
                 | Inr (cont, ps') \<Rightarrow> (if cont then Inr ps' else text_line x dir ps' line)))
      else text_line x dir ps line)"

fun scan_loop :: "'x ext_scheme \<Rightarrow> Direction \<Rightarrow> string list \<Rightarrow> parser \<Rightarrow> err + parser" where
  "scan_loop x dir [] ps = Inr ps"
| "scan_loop x dir (l # ls) ps =
     (case scan_step x dir ps l of Inl e \<Rightarrow> Inl e | Inr ps' \<Rightarrow> scan_loop x dir ls ps')"

definition finish :: "Direction \<Rightarrow> parser \<Rightarrow> err + (string list \<times> bool)" where
  "finish dir ps =
     (if ps_state ps = start
      then Inl (Msg ''failed to parse migration: must start with -- +goose Up annotation'')
      else if ps_state ps \<in> {gooseStatementBeginUp, gooseStatementBeginDown}
      then Inl (Msg ''failed to parse migration: missing -- +goose StatementEnd annotation'')
      else
        (let bufferRemaining = TrimSpace (ps_buf ps)
         in if bufferRemaining \<noteq> [] then Inl (missingSemicolonError (ps_state ps) dir bufferRemaining)
            else Inr (ps_stmts ps, ps_useTx ps)))"

type_synonym reader = "string \<times> err option"

definition ParseSQLMigration :: "'x ext_scheme \<Rightarrow> reader \<Rightarrow> Direction \<Rightarrow> err + (string list \<times> bool)" where
  "ParseSQLMigration x r dir =
     (let (lines, tooLong) = ScanLines scanBufSize (fst r)
      in case scan_loop x dir lines init_parser of
           Inl e \<Rightarrow> Inl e
         | Inr ps \<Rightarrow>
             (if tooLong then Inl (Wrap ''failed to scan migration'' (Sent ErrTooLong))
              else (case snd r of
                      Some e \<Rightarrow> Inl (Wrap ''failed to scan migration'' e)
                    | None \<Rightarrow> finish dir ps)))"

section \<open>Parsing a file in both directions\<close>

text \<open>
  A file system is the listing of its root directory in the order \<open>fs.ReadDir\<close> gives; each name
  opens to a file (its reader and the error its \<open>Close\<close> returns) or fails to open.
\<close>

record go_file =
  f_reader :: reader
  f_close :: "err option"

type_synonym fs = "(path \<times> (err + go_file)) list"

definition fs_Open :: "fs \<Rightarrow> path \<Rightarrow> err + go_file" where
  "fs_Open fsys name = (case map_of fsys name of None \<Rightarrow> Inl (Sent ErrNotExist) | Some r \<Rightarrow> r)"

record ParsedSQL =
  P_UseTx :: bool
  P_Up :: "string list"
  P_Down :: "string list"

definition parse :: "'x ext_scheme \<Rightarrow> fs \<Rightarrow> path \<Rightarrow> Direction \<Rightarrow> err + (string list \<times> bool)" where
  "parse x fsys filename dir =
     (case fs_Open fsys filename of
        Inl e \<Rightarrow> Inl e
      | Inr f \<Rightarrow>
          (case ParseSQLMigration x (f_reader f) dir of
             Inl e \<Rightarrow>
               (case multierr_append x (Some (Wrap (''failed to parse '' @ filename) e)) (f_close f) of
                  Some e' \<Rightarrow> Inl e'
                | None \<Rightarrow> Inr ([], False))
           | Inr r \<Rightarrow>
               (case multierr_append x None (f_close f) of
                  Some e' \<Rightarrow> Inl e'
                | None \<Rightarrow> Inr r)))"

definition err_of :: "err + 'a \<Rightarrow> err option" where
  "err_of r = (case r of Inl e \<Rightarrow> Some e | Inr _ \<Rightarrow> None)"

definition ParseAllFromFS :: "'x ext_scheme \<Rightarrow> fs \<Rightarrow> path \<Rightarrow> err + ParsedSQL" where
  "ParseAllFromFS x fsys filename =
     (let up = parse x fsys filename DirectionUp;
          down = parse x fsys filename DirectionDown
      in case group_wait x (err_of up) (err_of down) of
           Some e \<Rightarrow> Inl e
         | None \<Rightarrow>
             Inr \<lparr>P_UseTx = (case up of Inr (_, t) \<Rightarrow> t | Inl _ \<Rightarrow> False),
                  P_Up = (case up of Inr (ss, _) \<Rightarrow> ss | Inl _ \<Rightarrow> []),
                  P_Down = (case down of Inr (ss, _) \<Rightarrow> ss | Inl _ \<Rightarrow> [])\<rparr>)"

section \<open>The annotation lines goose documents\<close>

definition lineUp :: string where "lineUp = ''-- +goose Up''"
definition lineDown :: string where "lineDown = ''-- +goose Down''"
definition lineBegin :: string where "lineBegin = ''-- +goose StatementBegin''"
definition lineEnd :: string where "lineEnd = ''-- +goose StatementEnd''"

lemmas line_defs = lineUp_def lineDown_def lineBegin_def lineEnd_def

lemma annotation_lines [simp]:
  "is_annotation_line lineUp" "extractAnnotation lineUp = Inr annotationUp"
  "is_annotation_line lineDown" "extractAnnotation lineDown = Inr annotationDown"
  "is_annotation_line lineBegin" "extractAnnotation lineBegin = Inr annotationStatementBegin"
  "is_annotation_line lineEnd" "extractAnnotation lineEnd = Inr annotationStatementEnd"
  by code_simp+

section \<open>Refinement: the sections a migration is divided into\<close>

text \<open>
  What the machine promises is a smaller machine: the position in the script, whether a
  transaction is used and whether variables are substituted. It does not know the direction.
\<close>

datatype phase = PStart | PUp | PUpBlock | PDown | PDownBlock

fun phase_of :: "parserState \<Rightarrow> phase" where
  "phase_of start = PStart"
| "phase_of gooseUp = PUp"
| "phase_of gooseStatementEndUp = PUp"
| "phase_of gooseStatementBeginUp = PUpBlock"
| "phase_of gooseDown = PDown"
| "phase_of gooseStatementEndDown = PDown"
| "phase_of gooseStatementBeginDown = PDownBlock"

type_synonym outline = "phase \<times> bool \<times> bool"

fun outline_annotation :: "annotation \<Rightarrow> outline \<Rightarrow> outline option" where
  "outline_annotation annotationUp (ph, tx, env) = (if ph = PStart then Some (PUp, tx, env) else None)"
| "outline_annotation annotationDown (ph, tx, env) = (if ph = PUp then Some (PDown, tx, env) else None)"
| "outline_annotation annotationStatementBegin (ph, tx, env) =
     (if ph = PUp then Some (PUpBlock, tx, env)
      else if ph = PDown then Some (PDownBlock, tx, env) else None)"
| "outline_annotation annotationStatementEnd (ph, tx, env) =
     (if ph = PUpBlock then Some (PUp, tx, env)
      else if ph = PDownBlock then Some (PDown, tx, env) else None)"
| "outline_annotation annotationNoTransaction (ph, tx, env) = Some (ph, False, env)"
| "outline_annotation annotationEnvsubOn (ph, tx, env) = Some (ph, tx, True)"
| "outline_annotation annotationEnvsubOff (ph, tx, env) = Some (ph, tx, False)"

definition outline_step :: "outline \<Rightarrow> string \<Rightarrow> outline option" where
  "outline_step out line =
     (if is_annotation_line line
      then (case extractAnnotation line of Inl _ \<Rightarrow> None | Inr cmd \<Rightarrow> outline_annotation cmd out)
      else if fst out = PStart \<and> TrimSpace line \<noteq> [] \<and> \<not> HasPrefix (TrimSpace line) ''--'' then None
      else Some out)"

fun outline_loop :: "string list \<Rightarrow> outline \<Rightarrow> outline option" where
  "outline_loop [] out = Some out"
| "outline_loop (l # ls) out = (case outline_step out l of None \<Rightarrow> None | Some out' \<Rightarrow> outline_loop ls out')"

definition outline_of :: "parser \<Rightarrow> outline" where
  "outline_of ps = (phase_of (ps_state ps), ps_useTx ps, ps_useEnvsub ps)"

text \<open>The invariant: nothing is buffered before the first annotation, and statements are trimmed.\<close>

definition parser_inv :: "parser \<Rightarrow> bool" where
  "parser_inv ps \<longleftrightarrow>
     (ps_state ps = start \<longrightarrow> ps_buf ps = [] \<and> ps_stmts ps = []) \<and>
     (\<forall>s\<in>set (ps_stmts ps). TrimSpace s = s)"

lemma parser_inv_init [simp]: "parser_inv init_parser"
  by (simp add: parser_inv_def init_parser_def)

lemma is_annotation_line_nonblank: "is_annotation_line line \<Longrightarrow> TrimSpace line \<noteq> []"
  by (auto simp: is_annotation_line_def)

lemma handle_annotation_refines:
  assumes "handle_annotation dir ps cmd = Inr (cont, ps')"
  shows "outline_annotation cmd (outline_of ps) = Some (outline_of ps')"
    and "parser_inv ps \<Longrightarrow> parser_inv ps'"
    and "ps_buf ps' = ps_buf ps" and "ps_stmts ps' = ps_stmts ps"
  using assms
  by (cases cmd; cases "ps_state ps";
      auto simp: handle_annotation_def outline_of_def parser_inv_def Let_def split: if_splits)+

lemma handle_annotation_state:
  assumes "handle_annotation dir ps cmd = Inr (False, ps')"
  shows "ps_state ps' \<in> {gooseStatementEndUp, gooseStatementEndDown}"
  using assms
  by (cases cmd; cases "ps_state ps") (auto simp: handle_annotation_def Let_def split: if_splits)

lemma export_statement_refines:
  "phase_of (ps_state (export_statement ps line)) = phase_of (ps_state ps)"
  "ps_useTx (export_statement ps line) = ps_useTx ps"
  "ps_useEnvsub (export_statement ps line) = ps_useEnvsub ps"
  by (cases "ps_state ps"; simp add: export_statement_def store_statement_def)+

lemma export_statement_inv:
  assumes "parser_inv ps" shows "parser_inv (export_statement ps line)"
  using assms
  by (cases "ps_state ps")
    (auto simp: export_statement_def store_statement_def parser_inv_def cleanupStatement_def)

lemma write_line_refines:
  assumes "write_line x ps line = Inr (ps', line')"
  shows "ps_state ps' = ps_state ps" "ps_useTx ps' = ps_useTx ps" "ps_useEnvsub ps' = ps_useEnvsub ps"
    "ps_stmts ps' = ps_stmts ps"
  using assms by (auto simp: write_line_def split: if_splits sum.splits)

lemma text_line_refines:
  assumes "text_line x dir ps line = Inr ps'" and "parser_inv ps"
  shows "outline_of ps' = outline_of ps \<and> parser_inv ps'"
proof (cases "ps_buf ps = [] \<and> (HasPrefix (TrimSpace line) ''--'' \<or> line = [])")
  case True
  with assms show ?thesis by (auto simp: text_line_def)
next
  case False
  with assms(1) obtain ps1 line1 d where w: "write_line x ps line = Inr (ps1, line1)"
    and d: "section_of (ps_state ps1) = Some d"
    and ps': "ps' = (if d \<noteq> dir then ps1\<lparr>ps_buf := []\<rparr> else export_statement ps1 line1)"
    by (auto simp: text_line_def split: sum.splits option.splits if_splits)
  from d have "ps_state ps1 \<noteq> start" by (auto simp: section_of_def)
  with write_line_refines [OF w] assms(2) have "parser_inv ps1" by (simp add: parser_inv_def)
  then have "parser_inv ps'"
    using ps' \<open>ps_state ps1 \<noteq> start\<close> by (auto simp: export_statement_inv) (simp add: parser_inv_def)
  moreover have "outline_of ps' = outline_of ps"
    using ps' write_line_refines [OF w] by (simp add: outline_of_def export_statement_refines)
  ultimately show ?thesis by simp
qed

lemma text_line_start:
  assumes "text_line x dir ps line = Inr ps'" and "parser_inv ps" and "ps_state ps = start"
  shows "HasPrefix (TrimSpace line) ''--'' \<or> line = []"
  using assms
  by (auto simp: text_line_def write_line_def parser_inv_def section_of_def split: if_splits sum.splits)

lemma scan_step_refines:
  assumes "scan_step x dir ps line = Inr ps'" and "parser_inv ps"
  shows "outline_step (outline_of ps) line = Some (outline_of ps') \<and> parser_inv ps'"
proof -
  have ph: "fst (outline_of ps) = PStart \<longleftrightarrow> ps_state ps = start"
    by (cases "ps_state ps") (simp_all add: outline_of_def)
  consider (blank) "ps_state ps = start \<and> TrimSpace line = []"
    | (ann) "is_annotation_line line"
    | (other) "\<not> is_annotation_line line" "\<not> (ps_state ps = start \<and> TrimSpace line = [])"
    by blast
  then show ?thesis
  proof cases
    case blank
    with assms show ?thesis
      by (auto simp: scan_step_def outline_step_def dest: is_annotation_line_nonblank)
  next
    case ann
    with is_annotation_line_nonblank assms(1) obtain cmd cont ps1
      where e: "extractAnnotation line = Inr cmd"
        and h: "handle_annotation dir ps cmd = Inr (cont, ps1)"
        and r: "if cont then ps' = ps1 else text_line x dir ps1 line = Inr ps'"
      by (auto simp: scan_step_def split: sum.splits if_splits)
    note ref = handle_annotation_refines [OF h]
    have "outline_of ps' = outline_of ps1 \<and> parser_inv ps'"
      using r ref(2) [OF assms(2)] by (auto split: if_splits dest: text_line_refines)
    with ann e ref(1) show ?thesis by (simp add: outline_step_def)
  next
    case other
    with assms have t: "text_line x dir ps line = Inr ps'"
      by (simp add: scan_step_def)
    with text_line_start [OF t assms(2)] text_line_refines [OF t assms(2)] ph other(1)
    show ?thesis by (auto simp: outline_step_def)
  qed
qed

lemma scan_loop_refines:
  assumes "scan_loop x dir ls ps = Inr ps'" and "parser_inv ps"
  shows "outline_loop ls (outline_of ps) = Some (outline_of ps') \<and> parser_inv ps'"
  using assms
proof (induction ls arbitrary: ps)
  case (Cons l ls)
  then obtain ps1 where s: "scan_step x dir ps l = Inr ps1" and r: "scan_loop x dir ls ps1 = Inr ps'"
    by (auto split: sum.splits)
  with scan_step_refines [OF s Cons.prems(2)] Cons.IH [OF r] show ?case by simp
qed simp

lemma finish_ok:
  assumes "finish dir ps = Inr (ss, tx)"
  shows "ss = ps_stmts ps" "tx = ps_useTx ps" "TrimSpace (ps_buf ps) = []"
    "phase_of (ps_state ps) \<in> {PUp, PDown}"
  using assms by (cases "ps_state ps"; auto simp: finish_def Let_def split: if_splits)+

lemma parse_ok:
  assumes "ParseSQLMigration x r dir = Inr (ss, tx)"
  obtains ps where "scan_loop x dir (fst (ScanLines scanBufSize (fst r))) init_parser = Inr ps"
    and "finish dir ps = Inr (ss, tx)"
  using assms
  by (auto simp: ParseSQLMigration_def split: prod.splits sum.splits if_splits option.splits)

lemma parse_outline:
  assumes "ParseSQLMigration x r dir = Inr (ss, tx)"
  shows "\<exists>ph env. outline_loop (fst (ScanLines scanBufSize (fst r))) (PStart, True, False) = Some (ph, tx, env)
           \<and> ph \<in> {PUp, PDown} \<and> (\<forall>s\<in>set ss. TrimSpace s = s)"
proof -
  from assms obtain ps where l: "scan_loop x dir (fst (ScanLines scanBufSize (fst r))) init_parser = Inr ps"
    and f: "finish dir ps = Inr (ss, tx)" by (rule parse_ok)
  have "outline_of init_parser = (PStart, True, False)" by (simp add: outline_of_def init_parser_def)
  with scan_loop_refines [OF l parser_inv_init] finish_ok [OF f] show ?thesis
    by (auto simp: outline_of_def parser_inv_def)
qed

section \<open>Statement blocks are read back\<close>

definition block :: "string list \<Rightarrow> string list" where
  "block ls = lineBegin # ls @ [lineEnd]"

definition render :: "string list list \<Rightarrow> string list list \<Rightarrow> string list" where
  "render ups downs = lineUp # concat (map block ups) @ lineDown # concat (map block downs)"

text \<open>
  A statement fits a block when it starts with a line that is neither empty nor a comment and no
  line of it is itself an annotation.
\<close>

definition block_body :: "string list \<Rightarrow> bool" where
  "block_body ls \<longleftrightarrow> ls \<noteq> [] \<and> hd ls \<noteq> [] \<and> \<not> HasPrefix (TrimSpace (hd ls)) ''--'' \<and>
     (\<forall>l\<in>set ls. \<not> is_annotation_line l)"

definition begin_state :: "Direction \<Rightarrow> parserState" where
  "begin_state d = (case d of DirectionUp \<Rightarrow> gooseStatementBeginUp | DirectionDown \<Rightarrow> gooseStatementBeginDown)"

definition idle_state :: "Direction \<Rightarrow> parserState" where
  "idle_state d = (case d of DirectionUp \<Rightarrow> gooseUp | DirectionDown \<Rightarrow> gooseDown)"

definition end_state :: "Direction \<Rightarrow> parserState" where
  "end_state d = (case d of DirectionUp \<Rightarrow> gooseStatementEndUp | DirectionDown \<Rightarrow> gooseStatementEndDown)"

lemmas block_states = begin_state_def idle_state_def end_state_def

lemma scan_loop_append:
  "scan_loop x dir (xs @ ys) ps =
     (case scan_loop x dir xs ps of Inl e \<Rightarrow> Inl e | Inr ps' \<Rightarrow> scan_loop x dir ys ps')"
  by (induction xs arbitrary: ps) (auto split: sum.splits)

lemma step_begin:
  assumes "ps_state ps \<in> {idle_state d, end_state d}"
  shows "scan_step x dir ps lineBegin = Inr (ps\<lparr>ps_state := begin_state d\<rparr>)"
  using assms by (cases d) (auto simp: scan_step_def handle_annotation_def block_states)

lemma step_body_first:
  assumes "ps_state ps = begin_state d" and "\<not> ps_useEnvsub ps" and "\<not> is_annotation_line l"
    and "l \<noteq> [] \<and> \<not> HasPrefix (TrimSpace l) ''--'' \<or> ps_buf ps \<noteq> []"
  shows "scan_step x dir ps l =
     Inr (ps\<lparr>ps_buf := if d = dir then ps_buf ps @ l @ nl else []\<rparr>)"
  using assms
  by (cases d; cases dir)
    (auto simp: scan_step_def text_line_def write_line_def section_of_def export_statement_def block_states)

lemma nl_nonempty [simp]: "nl \<noteq> []" by (simp add: nl_def)

lemma body_matching:
  assumes "ps_state ps = begin_state dir" and "\<not> ps_useEnvsub ps" and "ps_buf ps \<noteq> []"
    and "\<forall>l\<in>set ls. \<not> is_annotation_line l"
  shows "scan_loop x dir ls ps = Inr (ps\<lparr>ps_buf := ps_buf ps @ unlines ls\<rparr>)"
  using assms
proof (induction ls arbitrary: ps)
  case (Cons l ls)
  then have "scan_step x dir ps l = Inr (ps\<lparr>ps_buf := ps_buf ps @ l @ nl\<rparr>)"
    by (simp add: step_body_first)
  with Cons show ?case by simp
qed simp

lemma body_other_step:
  assumes "ps_state ps = begin_state d" and "\<not> ps_useEnvsub ps" and "ps_buf ps = []"
    and "\<not> is_annotation_line l" and "d \<noteq> dir"
  shows "scan_step x dir ps l = Inr ps"
  using assms
  by (cases d; cases dir)
    (auto simp: scan_step_def text_line_def write_line_def section_of_def export_statement_def block_states)

lemma body_other:
  assumes "ps_state ps = begin_state d" and "\<not> ps_useEnvsub ps" and "ps_buf ps = []"
    and "\<forall>l\<in>set ls. \<not> is_annotation_line l" and "d \<noteq> dir"
  shows "scan_loop x dir ls ps = Inr ps"
  using assms by (induction ls) (auto simp: body_other_step)

lemma lineEnd_comment [simp]: "HasPrefix (TrimSpace lineEnd) ''--''"
  by code_simp

lemma lineEnd_nonblank [simp]: "TrimSpace lineEnd \<noteq> []"
  by code_simp

lemma step_end_matching:
  assumes "ps_state ps = begin_state dir" and "ps_buf ps \<noteq> []"
  shows "scan_step x dir ps lineEnd =
     Inr (ps\<lparr>ps_state := idle_state dir, ps_buf := [],
             ps_stmts := ps_stmts ps @ [TrimSpace (ps_buf ps)]\<rparr>)"
  using assms
  by (cases dir)
    (auto simp: scan_step_def handle_annotation_def text_line_def write_line_def section_of_def
      export_statement_def store_statement_def cleanupStatement_def block_states)

lemma step_end_other:
  assumes "ps_state ps = begin_state d" and "ps_buf ps = []" and "d \<noteq> dir"
  shows "scan_step x dir ps lineEnd = Inr (ps\<lparr>ps_state := end_state d\<rparr>)"
  using assms
  by (cases d; cases dir)
    (auto simp: scan_step_def handle_annotation_def text_line_def block_states)

lemma block_matching:
  assumes st: "ps_state ps \<in> {idle_state dir, end_state dir}" and env: "\<not> ps_useEnvsub ps"
    and buf: "ps_buf ps = []" and body: "block_body ls"
  shows "scan_loop x dir (block ls) ps =
     Inr (ps\<lparr>ps_state := idle_state dir, ps_buf := [],
             ps_stmts := ps_stmts ps @ [TrimSpace (unlines ls)]\<rparr>)"
proof -
  obtain l rest where ls: "ls = l # rest" using body by (cases ls) (auto simp: block_body_def)
  let ?p1 = "ps\<lparr>ps_state := begin_state dir\<rparr>"
  let ?p2 = "?p1\<lparr>ps_buf := l @ nl\<rparr>"
  let ?p3 = "?p1\<lparr>ps_buf := (l @ nl) @ unlines rest\<rparr>"
  have s1: "scan_step x dir ?p1 l = Inr ?p2"
    using step_body_first [of ?p1 dir l x dir] body env buf by (simp add: block_body_def ls)
  have s2: "scan_loop x dir rest ?p2 = Inr ?p3"
    using body_matching [of ?p2 dir rest x] body env by (simp add: block_body_def ls)
  have s3: "scan_step x dir ?p3 lineEnd =
      Inr (?p3\<lparr>ps_state := idle_state dir, ps_buf := [],
               ps_stmts := ps_stmts ps @ [TrimSpace (unlines ls)]\<rparr>)"
    using step_end_matching [of ?p3 dir x] by (simp add: ls)
  show ?thesis
    using step_begin [OF st, of x dir] s1 s2 s3 by (simp add: block_def ls scan_loop_append)
qed

lemma block_other:
  assumes st: "ps_state ps \<in> {idle_state d, end_state d}" and env: "\<not> ps_useEnvsub ps"
    and buf: "ps_buf ps = []" and body: "block_body ls" and "d \<noteq> dir"
  shows "scan_loop x dir (block ls) ps = Inr (ps\<lparr>ps_state := end_state d\<rparr>)"
proof -
  let ?p1 = "ps\<lparr>ps_state := begin_state d\<rparr>"
  have s2: "scan_loop x dir ls ?p1 = Inr ?p1"
    using body_other [of ?p1 d ls dir x] body env buf \<open>d \<noteq> dir\<close> by (simp add: block_body_def)
  have s3: "scan_step x dir ?p1 lineEnd = Inr (?p1\<lparr>ps_state := end_state d\<rparr>)"
    using step_end_other [of ?p1 d dir x] buf \<open>d \<noteq> dir\<close> by simp
  show ?thesis
    using step_begin [OF st, of x dir] s2 s3 by (simp add: block_def scan_loop_append)
qed

lemma blocks_matching:
  assumes "ps_state ps \<in> {idle_state dir, end_state dir}" and "\<not> ps_useEnvsub ps" and "ps_buf ps = []"
    and "\<forall>ls\<in>set bs. block_body ls"
  shows "\<exists>st. st \<in> {idle_state dir, end_state dir} \<and>
     scan_loop x dir (concat (map block bs)) ps =
       Inr (ps\<lparr>ps_state := st, ps_stmts := ps_stmts ps @ map (\<lambda>ls. TrimSpace (unlines ls)) bs\<rparr>)"
  using assms
proof (induction bs arbitrary: ps)
  case Nil
  then show ?case by (auto intro!: exI [of _ "ps_state ps"])
next
  case (Cons b bs)
  let ?p = "ps\<lparr>ps_state := idle_state dir, ps_buf := [], ps_stmts := ps_stmts ps @ [TrimSpace (unlines b)]\<rparr>"
  have b: "scan_loop x dir (block b) ps = Inr ?p" using Cons.prems by (intro block_matching) auto
  have "?p = ?p\<lparr>ps_buf := ps_buf ps\<rparr>" using Cons.prems by simp
  with Cons.IH [of ?p] Cons.prems b show ?case by (auto simp: scan_loop_append)
qed

lemma blocks_other:
  assumes "ps_state ps \<in> {idle_state d, end_state d}" and "\<not> ps_useEnvsub ps" and "ps_buf ps = []"
    and "\<forall>ls\<in>set bs. block_body ls" and "d \<noteq> dir"
  shows "\<exists>st. st \<in> {idle_state d, end_state d} \<and>
     scan_loop x dir (concat (map block bs)) ps = Inr (ps\<lparr>ps_state := st\<rparr>)"
  using assms
proof (induction bs arbitrary: ps)
  case Nil
  then show ?case by (auto intro!: exI [of _ "ps_state ps"])
next
  case (Cons b bs)
  have b: "scan_loop x dir (block b) ps = Inr (ps\<lparr>ps_state := end_state d\<rparr>)"
    using Cons.prems by (intro block_other) auto
  from Cons.IH [of "ps\<lparr>ps_state := end_state d\<rparr>"] Cons.prems b show ?case
    by (auto simp: scan_loop_append)
qed

definition scannable :: "string list \<Rightarrow> bool" where
  "scannable ls \<longleftrightarrow> (\<forall>l\<in>set ls. CHR 0x0A \<notin> set l \<and> int (length l) < scanBufSize \<and> drop_cr l = l)"

lemma parse_scannable:
  assumes "scannable ls"
  shows "ParseSQLMigration x (unlines ls, None) dir =
     (case scan_loop x dir ls init_parser of Inl e \<Rightarrow> Inl e | Inr ps \<Rightarrow> finish dir ps)"
  using assms by (simp add: ParseSQLMigration_def scannable_def ScanLines_unlines split: sum.splits)

lemma render_up:
  assumes "\<forall>ls\<in>set (ups @ downs). block_body ls"
  shows "\<exists>ps. scan_loop x DirectionUp (render ups downs) init_parser = Inr ps \<and>
     finish DirectionUp ps = Inr (map (\<lambda>ls. TrimSpace (unlines ls)) ups, True)"
proof -
  let ?p1 = "init_parser\<lparr>ps_state := gooseUp\<rparr>"
  have s1: "scan_step x DirectionUp init_parser lineUp = Inr ?p1"
    by (simp add: scan_step_def handle_annotation_def init_parser_def is_annotation_line_nonblank)
  obtain st where st: "st \<in> {gooseUp, gooseStatementEndUp}"
    and s2: "scan_loop x DirectionUp (concat (map block ups)) ?p1 =
       Inr (?p1\<lparr>ps_state := st, ps_stmts := map (\<lambda>ls. TrimSpace (unlines ls)) ups\<rparr>)"
    using blocks_matching [of ?p1 DirectionUp ups x] assms
    by (auto simp: block_states init_parser_def)
  let ?p2 = "?p1\<lparr>ps_state := st, ps_stmts := map (\<lambda>ls. TrimSpace (unlines ls)) ups\<rparr>"
  have s3: "scan_step x DirectionUp ?p2 lineDown = Inr (?p2\<lparr>ps_state := gooseDown\<rparr>)"
    using st by (auto simp: scan_step_def handle_annotation_def init_parser_def)
  obtain st' where st': "st' \<in> {gooseDown, gooseStatementEndDown}"
    and s4: "scan_loop x DirectionUp (concat (map block downs)) (?p2\<lparr>ps_state := gooseDown\<rparr>) =
       Inr (?p2\<lparr>ps_state := st'\<rparr>)"
    using blocks_other [of "?p2\<lparr>ps_state := gooseDown\<rparr>" DirectionDown downs DirectionUp x] assms
    by (auto simp: block_states init_parser_def)
  have "scan_loop x DirectionUp (render ups downs) init_parser = Inr (?p2\<lparr>ps_state := st'\<rparr>)"
    using s1 s2 s3 s4 by (simp add: render_def scan_loop_append)
  moreover have "finish DirectionUp (?p2\<lparr>ps_state := st'\<rparr>) = Inr (map (\<lambda>ls. TrimSpace (unlines ls)) ups, True)"
    using st' by (auto simp: finish_def init_parser_def)
  ultimately show ?thesis by blast
qed

lemma render_down:
  assumes "\<forall>ls\<in>set (ups @ downs). block_body ls"
  shows "\<exists>ps. scan_loop x DirectionDown (render ups downs) init_parser = Inr ps \<and>
     finish DirectionDown ps = Inr (map (\<lambda>ls. TrimSpace (unlines ls)) downs, True)"
proof -
  let ?p1 = "init_parser\<lparr>ps_state := gooseUp\<rparr>"
  have s1: "scan_step x DirectionDown init_parser lineUp = Inr ?p1"
    by (simp add: scan_step_def handle_annotation_def init_parser_def is_annotation_line_nonblank)
  obtain st where st: "st \<in> {gooseUp, gooseStatementEndUp}"
    and s2: "scan_loop x DirectionDown (concat (map block ups)) ?p1 = Inr (?p1\<lparr>ps_state := st\<rparr>)"
    using blocks_other [of ?p1 DirectionUp ups DirectionDown x] assms
    by (auto simp: block_states init_parser_def)
  let ?p2 = "?p1\<lparr>ps_state := gooseDown\<rparr>"
  have s3: "scan_step x DirectionDown (?p1\<lparr>ps_state := st\<rparr>) lineDown = Inr ?p2"
    using st by (auto simp: scan_step_def handle_annotation_def init_parser_def)
  obtain st' where st': "st' \<in> {gooseDown, gooseStatementEndDown}"
    and s4: "scan_loop x DirectionDown (concat (map block downs)) ?p2 =
       Inr (?p2\<lparr>ps_state := st', ps_stmts := map (\<lambda>ls. TrimSpace (unlines ls)) downs\<rparr>)"
    using blocks_matching [of ?p2 DirectionDown downs x] assms
    by (auto simp: block_states init_parser_def)
  have "scan_loop x DirectionDown (render ups downs) init_parser =
      Inr (?p2\<lparr>ps_state := st', ps_stmts := map (\<lambda>ls. TrimSpace (unlines ls)) downs\<rparr>)"
    using s1 s2 s3 s4 by (simp add: render_def scan_loop_append)
  moreover have "finish DirectionDown (?p2\<lparr>ps_state := st', ps_stmts := map (\<lambda>ls. TrimSpace (unlines ls)) downs\<rparr>) =
      Inr (map (\<lambda>ls. TrimSpace (unlines ls)) downs, True)"
    using st' by (auto simp: finish_def init_parser_def)
  ultimately show ?thesis by blast
qed

section \<open>One direction does not see the other's text\<close>

lemma text_line_other_section:
  assumes "text_line x DirectionUp q l = Inr q'" and "section_of (ps_state q) = Some DirectionDown"
  shows "section_of (ps_state q') = Some DirectionDown \<and> ps_stmts q' = ps_stmts q"
proof (cases "ps_buf q = [] \<and> (HasPrefix (TrimSpace l) ''--'' \<or> l = [])")
  case True
  with assms show ?thesis by (auto simp: text_line_def)
next
  case False
  with assms(1) obtain q1 l1 d where w: "write_line x q l = Inr (q1, l1)"
    and d: "section_of (ps_state q1) = Some d"
    and q': "q' = (if d \<noteq> DirectionUp then q1\<lparr>ps_buf := []\<rparr> else export_statement q1 l1)"
    by (auto simp: text_line_def split: sum.splits option.splits if_splits)
  with write_line_refines [OF w] assms(2) show ?thesis by simp
qed

lemma other_section_step:
  assumes "scan_step x DirectionUp ps l = Inr ps'" and "section_of (ps_state ps) = Some DirectionDown"
  shows "section_of (ps_state ps') = Some DirectionDown \<and> ps_stmts ps' = ps_stmts ps"
proof -
  have st: "ps_state ps \<noteq> start" using assms(2) by (auto simp: section_of_def)
  show ?thesis
  proof (cases "is_annotation_line l")
    case False
    with assms st show ?thesis by (auto simp: scan_step_def dest: text_line_other_section)
  next
    case True
    with assms(1) st obtain cmd cont ps1 where h: "handle_annotation DirectionUp ps cmd = Inr (cont, ps1)"
      and r: "if cont then ps' = ps1 else text_line x DirectionUp ps1 l = Inr ps'"
      by (auto simp: scan_step_def split: sum.splits if_splits)
    have "section_of (ps_state ps1) = Some DirectionDown"
      using h assms(2)
      by (cases cmd; cases "ps_state ps"; auto simp: handle_annotation_def section_of_def Let_def split: if_splits)
    moreover have "ps_stmts ps1 = ps_stmts ps" by (rule handle_annotation_refines(4) [OF h])
    ultimately show ?thesis using r text_line_other_section [of x ps1 l ps'] by (auto split: if_splits)
  qed
qed

lemma other_section_loop:
  assumes "scan_loop x DirectionUp ls ps = Inr ps'" and "section_of (ps_state ps) = Some DirectionDown"
  shows "ps_stmts ps' = ps_stmts ps"
  using assms
proof (induction ls arbitrary: ps)
  case (Cons l ls)
  then obtain ps1 where "scan_step x DirectionUp ps l = Inr ps1" "scan_loop x DirectionUp ls ps1 = Inr ps'"
    by (auto split: sum.splits)
  with other_section_step [of x ps l ps1] Cons show ?case by auto
qed simp

lemma down_annotation_step:
  assumes "scan_step x dir ps l = Inr ps'" and "is_annotation_line l" and "extractAnnotation l = Inr annotationDown"
  shows "ps_state ps \<in> {gooseUp, gooseStatementEndUp} \<and> TrimSpace (ps_buf ps) = [] \<and>
    ps' = ps\<lparr>ps_state := gooseDown\<rparr>"
  using assms is_annotation_line_nonblank [of l]
  by (auto simp: scan_step_def handle_annotation_def Let_def split: if_splits)

section \<open>Properties of the parser\<close>

text \<open>An instance of the parameters that satisfies both contracts.\<close>

definition ref_ext :: ext where
  "ref_ext = \<lparr>interpolate = Inr,
     multierr_append = (\<lambda>a b. case a of None \<Rightarrow> b | Some e \<Rightarrow> (case b of None \<Rightarrow> a | Some f \<Rightarrow> Some (Multi e f))),
     group_wait = (\<lambda>a b. case a of None \<Rightarrow> b | Some e \<Rightarrow> a)\<rparr>"

lemma ref_ext_laws: "append_laws ref_ext" "wait_laws ref_ext"
  by (auto simp: append_laws_def wait_laws_def ref_ext_def split: option.splits)

text \<open>
  C3: a migration file that consists of statement blocks is read back: \<open>ParseAllFromFS\<close> returns
  exactly the blocks' statements for each direction, trimmed and in order, and reports that a
  transaction is used. (The contracts of \<open>multierr.Append\<close> and of the error group are
  hypotheses.)
\<close>

theorem parse_all_blocks_roundtrip:
  assumes "append_laws x" and "wait_laws x"
    and "fs_Open fsys name = Inr \<lparr>f_reader = (unlines (render ups downs), None), f_close = None\<rparr>"
    and "scannable (render ups downs)"
    and "\<forall>ls\<in>set (ups @ downs). block_body ls"
  shows "ParseAllFromFS x fsys name =
     Inr \<lparr>P_UseTx = True, P_Up = map (\<lambda>ls. TrimSpace (unlines ls)) ups,
          P_Down = map (\<lambda>ls. TrimSpace (unlines ls)) downs\<rparr>"
proof -
  have a: "multierr_append x None None = None" using assms(1) by (simp add: append_laws_def)
  have "group_wait x None None \<in> {None}" using assms(2) unfolding wait_laws_def by (metis (full_types))
  then have w: "group_wait x None None = None" by simp
  have "parse x fsys name DirectionUp = Inr (map (\<lambda>ls. TrimSpace (unlines ls)) ups, True)"
    using render_up [OF assms(5), of x] a assms(3,4) by (auto simp: parse_def parse_scannable)
  moreover have "parse x fsys name DirectionDown = Inr (map (\<lambda>ls. TrimSpace (unlines ls)) downs, True)"
    using render_down [OF assms(5), of x] a assms(3,4) by (auto simp: parse_def parse_scannable)
  ultimately show ?thesis by (simp add: ParseAllFromFS_def err_of_def w)
qed

theorem parse_all_blocks_roundtrip_witness:
  "ParseAllFromFS ref_ext
     [(''1_a.sql'', Inr \<lparr>f_reader = (unlines (render [[''BEGIN;'', ''END;'']] [[''DROP TABLE t;'']]), None),
        f_close = None\<rparr>)] ''1_a.sql'' =
   Inr \<lparr>P_UseTx = True, P_Up = [TrimSpace (unlines [''BEGIN;'', ''END;''])],
        P_Down = [TrimSpace (unlines [''DROP TABLE t;''])]\<rparr>"
proof -
  have s: "scannable (render [[''BEGIN;'', ''END;'']] [[''DROP TABLE t;'']])"
    by (simp add: scannable_def render_def block_def line_defs scanBufSize_def drop_cr_def)
  have b: "\<forall>ls\<in>set ([[''BEGIN;'', ''END;'']] @ [[''DROP TABLE t;'']]). block_body ls"
    by code_simp
  show ?thesis
    using parse_all_blocks_roundtrip [OF ref_ext_laws _ s b] by (simp add: fs_Open_def)
qed

text \<open>
  C20: the parser refines the direction-blind outline of the script: if it succeeds, in either
  direction, the annotations form a well-bracketed Up section with an optional Down section, the
  reported transaction mode is the outline's, and every statement is trimmed.
\<close>

theorem parse_refines_outline:
  assumes "ParseSQLMigration x r dir = Inr (ss, tx)"
  shows "\<exists>ph env. outline_loop (fst (ScanLines scanBufSize (fst r))) (PStart, True, False) = Some (ph, tx, env)
           \<and> ph \<in> {PUp, PDown} \<and> (\<forall>s\<in>set ss. TrimSpace s = s)"
  using assms by (rule parse_outline)

theorem parse_refines_outline_witness:
  "\<exists>ph env. outline_loop (fst (ScanLines scanBufSize (unlines [lineUp, ''SELECT 1;'']))) (PStart, True, False) =
      Some (ph, True, env) \<and> ph \<in> {PUp, PDown} \<and> (\<forall>s\<in>set [''SELECT 1;'']. TrimSpace s = s)"
proof -
  have "ParseSQLMigration ref_ext (unlines [lineUp, ''SELECT 1;''], None) DirectionUp = Inr ([''SELECT 1;''], True)"
    by code_simp
  from parse_refines_outline [OF this] show ?thesis by simp
qed

text \<open>
  The two passes over one file, one per direction, never disagree on the transaction mode,
  whatever the substituted variables are. \<open>ParseAllFromFS\<close> keeps only the first answer, and the
  sanity check in \<open>parseSQLFile\<close> of \<open>migrationstats\<close> cannot fire.
\<close>

theorem parse_directions_agree:
  assumes "ParseSQLMigration x r DirectionUp = Inr (up, txUp)"
    and "ParseSQLMigration y r DirectionDown = Inr (down, txDown)"
  shows "txUp = txDown"
  using parse_outline [OF assms(1)] parse_outline [OF assms(2)] by auto

text \<open>
  The statements of the Up direction are those of the text before the Down annotation: whatever
  follows it, the same script cut off there gives the same statements.
\<close>

theorem up_statements_before_down:
  assumes "scannable (us @ dl # ds)"
    and "is_annotation_line dl" and "extractAnnotation dl = Inr annotationDown"
    and "ParseSQLMigration x (unlines (us @ dl # ds), None) DirectionUp = Inr (ss, tx)"
  shows "\<exists>tx'. ParseSQLMigration x (unlines us, None) DirectionUp = Inr (ss, tx')"
proof -
  have sc: "scannable us" using assms(1) by (simp add: scannable_def)
  from assms(4) obtain ps where l: "scan_loop x DirectionUp (us @ dl # ds) init_parser = Inr ps"
    and f: "finish DirectionUp ps = Inr (ss, tx)"
    unfolding parse_scannable [OF assms(1)] by (auto split: sum.splits)
  from l obtain p1 p2 where s1: "scan_loop x DirectionUp us init_parser = Inr p1"
    and s2: "scan_step x DirectionUp p1 dl = Inr p2" and s3: "scan_loop x DirectionUp ds p2 = Inr ps"
    by (auto simp: scan_loop_append split: sum.splits)
  note st = down_annotation_step [OF s2 assms(2,3)]
  have "ps_stmts ps = ps_stmts p2"
    using other_section_loop [OF s3] st by (simp add: section_of_def)
  with finish_ok(1) [OF f] st have "finish DirectionUp p1 = Inr (ss, ps_useTx p1)"
    by (auto simp: finish_def)
  with s1 show ?thesis by (simp add: parse_scannable [OF sc])
qed



end
