(* ===== verification/Migrations.thy ===== *)
theory Migrations
  imports Sql_Parser
begin

text \<open>
  Migrations and the registry of Go migrations: \<open>migration.go\<close> (the structures, \<open>NewGoMigration\<close>,
  \<open>NumericComponent\<close>), \<open>globals.go\<close> (validation, the global registry) and \<open>register.go\<close>.
  A Go function value is a symbol of the datatype \<open>gofn\<close>; what it does is a parameter of the
  theories that run migrations. Go maps are association lists in the order a \<open>range\<close> over the map
  visits them, so theorems hold for every such order.
\<close>

datatype gofn = Fn string | WithContext gofn | WithoutContext gofn

datatype TransactionMode = ModeUnset | TransactionEnabled | TransactionDisabled | ModeOther int

record GoFunc =
  RunTx :: "gofn option"
  RunDB :: "gofn option"
  Mode :: TransactionMode

record sqlMigration =
  Parsed :: bool
  SqlUseTx :: bool
  SqlUp :: "string list"
  SqlDown :: "string list"

text \<open>
  The pointers \<open>goUp\<close> and \<open>goDown\<close> are nil only in migrations built from a source file, whose Go
  functions no operation reads; the model has a zero \<open>GoFunc\<close> there.
\<close>

record Migration =
  Type :: MigrationType
  Version :: version
  MSourcePath :: path
  UpFnContext :: "gofn option"
  DownFnContext :: "gofn option"
  UpFnNoTxContext :: "gofn option"
  DownFnNoTxContext :: "gofn option"
  Registered :: bool
  UseTx :: bool
  Next :: version
  Previous :: version
  UpFn :: "gofn option"
  DownFn :: "gofn option"
  UpFnNoTx :: "gofn option"
  DownFnNoTx :: "gofn option"
  noVersioning :: bool
  construct :: bool
  goUp :: GoFunc
  goDown :: GoFunc
  sql :: sqlMigration

definition zeroGoFunc :: GoFunc where
  "zeroGoFunc = \<lparr>RunTx = None, RunDB = None, Mode = ModeUnset\<rparr>"

definition zeroSql :: sqlMigration where
  "zeroSql = \<lparr>Parsed = False, SqlUseTx = False, SqlUp = [], SqlDown = []\<rparr>"

definition zeroMigration :: Migration where
  "zeroMigration =
     \<lparr>Type = TypeNone, Version = 0, MSourcePath = [], UpFnContext = None, DownFnContext = None,
      UpFnNoTxContext = None, DownFnNoTxContext = None, Registered = False, UseTx = False,
      Next = 0, Previous = 0, UpFn = None, DownFn = None, UpFnNoTx = None, DownFnNoTx = None,
      noVersioning = False, construct = False, goUp = zeroGoFunc, goDown = zeroGoFunc, sql = zeroSql\<rparr>"

section \<open>Constructing a Go migration\<close>

definition withoutContext :: "gofn option \<Rightarrow> gofn option" where
  "withoutContext fn = (case fn of None \<Rightarrow> None | Some f \<Rightarrow> Some (WithoutContext f))"

definition withContext :: "gofn option \<Rightarrow> gofn option" where
  "withContext fn = (case fn of None \<Rightarrow> None | Some f \<Rightarrow> Some (WithContext f))"

definition updateMode :: "GoFunc \<Rightarrow> GoFunc" where
  "updateMode f =
     (if Mode f = ModeUnset
      then
        (let f1 = (if RunTx f \<noteq> None \<and> RunDB f = None then f\<lparr>Mode := TransactionEnabled\<rparr> else f);
             f2 = (if RunTx f1 = None \<and> RunDB f1 \<noteq> None then f1\<lparr>Mode := TransactionDisabled\<rparr> else f1)
         in if RunDB f2 = None \<and> RunTx f2 = None then f2\<lparr>Mode := TransactionEnabled\<rparr> else f2)
      else f)"

definition set_up_funcs :: "GoFunc \<Rightarrow> Migration \<Rightarrow> Migration" where
  "set_up_funcs up m =
     (let m1 = m\<lparr>goUp := updateMode up\<rparr>;
          m2 = (if RunDB up \<noteq> None
                then m1\<lparr>UpFnNoTxContext := RunDB up, UpFnNoTx := withoutContext (RunDB up)\<rparr> else m1)
      in if RunTx up \<noteq> None
         then m2\<lparr>UseTx := True, UpFnContext := RunTx up, UpFn := withoutContext (RunTx up)\<rparr> else m2)"

definition set_down_funcs :: "GoFunc \<Rightarrow> Migration \<Rightarrow> Migration" where
  "set_down_funcs down m =
     (let m1 = m\<lparr>goDown := updateMode down\<rparr>;
          m2 = (if RunDB down \<noteq> None
                then m1\<lparr>DownFnNoTxContext := RunDB down, DownFnNoTx := withoutContext (RunDB down)\<rparr> else m1)
      in if RunTx down \<noteq> None
         then m2\<lparr>UseTx := True, DownFnContext := RunTx down, DownFn := withoutContext (RunTx down)\<rparr> else m2)"

definition NewGoMigration :: "version \<Rightarrow> GoFunc option \<Rightarrow> GoFunc option \<Rightarrow> Migration" where
  "NewGoMigration version up down =
     (let m = zeroMigration\<lparr>Type := TypeGo, Registered := True, Version := version,
                Next := -1, Previous := -1,
                goUp := zeroGoFunc\<lparr>Mode := TransactionEnabled\<rparr>,
                goDown := zeroGoFunc\<lparr>Mode := TransactionEnabled\<rparr>, construct := True\<rparr>;
          m1 = (case up of None \<Rightarrow> m | Some f \<Rightarrow> set_up_funcs f m)
      in case down of None \<Rightarrow> m1 | Some f \<Rightarrow> set_down_funcs f m1)"

definition ref :: "Migration \<Rightarrow> string" where
  "ref m = ''(type:'' @ type_string (Type m) @ '',version:'' @ FormatInt (Version m) @ '')''"

section \<open>The version in a file name\<close>

definition NumericComponent :: "path \<Rightarrow> err + version" where
  "NumericComponent filename =
     (let base = Base filename
      in if Ext base \<noteq> ''.go'' \<and> Ext base \<noteq> ''.sql''
         then Inl (Msg ''migration file does not have .sql or .go file extension'')
         else
           (case Cut base (CHR ''_'') of
              None \<Rightarrow> Inl (Msg (''no filename separator '' @ sq @ ''_'' @ sq @ '' found''))
            | Some (before, _) \<Rightarrow>
                (case ParseInt before of
                   Inl e \<Rightarrow> Inl (Wrap (''failed to parse version from migration file: '' @ base) (NumErr e))
                 | Inr n \<Rightarrow>
                     (if n < 1 then Inl (Msg ''migration version must be greater than zero'')
                      else Inr n))))"

section \<open>Validation\<close>

definition checkGoFunc :: "GoFunc \<Rightarrow> err option" where
  "checkGoFunc f =
     (if RunTx f \<noteq> None \<and> RunDB f \<noteq> None
      then Some (Msg ''must specify exactly one of RunTx or RunDB'')
      else if Mode f \<noteq> TransactionEnabled \<and> Mode f \<noteq> TransactionDisabled
      then Some (Msg ''invalid mode'')
      else if RunDB f \<noteq> None \<and> Mode f \<noteq> TransactionDisabled
      then Some (Msg ''transaction mode must be disabled or unspecified when RunDB is set'')
      else if RunTx f \<noteq> None \<and> Mode f \<noteq> TransactionEnabled
      then Some (Msg ''transaction mode must be enabled or unspecified when RunTx is set'')
      else None)"

definition checkSource :: "Migration \<Rightarrow> err option" where
  "checkSource m =
     (if MSourcePath m = [] then None
      else if Ext (MSourcePath m) \<noteq> ''.go''
      then Some (Msg (''source must have .go extension: '' @ Quote (MSourcePath m)))
      else
        (case NumericComponent (MSourcePath m) of
           Inl e \<Rightarrow> Some (Wrap ''invalid source'' e)
         | Inr v \<Rightarrow>
             (if v \<noteq> Version m
              then Some (Msg (''version:'' @ FormatInt (Version m) @ '' does not match numeric component in source '' @ Quote (MSourcePath m)))
              else None)))"

definition checkGoMigration :: "Migration \<Rightarrow> err option" where
  "checkGoMigration m =
     (if \<not> construct m then Some (Msg ''must use NewGoMigration to construct migrations'')
      else if \<not> Registered m then Some (Msg ''must be registered'')
      else if Type m \<noteq> TypeGo then Some (Msg (''type must be '' @ Quote ''go''))
      else if Version m < 1 then Some (Msg ''version must be greater than zero'')
      else
        (case checkSource m of
           Some e \<Rightarrow> Some e
         | None \<Rightarrow>
             (case checkGoFunc (goUp m) of
                Some e \<Rightarrow> Some (Wrap ''up function'' e)
              | None \<Rightarrow>
                  (case checkGoFunc (goDown m) of
                     Some e \<Rightarrow> Some (Wrap ''down function'' e)
                   | None \<Rightarrow>
                       (if UpFnContext m \<noteq> None \<and> UpFnNoTxContext m \<noteq> None
                        then Some (Msg ''must specify exactly one of UpFnContext or UpFnNoTxContext'')
                        else if UpFn m \<noteq> None \<and> UpFnNoTx m \<noteq> None
                        then Some (Msg ''must specify exactly one of UpFn or UpFnNoTx'')
                        else if DownFnContext m \<noteq> None \<and> DownFnNoTxContext m \<noteq> None
                        then Some (Msg ''must specify exactly one of DownFnContext or DownFnNoTxContext'')
                        else if DownFn m \<noteq> None \<and> DownFnNoTx m \<noteq> None
                        then Some (Msg ''must specify exactly one of DownFn or DownFnNoTx'')
                        else None)))))"

section \<open>The registry\<close>

type_synonym registry = "(version \<times> Migration) list"

definition ResetGlobalMigrations :: registry where
  "ResetGlobalMigrations = []"

text \<open>Migrations registered before the failing one stay registered.\<close>

fun SetGlobalMigrations :: "Migration list \<Rightarrow> registry \<Rightarrow> err option \<times> registry" where
  "SetGlobalMigrations [] reg = (None, reg)"
| "SetGlobalMigrations (m # ms) reg =
     (if map_of reg (Version m) \<noteq> None
      then (Some (Msg (''go migration with version '' @ FormatInt (Version m) @ '' already registered'')), reg)
      else
        (case checkGoMigration m of
           Some e \<Rightarrow> (Some (Wrap ''invalid go migration'' e), reg)
         | None \<Rightarrow> SetGlobalMigrations ms (reg @ [(Version m, m)])))"

text \<open>\<open>register\<close> ignores the error of \<open>NumericComponent\<close>, whose version is then 0.\<close>

definition register :: "path \<Rightarrow> bool \<Rightarrow> GoFunc \<Rightarrow> GoFunc \<Rightarrow> registry \<Rightarrow> err option \<times> registry" where
  "register filename useTx up down reg =
     (let v = (case NumericComponent filename of Inl _ \<Rightarrow> 0 | Inr n \<Rightarrow> n)
      in case map_of reg v of
           Some existing \<Rightarrow>
             (Some (Msg (''failed to add migration '' @ Quote filename @ '': version '' @ FormatInt v @
                         '' conflicts with '' @ Quote (MSourcePath existing))), reg)
         | None \<Rightarrow>
             (None, reg @ [(v, (NewGoMigration v (Some up) (Some down))
                                 \<lparr>MSourcePath := filename, UseTx := useTx\<rparr>)]))"

text \<open>In the results of the operations below \<open>Inl e\<close> is a panic with the error value \<open>e\<close>.\<close>

definition panic_on :: "err option \<times> registry \<Rightarrow> err + registry" where
  "panic_on r = (case fst r of Some e \<Rightarrow> Inl e | None \<Rightarrow> Inr (snd r))"

definition AddNamedMigrationContext :: "path \<Rightarrow> gofn option \<Rightarrow> gofn option \<Rightarrow> registry \<Rightarrow> err + registry" where
  "AddNamedMigrationContext filename up down reg =
     panic_on (register filename True
       \<lparr>RunTx = up, RunDB = None, Mode = TransactionEnabled\<rparr>
       \<lparr>RunTx = down, RunDB = None, Mode = TransactionEnabled\<rparr> reg)"

definition AddNamedMigrationNoTxContext :: "path \<Rightarrow> gofn option \<Rightarrow> gofn option \<Rightarrow> registry \<Rightarrow> err + registry" where
  "AddNamedMigrationNoTxContext filename up down reg =
     panic_on (register filename False
       \<lparr>RunTx = None, RunDB = up, Mode = TransactionDisabled\<rparr>
       \<lparr>RunTx = None, RunDB = down, Mode = TransactionDisabled\<rparr> reg)"

definition AddNamedMigration :: "path \<Rightarrow> gofn option \<Rightarrow> gofn option \<Rightarrow> registry \<Rightarrow> err + registry" where
  "AddNamedMigration filename up down reg =
     AddNamedMigrationContext filename (withContext up) (withContext down) reg"

definition AddNamedMigrationNoTx :: "path \<Rightarrow> gofn option \<Rightarrow> gofn option \<Rightarrow> registry \<Rightarrow> err + registry" where
  "AddNamedMigrationNoTx filename up down reg =
     AddNamedMigrationNoTxContext filename (withContext up) (withContext down) reg"

text \<open>
  The variants without a name take the caller's file name from \<open>runtime.Caller\<close>, here the argument
  \<open>caller\<close>.
\<close>

definition AddMigrationContext :: "path \<Rightarrow> gofn option \<Rightarrow> gofn option \<Rightarrow> registry \<Rightarrow> err + registry" where
  "AddMigrationContext caller up down reg = AddNamedMigrationContext caller up down reg"

definition AddMigrationNoTxContext :: "path \<Rightarrow> gofn option \<Rightarrow> gofn option \<Rightarrow> registry \<Rightarrow> err + registry" where
  "AddMigrationNoTxContext caller up down reg = AddNamedMigrationNoTxContext caller up down reg"

definition AddMigration :: "path \<Rightarrow> gofn option \<Rightarrow> gofn option \<Rightarrow> registry \<Rightarrow> err + registry" where
  "AddMigration caller up down reg =
     AddNamedMigrationContext caller (withContext up) (withContext down) reg"

definition AddMigrationNoTx :: "path \<Rightarrow> gofn option \<Rightarrow> gofn option \<Rightarrow> registry \<Rightarrow> err + registry" where
  "AddMigrationNoTx caller up down reg =
     AddNamedMigrationNoTxContext caller (withContext up) (withContext down) reg"

definition TransactionMode_String :: "TransactionMode \<Rightarrow> string" where
  "TransactionMode_String m =
     (case m of TransactionEnabled \<Rightarrow> ''transaction_enabled''
      | TransactionDisabled \<Rightarrow> ''transaction_disabled''
      | ModeUnset \<Rightarrow> ''unknown transaction mode (0)''
      | ModeOther n \<Rightarrow> ''unknown transaction mode ('' @ FormatInt n @ '')'')"

section \<open>Lemmas\<close>

lemma FormatInt_chars:
  assumes "c \<in> set (FormatInt n)"
  shows "c = CHR ''-'' \<or> (\<exists>d<10. c = digit_char d)"
  using assms nat_digits_chars by (auto simp: FormatInt_def split: if_splits)

lemma digit_char_other: "d < 10 \<Longrightarrow> digit_char d \<noteq> CHR ''_'' \<and> digit_char d \<noteq> slash \<and> digit_char d \<noteq> CHR ''.''"
proof -
  assume "d < 10"
  then have d: "of_char (digit_char d) = 48 + d" by (simp add: digit_char_def)
  show ?thesis using \<open>d < 10\<close> d by (auto simp: slash_def)
qed

lemma FormatInt_free:
  "CHR ''_'' \<notin> set (FormatInt n)" "slash \<notin> set (FormatInt n)"
  using FormatInt_chars digit_char_other by (fastforce simp: slash_def)+

lemma Base_no_slash: "s \<noteq> [] \<Longrightarrow> slash \<notin> set s \<Longrightarrow> Base (d @ s) = rev (takeWhile ((\<noteq>) slash) (rev d)) @ s"
proof -
  assume s: "s \<noteq> []" "slash \<notin> set s"
  then have d: "dropWhile ((=) slash) (rev s @ rev d) = rev s @ rev d"
    by (cases "rev s") auto
  have t: "takeWhile ((\<noteq>) slash) (rev s @ rev d) = rev s @ takeWhile ((\<noteq>) slash) (rev d)"
    using s(2) by (subst takeWhile_append2) auto
  show ?thesis using s(1) d t by (simp add: Base_def Let_def)
qed

lemma Base_in_dir: "s \<noteq> [] \<Longrightarrow> slash \<notin> set s \<Longrightarrow> d = [] \<or> last d = slash \<Longrightarrow> Base (d @ s) = s"
  using Base_no_slash [of s d] by (cases d rule: rev_cases) auto

lemma ext_rev_dot: "CHR ''.'' \<notin> set s \<Longrightarrow> slash \<notin> set s \<Longrightarrow> ext_rev acc (s @ CHR ''.'' # t) = CHR ''.'' # rev s @ acc"
  by (induction s arbitrary: acc) (auto simp: slash_def)

lemma Ext_append:
  assumes "CHR ''.'' \<notin> set e" and "slash \<notin> set e"
  shows "Ext (s @ CHR ''.'' # e) = CHR ''.'' # e"
  using ext_rev_dot [of "rev e" "[]" "rev s"] assms by (simp add: Ext_def)

lemma Ext_sql_go [simp]: "Ext (s @ ''.sql'') = ''.sql''" "Ext (s @ ''.go'') = ''.go''"
  using Ext_append [of "''sql''" s] Ext_append [of "''go''" s] by (simp_all add: slash_def)

lemma NumericComponent_file:
  assumes "1 \<le> v" and "v \<le> MaxInt64" and "slash \<notin> set name" and "ext \<in> {''.sql'', ''.go''}"
    and "d = [] \<or> last d = slash"
  shows "NumericComponent (d @ FormatInt v @ ''_'' @ name @ ext) = Inr v"
proof -
  let ?b = "FormatInt v @ ''_'' @ name @ ext"
  have b: "Base (d @ ?b) = ?b"
    using assms(3,4,5) FormatInt_free by (intro Base_in_dir) (auto simp: slash_def)
  have e: "Ext ?b = ext"
    using assms(4) Ext_sql_go [of "FormatInt v @ ''_'' @ name"] by auto
  have c: "Cut ?b (CHR ''_'') = Some (FormatInt v, name @ ext)"
    using FormatInt_free(1) Cut_append by simp
  have p: "ParseInt (FormatInt v) = Inr v"
    using assms(1,2) by (intro ParseInt_FormatInt) (simp add: in_int64_def MinInt64_def)
  show ?thesis using assms(1,4) unfolding NumericComponent_def b Let_def e c by (auto simp: p)
qed

lemma NumericComponent_bounds:
  assumes "NumericComponent p = Inr v"
  shows "1 \<le> v \<and> v \<le> MaxInt64 \<and> Ext (Base p) \<in> {''.sql'', ''.go''}"
proof -
  obtain s where "ParseInt s = Inr v"
    using assms by (auto simp: NumericComponent_def Let_def split: if_splits option.splits sum.splits)
  then have "in_int64 v" by (rule ParseInt_in_int64)
  then show ?thesis
    using assms by (auto simp: NumericComponent_def in_int64_def Let_def split: if_splits option.splits sum.splits)
qed


text \<open>What \<open>checkGoMigration\<close> demands of the functions given to \<open>NewGoMigration\<close>.\<close>

definition valid_func :: "GoFunc option \<Rightarrow> bool" where
  "valid_func fn =
     (case fn of None \<Rightarrow> True
      | Some f \<Rightarrow>
          (case (RunTx f, RunDB f) of
             (None, None) \<Rightarrow> Mode f \<in> {ModeUnset, TransactionEnabled, TransactionDisabled}
           | (Some _, None) \<Rightarrow> Mode f \<in> {ModeUnset, TransactionEnabled}
           | (None, Some _) \<Rightarrow> Mode f \<in> {ModeUnset, TransactionDisabled}
           | (Some _, Some _) \<Rightarrow> False))"

lemmas new_go_defs = NewGoMigration_def set_up_funcs_def set_down_funcs_def zeroMigration_def
  zeroGoFunc_def withoutContext_def Let_def

lemma NewGoMigration_fields [simp]:
  "construct (NewGoMigration v up down)" "Registered (NewGoMigration v up down)"
  "Type (NewGoMigration v up down) = TypeGo" "Version (NewGoMigration v up down) = v"
  "MSourcePath (NewGoMigration v up down) = []"
  by (auto simp: new_go_defs split: option.splits)

lemma NewGoMigration_goUp:
  "goUp (NewGoMigration v up down) =
     (case up of None \<Rightarrow> zeroGoFunc\<lparr>Mode := TransactionEnabled\<rparr> | Some f \<Rightarrow> updateMode f)"
  "goDown (NewGoMigration v up down) =
     (case down of None \<Rightarrow> zeroGoFunc\<lparr>Mode := TransactionEnabled\<rparr> | Some f \<Rightarrow> updateMode f)"
  by (auto simp: new_go_defs split: option.splits)

lemma NewGoMigration_legacy_funcs:
  "UpFnContext (NewGoMigration v up down) = Option.bind up RunTx"
  "UpFnNoTxContext (NewGoMigration v up down) = Option.bind up RunDB"
  "DownFnContext (NewGoMigration v up down) = Option.bind down RunTx"
  "DownFnNoTxContext (NewGoMigration v up down) = Option.bind down RunDB"
  "UpFn (NewGoMigration v up down) = withoutContext (Option.bind up RunTx)"
  "UpFnNoTx (NewGoMigration v up down) = withoutContext (Option.bind up RunDB)"
  "DownFn (NewGoMigration v up down) = withoutContext (Option.bind down RunTx)"
  "DownFnNoTx (NewGoMigration v up down) = withoutContext (Option.bind down RunDB)"
  by (auto simp: new_go_defs split: option.splits)

lemma checkGoFunc_updateMode: "checkGoFunc (updateMode f) = None \<longleftrightarrow> valid_func (Some f)"
  by (cases "RunTx f"; cases "RunDB f"; cases "Mode f")
     (simp_all add: checkGoFunc_def updateMode_def valid_func_def)

lemma checkGoFunc_new:
  "checkGoFunc (case fn of None \<Rightarrow> zeroGoFunc\<lparr>Mode := TransactionEnabled\<rparr> | Some f \<Rightarrow> updateMode f) = None \<longleftrightarrow>
     valid_func fn"
  by (cases fn) (simp_all add: checkGoFunc_updateMode, simp add: checkGoFunc_def zeroGoFunc_def valid_func_def)

lemma valid_func_one: "valid_func fn \<Longrightarrow> Option.bind fn RunTx = None \<or> Option.bind fn RunDB = None"
  by (cases fn) (auto simp: valid_func_def split: option.splits)

section \<open>Properties\<close>

text \<open>
  A file named after a version, an underscore, any name and one of the two extensions has that
  version, in whatever directory the file is.
\<close>

theorem NumericComponent_roundtrip:
  assumes "1 \<le> v" and "v \<le> MaxInt64" and "slash \<notin> set name" and "ext \<in> {''.sql'', ''.go''}"
    and "d = [] \<or> last d = slash"
  shows "NumericComponent (d @ FormatInt v @ ''_'' @ name @ ext) = Inr v"
  using assms by (rule NumericComponent_file)

text \<open>
  The registration check accepts a migration made by \<open>NewGoMigration\<close> exactly when the version
  is positive and each function has at most one body, whose transaction mode is unset or fits the
  body; the later tests on the exported fields can then no longer fail.
\<close>

theorem checkGoMigration_NewGoMigration:
  "checkGoMigration (NewGoMigration v up down) = None \<longleftrightarrow> 1 \<le> v \<and> valid_func up \<and> valid_func down"
proof -
  have "checkGoMigration (NewGoMigration v up down) = None \<longleftrightarrow>
      1 \<le> v \<and> valid_func up \<and> valid_func down \<and>
      \<not> (UpFnContext (NewGoMigration v up down) \<noteq> None \<and> UpFnNoTxContext (NewGoMigration v up down) \<noteq> None) \<and>
      \<not> (UpFn (NewGoMigration v up down) \<noteq> None \<and> UpFnNoTx (NewGoMigration v up down) \<noteq> None) \<and>
      \<not> (DownFnContext (NewGoMigration v up down) \<noteq> None \<and> DownFnNoTxContext (NewGoMigration v up down) \<noteq> None) \<and>
      \<not> (DownFn (NewGoMigration v up down) \<noteq> None \<and> DownFnNoTx (NewGoMigration v up down) \<noteq> None)"
    unfolding checkGoFunc_new [symmetric] NewGoMigration_goUp [of v up down, symmetric]
    by (auto simp: checkGoMigration_def checkSource_def split: option.splits)
  then show ?thesis
    using valid_func_one [of up] valid_func_one [of down]
    by (auto simp: NewGoMigration_legacy_funcs withoutContext_def split: option.splits)
qed


text \<open>
  The registries a program can build: it resets, sets migrations of its own and registers functions
  under file names, in any order. A failing \<open>SetGlobalMigrations\<close> keeps what it registered before.
\<close>

inductive registry_of :: "registry \<Rightarrow> bool" where
  reset: "registry_of ResetGlobalMigrations"
| set: "registry_of reg \<Longrightarrow> registry_of (snd (SetGlobalMigrations ms reg))"
| add: "registry_of reg \<Longrightarrow> registry_of (snd (register filename useTx up down reg))"

definition registry_inv :: "registry \<Rightarrow> bool" where
  "registry_inv reg \<longleftrightarrow> distinct (map fst reg) \<and>
     (\<forall>(v, m)\<in>set reg. Version m = v \<and> 0 \<le> v \<and> Type m = TypeGo \<and> Registered m \<and> construct m)"

lemma checkGoMigration_ok:
  "checkGoMigration m = None \<Longrightarrow> construct m \<and> Registered m \<and> Type m = TypeGo \<and> 1 \<le> Version m"
  by (auto simp: checkGoMigration_def split: if_splits)

lemma registry_inv_snoc:
  assumes "registry_inv reg" and "map_of reg (Version m) = None"
    and "construct m \<and> Registered m \<and> Type m = TypeGo \<and> 0 \<le> Version m"
  shows "registry_inv (reg @ [(Version m, m)])"
  using assms by (auto simp: registry_inv_def map_of_eq_None_iff)

lemma SetGlobalMigrations_inv: "registry_inv reg \<Longrightarrow> registry_inv (snd (SetGlobalMigrations ms reg))"
proof (induction ms reg rule: SetGlobalMigrations.induct)
  case (2 m ms reg)
  show ?case
  proof (cases "map_of reg (Version m) = None \<and> checkGoMigration m = None")
    case True
    then have "registry_inv (reg @ [(Version m, m)])"
      using 2(2) checkGoMigration_ok [of m] by (intro registry_inv_snoc) auto
    with 2(1) True show ?thesis by simp
  next
    case False
    with 2(2) show ?thesis by (auto split: option.splits)
  qed
qed simp

lemma register_inv:
  assumes "registry_inv reg"
  shows "registry_inv (snd (register filename useTx up down reg))"
proof -
  define v where "v = (case NumericComponent filename of Inl _ \<Rightarrow> 0 | Inr n \<Rightarrow> n)"
  define m where "m = (NewGoMigration v (Some up) (Some down))\<lparr>MSourcePath := filename, UseTx := useTx\<rparr>"
  have v: "0 \<le> v"
    using NumericComponent_bounds [of filename] by (auto simp: v_def split: sum.splits)
  have m: "construct m \<and> Registered m \<and> Type m = TypeGo \<and> Version m = v"
    by (simp add: m_def)
  have "register filename useTx up down reg =
      (case map_of reg v of Some existing \<Rightarrow> (fst (register filename useTx up down reg), reg)
       | None \<Rightarrow> (None, reg @ [(v, m)]))"
    unfolding register_def Let_def v_def [symmetric] m_def [symmetric] by (simp split: option.split)
  then show ?thesis
    using registry_inv_snoc [of reg m] assms m v by (cases "map_of reg v") (auto simp: prod_eq_iff)
qed

lemma registry_of_inv: "registry_of reg \<Longrightarrow> registry_inv reg"
  by (induction rule: registry_of.induct)
     (auto simp: SetGlobalMigrations_inv register_inv, simp add: registry_inv_def ResetGlobalMigrations_def)

text \<open>
  However the registry was built, it holds at most one migration per version, each under its
  own version, and all are marked as registered Go migrations. The version can be 0: see the next
  property.
\<close>

theorem registry_invariant: "registry_of reg \<Longrightarrow> registry_inv reg"
  by (rule registry_of_inv)

text \<open>
  Registration ignores the error of a file name without a version. The migration is then
  registered, without any error, under version 0, which the check of \<open>SetGlobalMigrations\<close> refuses
  and which the version table reserves for its first row.
\<close>

theorem register_bad_name_version_0:
  assumes "NumericComponent filename = Inl e" and "map_of reg 0 = None"
  shows "\<exists>m. register filename useTx up down reg = (None, reg @ [(0, m)]) \<and> Version m = 0 \<and>
     checkGoMigration m \<noteq> None"
  using assms by (auto simp: register_def checkGoMigration_def)

end
