(* ===== verification/Database.thy ===== *)
theory Database
  imports Dialects Migrations "HOL-Library.Multiset"
begin

text \<open>
  The database as goose sees it through \<open>database/sql\<close>, the default store of \<open>database/dialects.go\<close>,
  the controller of \<open>internal/controller\<close> and the contract of the interface \<open>Store\<close>.

  The server is a parameter: an \<open>engine\<close> over an abstract state \<open>'d\<close> says what a statement, a query
  and a user's Go function do. Around it the model has what \<open>database/sql\<close> adds: the durable state,
  the state inside the one transaction goose has open at a time, the connections taken from the
  pool, and the faults of the driver. Every call consumes the next fault: \<open>Fails\<close> reports an error
  for a call that had no effect, \<open>Lost\<close> an error for a call that did take effect on the server; when
  the list is used up all calls are healthy. Errors of the driver are texts, so they are never one
  of the sentinel errors that goose tests for.
\<close>

section \<open>The parameter: a database server\<close>

datatype arg = IntArg int | BoolArg bool

datatype cell = IntCell int | BoolCell bool | TimeCell nat | NullCell

datatype go_outcome = Returns "err option" | Panics string

text \<open>
  A query gives rows, possibly cut short by an error of the iteration. The functions of a Go
  migration run against the database (\<open>RunDB\<close>) or in a transaction (\<open>RunTx\<close>).
\<close>

record 'd engine =
  e_exec :: "string \<Rightarrow> arg list \<Rightarrow> 'd \<Rightarrow> string option \<times> 'd"
  e_query :: "string \<Rightarrow> arg list \<Rightarrow> 'd \<Rightarrow> string + (cell list list \<times> string option)"
  e_go :: "gofn \<Rightarrow> 'd \<Rightarrow> go_outcome \<times> 'd"

section \<open>The package database/sql\<close>

datatype fault = Healthy | Fails string | Lost string

record 'd world =
  committed :: 'd
  txn :: "'d option"
  faults :: "fault list"
  conns :: nat

datatype handle = HDB | HConn | HTx

definition next_fault :: "'d world \<Rightarrow> fault \<times> 'd world" where
  "next_fault w = (case faults w of [] \<Rightarrow> (Healthy, w) | f # fs \<Rightarrow> (f, w\<lparr>faults := fs\<rparr>))"

definition cur :: "handle \<Rightarrow> 'd world \<Rightarrow> 'd" where
  "cur h w = (case h of HTx \<Rightarrow> (case txn w of None \<Rightarrow> committed w | Some d \<Rightarrow> d) | _ \<Rightarrow> committed w)"

definition put :: "handle \<Rightarrow> 'd \<Rightarrow> 'd world \<Rightarrow> 'd world" where
  "put h d w = (case h of HTx \<Rightarrow> w\<lparr>txn := Some d\<rparr> | _ \<Rightarrow> w\<lparr>committed := d\<rparr>)"

definition usable :: "handle \<Rightarrow> 'd world \<Rightarrow> bool" where
  "usable h w \<longleftrightarrow> (h = HTx \<longrightarrow> txn w \<noteq> None)"

definition call :: "handle \<Rightarrow> ('d \<Rightarrow> (err + 'a) \<times> 'd) \<Rightarrow> 'd world \<Rightarrow> (err + 'a) \<times> 'd world" where
  "call h f w =
     (if \<not> usable h w then (Inl (Sent ErrTxDone), w)
      else
        (case next_fault w of
           (Fails e, w1) \<Rightarrow> (Inl (Msg e), w1)
         | (Lost e, w1) \<Rightarrow> (Inl (Msg e), put h (snd (f (cur h w1))) w1)
         | (Healthy, w1) \<Rightarrow> (case f (cur h w1) of (r, d) \<Rightarrow> (r, put h d w1))))"

definition ExecContext :: "'d engine \<Rightarrow> handle \<Rightarrow> string \<Rightarrow> arg list \<Rightarrow> 'd world \<Rightarrow> err option \<times> 'd world" where
  "ExecContext eng h q args w =
     (case call h (\<lambda>d. case e_exec eng q args d of (None, d') \<Rightarrow> (Inr (), d') | (Some e, d') \<Rightarrow> (Inl (Msg e), d')) w of
        (Inl e, w') \<Rightarrow> (Some e, w')
      | (Inr _, w') \<Rightarrow> (None, w'))"

definition QueryContext ::
    "'d engine \<Rightarrow> handle \<Rightarrow> string \<Rightarrow> arg list \<Rightarrow> 'd world \<Rightarrow> (err + (cell list list \<times> string option)) \<times> 'd world" where
  "QueryContext eng h q args w =
     call h (\<lambda>d. (case e_query eng q args d of Inl e \<Rightarrow> Inl (Msg e) | Inr rows \<Rightarrow> Inr rows, d)) w"

text \<open>\<open>QueryRowContext(...).Scan\<close> up to the conversion of the columns: the first row.\<close>

definition QueryRow :: "'d engine \<Rightarrow> handle \<Rightarrow> string \<Rightarrow> arg list \<Rightarrow> 'd world \<Rightarrow> (err + cell list) \<times> 'd world" where
  "QueryRow eng h q args w =
     (case QueryContext eng h q args w of
        (Inl e, w') \<Rightarrow> (Inl e, w')
      | (Inr (rows, it), w') \<Rightarrow>
          (case rows of
             r # _ \<Rightarrow> (Inr r, w')
           | [] \<Rightarrow> (case it of Some e \<Rightarrow> (Inl (Msg e), w') | None \<Rightarrow> (Inl (Sent ErrNoRows), w'))))"

definition scan_error :: err where
  "scan_error = Msg ''sql: Scan error''"

text \<open>Conversion of a column to \<open>int64\<close> and to \<open>bool\<close> (integers 0 and 1 convert to a truth value).\<close>

definition scan_int :: "cell \<Rightarrow> err + int" where
  "scan_int c = (case c of IntCell n \<Rightarrow> Inr n | _ \<Rightarrow> Inl scan_error)"

definition scan_bool :: "cell \<Rightarrow> err + bool" where
  "scan_bool c =
     (case c of BoolCell b \<Rightarrow> Inr b
      | IntCell n \<Rightarrow> (if n = 1 then Inr True else if n = 0 then Inr False else Inl scan_error)
      | _ \<Rightarrow> Inl scan_error)"

definition scan_time :: "cell \<Rightarrow> err + nat" where
  "scan_time c = (case c of TimeCell t \<Rightarrow> Inr t | _ \<Rightarrow> Inl scan_error)"

section \<open>The interface Store\<close>

record GetMigrationResult =
  Timestamp :: nat
  IsApplied :: bool

record ListMigrationsResult =
  LVersion :: version
  LIsApplied :: bool

text \<open>\<open>TableExists\<close> is the optional method of \<open>StoreExtender\<close>.\<close>

record 'd store_ops =
  Tablename :: string
  CreateVersionTable :: "handle \<Rightarrow> 'd world \<Rightarrow> err option \<times> 'd world"
  Insert :: "handle \<Rightarrow> version \<Rightarrow> 'd world \<Rightarrow> err option \<times> 'd world"
  Delete :: "handle \<Rightarrow> version \<Rightarrow> 'd world \<Rightarrow> err option \<times> 'd world"
  GetMigration :: "handle \<Rightarrow> version \<Rightarrow> 'd world \<Rightarrow> (err + GetMigrationResult) \<times> 'd world"
  GetLatestVersion :: "handle \<Rightarrow> 'd world \<Rightarrow> (err + version) \<times> 'd world"
  ListMigrations :: "handle \<Rightarrow> 'd world \<Rightarrow> (err + ListMigrationsResult list) \<times> 'd world"
  TableExists :: "(handle \<Rightarrow> 'd world \<Rightarrow> (err + bool) \<times> 'd world) option"

definition controller_TableExists ::
    "'d store_ops \<Rightarrow> handle \<Rightarrow> 'd world \<Rightarrow> (err + bool) \<times> 'd world" where
  "controller_TableExists st h w =
     (case TableExists st of
        Some t \<Rightarrow> t h w
      | None \<Rightarrow> (Inl (Sent ErrUnsupported), w))"

section \<open>The default store\<close>

definition wrap_err :: "string \<Rightarrow> err option \<times> 'w \<Rightarrow> err option \<times> 'w" where
  "wrap_err msg r = (case r of (None, w) \<Rightarrow> (None, w) | (Some e, w) \<Rightarrow> (Some (Wrap msg e), w))"

definition store_CreateVersionTable ::
    "'d engine \<Rightarrow> string \<Rightarrow> querier \<Rightarrow> handle \<Rightarrow> 'd world \<Rightarrow> err option \<times> 'd world" where
  "store_CreateVersionTable eng tableName q h w =
     wrap_err (''failed to create version table '' @ Quote tableName) (ExecContext eng h (Q_CreateTable q tableName) [] w)"

definition store_Insert ::
    "'d engine \<Rightarrow> string \<Rightarrow> querier \<Rightarrow> handle \<Rightarrow> version \<Rightarrow> 'd world \<Rightarrow> err option \<times> 'd world" where
  "store_Insert eng tableName q h version w =
     wrap_err (''failed to insert version '' @ FormatInt version)
       (ExecContext eng h (Q_InsertVersion q tableName) [IntArg version, BoolArg True] w)"

definition store_Delete ::
    "'d engine \<Rightarrow> string \<Rightarrow> querier \<Rightarrow> handle \<Rightarrow> version \<Rightarrow> 'd world \<Rightarrow> err option \<times> 'd world" where
  "store_Delete eng tableName q h version w =
     wrap_err (''failed to delete version '' @ FormatInt version)
       (ExecContext eng h (Q_DeleteVersion q tableName) [IntArg version] w)"

definition scan_migration :: "cell list \<Rightarrow> err + GetMigrationResult" where
  "scan_migration row =
     (case row of
        [t, a] \<Rightarrow>
          (case scan_time t of
             Inl e \<Rightarrow> Inl e
           | Inr ts \<Rightarrow> (case scan_bool a of Inl e \<Rightarrow> Inl e | Inr b \<Rightarrow> Inr \<lparr>Timestamp = ts, IsApplied = b\<rparr>))
      | _ \<Rightarrow> Inl scan_error)"

definition store_GetMigration ::
    "'d engine \<Rightarrow> string \<Rightarrow> querier \<Rightarrow> handle \<Rightarrow> version \<Rightarrow> 'd world \<Rightarrow> (err + GetMigrationResult) \<times> 'd world" where
  "store_GetMigration eng tableName q h version w =
     (case QueryRow eng h (Q_GetMigrationByVersion q tableName) [IntArg version] w of
        (r, w') \<Rightarrow>
          (case (case r of Inl e \<Rightarrow> Inl e | Inr row \<Rightarrow> scan_migration row) of
             Inr result \<Rightarrow> (Inr result, w')
           | Inl e \<Rightarrow>
               (if errors_Is e ErrNoRows
                then (Inl (Wrap (FormatInt version) (Sent DBErrVersionNotFound)), w')
                else (Inl (Wrap (''failed to get migration '' @ FormatInt version) e), w'))))"

definition store_GetLatestVersion ::
    "'d engine \<Rightarrow> string \<Rightarrow> querier \<Rightarrow> handle \<Rightarrow> 'd world \<Rightarrow> (err + version) \<times> 'd world" where
  "store_GetLatestVersion eng tableName q h w =
     (case QueryRow eng h (Q_GetLatestVersion q tableName) [] w of
        (Inl e, w') \<Rightarrow> (Inl (Wrap ''failed to get latest version'' e), w')
      | (Inr row, w') \<Rightarrow>
          (case row of
             [NullCell] \<Rightarrow> (Inl (Wrap ''latest'' (Sent DBErrVersionNotFound)), w')
           | [c] \<Rightarrow>
               (case scan_int c of
                  Inl e \<Rightarrow> (Inl (Wrap ''failed to get latest version'' e), w')
                | Inr n \<Rightarrow> (Inr n, w'))
           | _ \<Rightarrow> (Inl (Wrap ''failed to get latest version'' scan_error), w')))"

fun scan_list :: "cell list list \<Rightarrow> err + ListMigrationsResult list" where
  "scan_list [] = Inr []"
| "scan_list (row # rows) =
     (case row of
        [v, a] \<Rightarrow>
          (case scan_int v of
             Inl e \<Rightarrow> Inl (Wrap ''failed to scan list migrations result'' e)
           | Inr n \<Rightarrow>
               (case scan_bool a of
                  Inl e \<Rightarrow> Inl (Wrap ''failed to scan list migrations result'' e)
                | Inr b \<Rightarrow>
                    (case scan_list rows of
                       Inl e \<Rightarrow> Inl e
                     | Inr ms \<Rightarrow> Inr (\<lparr>LVersion = n, LIsApplied = b\<rparr> # ms))))
      | _ \<Rightarrow> Inl (Wrap ''failed to scan list migrations result'' scan_error))"

definition store_ListMigrations ::
    "'d engine \<Rightarrow> string \<Rightarrow> querier \<Rightarrow> handle \<Rightarrow> 'd world \<Rightarrow> (err + ListMigrationsResult list) \<times> 'd world" where
  "store_ListMigrations eng tableName q h w =
     (case QueryContext eng h (Q_ListMigrations q tableName) [] w of
        (Inl e, w') \<Rightarrow> (Inl (Wrap ''failed to list migrations'' e), w')
      | (Inr (rows, it), w') \<Rightarrow>
          (case scan_list rows of
             Inl e \<Rightarrow> (Inl e, w')
           | Inr ms \<Rightarrow> (case it of Some e \<Rightarrow> (Inl (Msg e), w') | None \<Rightarrow> (Inr ms, w'))))"

definition store_TableExists ::
    "'d engine \<Rightarrow> string \<Rightarrow> querier \<Rightarrow> handle \<Rightarrow> 'd world \<Rightarrow> (err + bool) \<times> 'd world" where
  "store_TableExists eng tableName q h w =
     (if queryController_TableExists q tableName = [] then (Inl (Sent ErrUnsupported), w)
      else
        (case QueryRow eng h (queryController_TableExists q tableName) [] w of
           (Inl e, w') \<Rightarrow> (Inl (Wrap ''failed to check if table exists'' e), w')
         | (Inr row, w') \<Rightarrow>
             (case (case row of [c] \<Rightarrow> scan_bool c | _ \<Rightarrow> Inl scan_error) of
                Inl e \<Rightarrow> (Inl (Wrap ''failed to check if table exists'' e), w')
              | Inr b \<Rightarrow> (Inr b, w'))))"

definition default_store :: "'d engine \<Rightarrow> string \<Rightarrow> querier \<Rightarrow> 'd store_ops" where
  "default_store eng tableName q =
     \<lparr>Tablename = tableName,
      CreateVersionTable = store_CreateVersionTable eng tableName q,
      Insert = store_Insert eng tableName q,
      Delete = store_Delete eng tableName q,
      GetMigration = store_GetMigration eng tableName q,
      GetLatestVersion = store_GetLatestVersion eng tableName q,
      ListMigrations = store_ListMigrations eng tableName q,
      TableExists = Some (store_TableExists eng tableName q)\<rparr>"

end
