(* ===== verification/Version_Store.thy ===== *)
theory Version_Store
  imports Database
begin

text \<open>
  What goose relies on of a version store, as a locale over the operations of the interface \<open>Store\<close>
  and an abstraction \<open>view\<close> of the database state: the versions in the version table in the order
  \<open>ListMigrations\<close> gives them, or nothing when the table does not exist. A second locale adds that
  the list is in the order of insertion, newest first.

  The default store meets the contract whenever the server interprets the dialect's statements as
  intended (locale \<open>sql_engine\<close>, the documented meaning of the statements), and a small SQL engine
  that dispatches on the statement texts shows that this can hold for every built-in dialect.
\<close>

section \<open>Frames\<close>

text \<open>A call through a handle changes only the state behind the handle and the faults.\<close>

definition frame :: "handle \<Rightarrow> 'd world \<Rightarrow> 'd world \<Rightarrow> bool" where
  "frame h w w' \<longleftrightarrow> conns w' = conns w \<and> (faults w = [] \<longrightarrow> faults w' = []) \<and>
     (if h = HTx then committed w' = committed w \<and> (txn w' = None \<longleftrightarrow> txn w = None) else txn w' = txn w)"

lemma frame_refl [simp]: "frame h w w"
  by (simp add: frame_def)

lemma frame_trans: "frame h w1 w2 \<Longrightarrow> frame h w2 w3 \<Longrightarrow> frame h w1 w3"
  by (auto simp: frame_def split: if_splits)

lemma frame_usable: "frame h w w' \<Longrightarrow> usable h w' = usable h w"
  by (auto simp: frame_def usable_def)

lemma cur_put [simp]: "usable h w \<Longrightarrow> cur h (put h d w) = d"
  by (cases h) (auto simp: cur_def put_def)

lemma put_frame: "usable h w \<Longrightarrow> frame h w (put h d w)"
  by (cases h) (auto simp: frame_def put_def usable_def)

lemma faults_put [simp]: "faults (put h d w) = faults w"
  by (cases h) (auto simp: put_def)

lemma next_fault_cases:
  "next_fault w = (f, w1) \<Longrightarrow> frame h w w1 \<and> cur h w1 = cur h w \<and> usable h w1 = usable h w \<and>
     (faults w = [] \<longrightarrow> f = Healthy \<and> w1 = w)"
  by (auto simp: next_fault_def frame_def cur_def usable_def split: list.splits handle.splits option.splits)

lemma call_cases:
  assumes "call h f w = (r, w')"
  obtains (unusable) "\<not> usable h w" "w' = w" "r = Inl (Sent ErrTxDone)"
  | (failed) s where "frame h w w'" "cur h w' = cur h w" "r = Inl (Msg s)"
  | (took) w1 where "frame h w w1" "usable h w1" "w' = put h (snd (f (cur h w))) w1"
      "(\<exists>s. r = Inl (Msg s)) \<or> r = fst (f (cur h w))"
proof (cases "usable h w")
  case False
  with assms show ?thesis by (auto simp: call_def intro: unusable)
next
  case True
  obtain x w1 where n: "next_fault w = (x, w1)" by fastforce
  note w1 = next_fault_cases [OF n, of h]
  show ?thesis
  proof (cases x)
    case Healthy
    then show ?thesis using assms True n w1 by (intro took [of w1]) (auto simp: call_def split: prod.splits)
  next
    case (Fails e)
    then show ?thesis using assms True n w1 by (intro failed [of e]) (auto simp: call_def)
  next
    case (Lost e)
    then show ?thesis using assms True n w1 by (intro took [of w1]) (auto simp: call_def)
  qed
qed

lemma call_frame: "call h f w = (r, w') \<Longrightarrow> frame h w w'"
  by (erule call_cases) (auto intro: frame_trans put_frame)

lemma call_result:
  assumes "call h f w = (Inr x, w')"
  shows "\<exists>d. f (cur h w) = (Inr x, d) \<and> cur h w' = d"
  using assms next_fault_cases [of w _ _ h]
  by (auto simp: call_def split: if_splits fault.splits prod.splits)

lemma call_state: "call h f w = (r, w') \<Longrightarrow> cur h w' \<in> {cur h w, snd (f (cur h w))}"
  by (erule call_cases) auto

lemma call_healthy:
  assumes "usable h w" and "faults w = []"
  shows "call h f w = (fst (f (cur h w)), put h (snd (f (cur h w))) w)"
  using assms by (simp add: call_def next_fault_def case_prod_beta)

lemma put_cur [simp]: "usable h w \<Longrightarrow> put h (cur h w) w = w"
  by (cases h) (auto simp: put_def cur_def usable_def)

lemma ExecContext_frame: "ExecContext eng h q args w = (r, w') \<Longrightarrow> frame h w w'"
  by (auto simp: ExecContext_def split: prod.splits sum.splits dest: call_frame)

lemma ExecContext_ok:
  assumes "ExecContext eng h q args w = (None, w')"
  shows "e_exec eng q args (cur h w) = (None, cur h w')"
  using assms by (force simp: ExecContext_def split: prod.splits sum.splits option.splits dest: call_result)

lemma ExecContext_state:
  "ExecContext eng h q args w = (r, w') \<Longrightarrow> cur h w' \<in> {cur h w, snd (e_exec eng q args (cur h w))}"
  unfolding ExecContext_def
  by (cases "e_exec eng q args (cur h w)") (auto split: prod.splits sum.splits option.splits dest!: call_state)

lemma ExecContext_healthy:
  assumes "usable h w" and "faults w = []" and "e_exec eng q args (cur h w) = (None, d)"
  shows "ExecContext eng h q args w = (None, put h d w)"
  using assms by (simp add: ExecContext_def call_healthy)

lemma QueryContext_frame: "QueryContext eng h q args w = (r, w') \<Longrightarrow> frame h w w' \<and> cur h w' = cur h w"
  unfolding QueryContext_def by (frule call_state, drule call_frame) simp

lemma QueryContext_ok: "QueryContext eng h q args w = (Inr x, w') \<Longrightarrow> e_query eng q args (cur h w) = Inr x"
  by (auto simp: QueryContext_def split: sum.splits dest!: call_result)

lemma QueryContext_healthy:
  assumes "usable h w" and "faults w = []"
  shows "QueryContext eng h q args w =
     (case e_query eng q args (cur h w) of Inl e \<Rightarrow> Inl (Msg e) | Inr x \<Rightarrow> Inr x, w)"
  using assms by (simp add: QueryContext_def call_healthy)

lemma QueryRow_frame: "QueryRow eng h q args w = (r, w') \<Longrightarrow> frame h w w' \<and> cur h w' = cur h w"
  by (auto simp: QueryRow_def split: prod.splits sum.splits list.splits option.splits dest: QueryContext_frame)

lemma QueryRow_ok:
  "QueryRow eng h q args w = (Inr row, w') \<Longrightarrow> \<exists>rows it. e_query eng q args (cur h w) = Inr (row # rows, it)"
  by (auto simp: QueryRow_def split: prod.splits sum.splits list.splits option.splits dest!: QueryContext_ok)

lemma QueryContext_error: "QueryContext eng h q args w = (Inl e, w') \<Longrightarrow> e = Sent ErrTxDone \<or> (\<exists>s. e = Msg s)"
  unfolding QueryContext_def by (erule call_cases) (auto split: sum.splits)

lemma QueryRow_no_rows:
  assumes "QueryRow eng h q args w = (Inl e, w')" and "errors_Is e ErrNoRows"
  shows "e_query eng q args (cur h w) = Inr ([], None)"
proof (cases "QueryContext eng h q args w")
  case (Pair r w1)
  show ?thesis
  proof (cases r)
    case (Inl e1)
    with Pair assms QueryContext_error [of eng h q args w e1 w1] show ?thesis by (auto simp: QueryRow_def)
  next
    case (Inr x)
    with Pair have "e_query eng q args (cur h w) = Inr x" by (simp add: QueryContext_ok)
    with Pair Inr assms show ?thesis by (auto simp: QueryRow_def split: prod.splits list.splits option.splits)
  qed
qed

lemma QueryRow_not_found: "QueryRow eng h q args w = (Inl e, w') \<Longrightarrow> \<not> errors_Is e DBErrVersionNotFound"
  by (auto simp: QueryRow_def split: prod.splits sum.splits list.splits option.splits dest!: QueryContext_error)

lemma QueryRow_healthy:
  assumes "usable h w" and "faults w = []" and "e_query eng q args (cur h w) = Inr (rows, None)"
  shows "QueryRow eng h q args w = (case rows of [] \<Rightarrow> Inl (Sent ErrNoRows) | r # _ \<Rightarrow> Inr r, w)"
  using assms by (simp add: QueryRow_def QueryContext_healthy split: list.splits)

section \<open>The contract\<close>

locale version_store =
  fixes st :: "'d store_ops" and view :: "'d \<Rightarrow> version list option"
    and added :: "version \<Rightarrow> version list \<Rightarrow> version list \<Rightarrow> bool"
  assumes added_rows: "added v vs vs' \<Longrightarrow> mset vs' = add_mset v (mset vs)"
    and create_frame: "CreateVersionTable st h w = (r, w') \<Longrightarrow> frame h w w'"
    and create_ok: "CreateVersionTable st h w = (None, w') \<Longrightarrow>
      view (cur h w') = Some (case view (cur h w) of None \<Rightarrow> [] | Some vs \<Rightarrow> vs)"
    and create_healthy: "usable h w \<Longrightarrow> faults w = [] \<Longrightarrow> view (cur h w) = None \<Longrightarrow>
      fst (CreateVersionTable st h w) = None"
    and insert_frame: "Insert st h v w = (r, w') \<Longrightarrow> frame h w w'"
    and insert_ok: "Insert st h v w = (None, w') \<Longrightarrow> view (cur h w) = Some vs \<Longrightarrow>
      \<exists>vs'. view (cur h w') = Some vs' \<and> added v vs vs'"
    and insert_healthy: "usable h w \<Longrightarrow> faults w = [] \<Longrightarrow> view (cur h w) = Some vs \<Longrightarrow> v \<notin> set vs \<Longrightarrow>
      fst (Insert st h v w) = None"
    and delete_frame: "Delete st h v w = (r, w') \<Longrightarrow> frame h w w'"
    and delete_ok: "Delete st h v w = (None, w') \<Longrightarrow> view (cur h w) = Some vs \<Longrightarrow>
      view (cur h w') = Some (filter (\<lambda>x. x \<noteq> v) vs)"
    and delete_healthy: "usable h w \<Longrightarrow> faults w = [] \<Longrightarrow> view (cur h w) = Some vs \<Longrightarrow>
      fst (Delete st h v w) = None"
    and get_frame: "GetMigration st h v w = (g, w') \<Longrightarrow> frame h w w' \<and> cur h w' = cur h w"
    and get_found: "GetMigration st h v w = (Inr x, w') \<Longrightarrow> \<exists>vs. view (cur h w) = Some vs \<and> v \<in> set vs"
    and get_missing: "GetMigration st h v w = (Inl e, w') \<Longrightarrow> errors_Is e DBErrVersionNotFound \<Longrightarrow>
      view (cur h w) = Some vs \<Longrightarrow> v \<notin> set vs"
    and get_healthy: "usable h w \<Longrightarrow> faults w = [] \<Longrightarrow> view (cur h w) = Some vs \<Longrightarrow>
      (if v \<in> set vs then \<exists>x. fst (GetMigration st h v w) = Inr x
       else \<exists>e. fst (GetMigration st h v w) = Inl e \<and> errors_Is e DBErrVersionNotFound)"
    and latest_frame: "GetLatestVersion st h w = (l, w') \<Longrightarrow> frame h w w' \<and> cur h w' = cur h w"
    and latest_ok: "GetLatestVersion st h w = (Inr m, w') \<Longrightarrow> view (cur h w) = Some vs \<Longrightarrow>
      vs \<noteq> [] \<and> m = Max (set vs)"
    and latest_healthy: "usable h w \<Longrightarrow> faults w = [] \<Longrightarrow> view (cur h w) = Some vs \<Longrightarrow>
      (if vs = [] then \<exists>e. fst (GetLatestVersion st h w) = Inl e \<and> errors_Is e DBErrVersionNotFound
       else fst (GetLatestVersion st h w) = Inr (Max (set vs)))"
    and list_frame: "ListMigrations st h w = (ms, w') \<Longrightarrow> frame h w w' \<and> cur h w' = cur h w"
    and list_ok: "ListMigrations st h w = (Inr rows, w') \<Longrightarrow> view (cur h w) = Some (map LVersion rows)"
    and list_healthy: "usable h w \<Longrightarrow> faults w = [] \<Longrightarrow> view (cur h w) = Some vs \<Longrightarrow>
      \<exists>rows. fst (ListMigrations st h w) = Inr rows"
    and exists_frame: "TableExists st = Some t \<Longrightarrow> t h w = (b, w') \<Longrightarrow> frame h w w' \<and> cur h w' = cur h w"
    and exists_ok: "TableExists st = Some t \<Longrightarrow> t h w = (Inr yes, w') \<Longrightarrow> yes = (view (cur h w) \<noteq> None)"
    and exists_healthy: "TableExists st = Some t \<Longrightarrow> usable h w \<Longrightarrow> faults w = [] \<Longrightarrow>
      (\<exists>x. fst (t h w) = Inr x) \<or> fst (t h w) = Inl (Sent ErrUnsupported)"
    and create_err: "CreateVersionTable st h w = (Some e, w') \<Longrightarrow>
      view (cur h w') \<in> {view (cur h w), Some (case view (cur h w) of None \<Rightarrow> [] | Some vs \<Rightarrow> vs)}"
    and insert_err: "Insert st h v w = (Some e, w') \<Longrightarrow> view (cur h w) = Some vs \<Longrightarrow>
      \<exists>vs'. view (cur h w') = Some vs' \<and> (vs' = vs \<or> added v vs vs')"
    and delete_err: "Delete st h v w = (Some e, w') \<Longrightarrow> view (cur h w) = Some vs \<Longrightarrow>
      view (cur h w') \<in> {Some vs, Some (filter (\<lambda>x. x \<noteq> v) vs)}"
begin

lemma controller_exists_frame:
  "controller_TableExists st h w = (b, w') \<Longrightarrow> frame h w w' \<and> cur h w' = cur h w"
  by (auto simp: controller_TableExists_def split: option.splits dest: exists_frame)

lemma controller_exists_ok:
  "controller_TableExists st h w = (Inr yes, w') \<Longrightarrow> yes = (view (cur h w) \<noteq> None)"
  by (auto simp: controller_TableExists_def split: option.splits dest: exists_ok)

lemma controller_exists_healthy:
  "usable h w \<Longrightarrow> faults w = [] \<Longrightarrow>
     (\<exists>x. fst (controller_TableExists st h w) = Inr x) \<or> fst (controller_TableExists st h w) = Inl (Sent ErrUnsupported)"
  by (auto simp: controller_TableExists_def split: option.splits dest: exists_healthy)

lemma insert_set:
  assumes "Insert st h v w = (None, w')" and "view (cur h w) = Some vs"
  shows "\<exists>vs'. view (cur h w') = Some vs' \<and> set vs' = insert v (set vs) \<and> (distinct vs \<and> v \<notin> set vs \<longrightarrow> distinct vs')"
proof -
  obtain vs' where v: "view (cur h w') = Some vs'" and m: "mset vs' = mset (v # vs)"
    using insert_ok [OF assms] by (auto dest: added_rows)
  have "set vs' = set (v # vs)" using m by (rule mset_eq_setD)
  moreover have "distinct vs' = distinct (v # vs)" using m by (rule mset_eq_imp_distinct_iff)
  ultimately show ?thesis using v by auto
qed

end

text \<open>The order of insertion, newest first: the dialects that list by a serial id or a time stamp.\<close>

locale newest_first_store = version_store st view "\<lambda>v vs vs'. vs' = v # vs" for st view

section \<open>The default store meets the contract\<close>

locale sql_engine =
  fixes eng :: "'d engine" and tbl :: string and q :: querier and view :: "'d \<Rightarrow> version list option"
    and added :: "version \<Rightarrow> version list \<Rightarrow> version list \<Rightarrow> bool"
  assumes added_row: "added v vs vs' \<Longrightarrow> mset vs' = add_mset v (mset vs)"
    and exec_create: "view d = None \<Longrightarrow> \<exists>d'. e_exec eng (Q_CreateTable q tbl) [] d = (None, d')"
    and exec_create_ok: "e_exec eng (Q_CreateTable q tbl) [] d = (None, d') \<Longrightarrow>
      view d' = Some (case view d of None \<Rightarrow> [] | Some vs \<Rightarrow> vs)"
    and exec_insert: "view d = Some vs \<Longrightarrow> v \<notin> set vs \<Longrightarrow>
      \<exists>d'. e_exec eng (Q_InsertVersion q tbl) [IntArg v, BoolArg True] d = (None, d')"
    and exec_insert_ok: "view d = Some vs \<Longrightarrow>
      e_exec eng (Q_InsertVersion q tbl) [IntArg v, BoolArg True] d = (None, d') \<Longrightarrow>
      \<exists>vs'. view d' = Some vs' \<and> added v vs vs'"
    and exec_delete: "view d = Some vs \<Longrightarrow>
      \<exists>d'. e_exec eng (Q_DeleteVersion q tbl) [IntArg v] d = (None, d') \<and> view d' = Some (filter (\<lambda>x. x \<noteq> v) vs)"
    and exec_create_err: "e_exec eng (Q_CreateTable q tbl) [] d = (Some e, d') \<Longrightarrow> view d' = view d"
    and exec_insert_err: "e_exec eng (Q_InsertVersion q tbl) [IntArg v, BoolArg True] d = (Some e, d') \<Longrightarrow>
      view d' = view d"
    and query_get: "case view d of None \<Rightarrow> \<exists>e. e_query eng (Q_GetMigrationByVersion q tbl) [IntArg v] d = Inl e
      | Some vs \<Rightarrow> \<exists>t. e_query eng (Q_GetMigrationByVersion q tbl) [IntArg v] d =
          Inr (if v \<in> set vs then [[TimeCell t, BoolCell True]] else [], None)"
    and query_latest: "view d = Some vs \<Longrightarrow> e_query eng (Q_GetLatestVersion q tbl) [] d =
      Inr ([[if vs = [] then NullCell else IntCell (Max (set vs))]], None)"
    and query_list: "case view d of None \<Rightarrow> \<exists>e. e_query eng (Q_ListMigrations q tbl) [] d = Inl e
      | Some vs \<Rightarrow> e_query eng (Q_ListMigrations q tbl) [] d = Inr (map (\<lambda>v. [IntCell v, BoolCell True]) vs, None)"
    and query_exists: "Q_TableExists q = Some f \<Longrightarrow> e_query eng (f tbl) [] d = Inr ([[BoolCell (view d \<noteq> None)]], None)"
begin

lemma scan_list_versions:
  "scan_list (map (\<lambda>v. [IntCell v, BoolCell True]) vs) = Inr (map (\<lambda>v. \<lparr>LVersion = v, LIsApplied = True\<rparr>) vs)"
  by (induction vs) (simp_all add: scan_int_def scan_bool_def)

lemma get_cases:
  assumes "store_GetMigration eng tbl q h v w = (r, w')"
  shows "frame h w w' \<and> cur h w' = cur h w \<and>
     (case r of
        Inr x \<Rightarrow> \<exists>vs. view (cur h w) = Some vs \<and> v \<in> set vs
      | Inl e \<Rightarrow> errors_Is e DBErrVersionNotFound \<longrightarrow> (\<exists>vs. view (cur h w) = Some vs \<and> v \<notin> set vs))"
proof -
  obtain r1 w1 where q1: "QueryRow eng h (Q_GetMigrationByVersion q tbl) [IntArg v] w = (r1, w1)" by fastforce
  have w1: "w' = w1" and f: "frame h w w1" "cur h w1 = cur h w"
    using assms q1 QueryRow_frame [OF q1] by (auto simp: store_GetMigration_def split: sum.splits if_splits)
  show ?thesis
  proof (cases r1)
    case (Inl e)
    then show ?thesis
      using assms q1 w1 f QueryRow_no_rows [of eng h _ _ w e w1] QueryRow_not_found [of eng h _ _ w e w1]
        query_get [where d = "cur h w" and v = v]
      by (auto simp: store_GetMigration_def split: if_splits option.splits)
  next
    case (Inr row)
    have "\<exists>vs t. view (cur h w) = Some vs \<and> v \<in> set vs \<and> row = [TimeCell t, BoolCell True]"
      using QueryRow_ok [OF q1 [unfolded Inr]] query_get [where d = "cur h w" and v = v]
      by (auto split: option.splits if_splits)
    then show ?thesis
      using assms q1 w1 f Inr
      by (auto simp: store_GetMigration_def scan_migration_def scan_time_def scan_bool_def split: option.splits)
  qed
qed

end

context sql_engine
begin

lemma get_healthy_engine:
  assumes "usable h w" and "faults w = []" and "view (cur h w) = Some vs"
  shows "if v \<in> set vs then \<exists>x. fst (store_GetMigration eng tbl q h v w) = Inr x
         else \<exists>e. fst (store_GetMigration eng tbl q h v w) = Inl e \<and> errors_Is e DBErrVersionNotFound"
proof -
  obtain t where "e_query eng (Q_GetMigrationByVersion q tbl) [IntArg v] (cur h w) =
      Inr (if v \<in> set vs then [[TimeCell t, BoolCell True]] else [], None)"
    using query_get [where d = "cur h w" and v = v] assms(3) by auto
  from QueryRow_healthy [OF assms(1,2) this] show ?thesis
    by (simp add: store_GetMigration_def scan_migration_def scan_time_def scan_bool_def)
qed

lemma latest_cases:
  assumes "store_GetLatestVersion eng tbl q h w = (l, w')"
  shows "frame h w w' \<and> cur h w' = cur h w \<and>
     (\<forall>m vs. l = Inr m \<and> view (cur h w) = Some vs \<longrightarrow> vs \<noteq> [] \<and> m = Max (set vs))"
proof -
  obtain r1 w1 where q1: "QueryRow eng h (Q_GetLatestVersion q tbl) [] w = (r1, w1)" by fastforce
  have w1: "w' = w1" and f: "frame h w w1" "cur h w1 = cur h w"
    using assms q1 QueryRow_frame [OF q1]
    by (auto simp: store_GetLatestVersion_def split: sum.splits list.splits cell.splits)
  have "vs \<noteq> [] \<and> m = Max (set vs)" if m: "l = Inr m" and vs: "view (cur h w) = Some vs" for m vs
  proof (cases r1)
    case (Inl e)
    with assms q1 m show ?thesis by (simp add: store_GetLatestVersion_def)
  next
    case (Inr row)
    with q1 obtain rows it where "e_query eng (Q_GetLatestVersion q tbl) [] (cur h w) = Inr (row # rows, it)"
      using QueryRow_ok by metis
    then have "row = [if vs = [] then NullCell else IntCell (Max (set vs))]"
      using query_latest [OF vs] by simp
    with assms q1 Inr m show ?thesis by (auto simp: store_GetLatestVersion_def scan_int_def split: if_splits)
  qed
  with w1 f show ?thesis by blast
qed

lemma latest_healthy_engine:
  assumes "usable h w" and "faults w = []" and "view (cur h w) = Some vs"
  shows "if vs = [] then \<exists>e. fst (store_GetLatestVersion eng tbl q h w) = Inl e \<and> errors_Is e DBErrVersionNotFound
         else fst (store_GetLatestVersion eng tbl q h w) = Inr (Max (set vs))"
  using QueryRow_healthy [OF assms(1,2) query_latest [OF assms(3)]]
  by (simp add: store_GetLatestVersion_def scan_int_def)

lemma list_cases:
  assumes "store_ListMigrations eng tbl q h w = (ms, w')"
  shows "frame h w w' \<and> cur h w' = cur h w \<and> (\<forall>rows. ms = Inr rows \<longrightarrow> view (cur h w) = Some (map LVersion rows))"
proof -
  obtain r1 w1 where q1: "QueryContext eng h (Q_ListMigrations q tbl) [] w = (r1, w1)" by fastforce
  have w1: "w' = w1" and f: "frame h w w1" "cur h w1 = cur h w"
    using assms q1 QueryContext_frame [OF q1]
    by (auto simp: store_ListMigrations_def split: sum.splits prod.splits option.splits)
  have "view (cur h w) = Some (map LVersion rows)" if m: "ms = Inr rows" for rows
  proof (cases r1)
    case (Inl e)
    with assms q1 m show ?thesis by (simp add: store_ListMigrations_def)
  next
    case (Inr x)
    with q1 have "e_query eng (Q_ListMigrations q tbl) [] (cur h w) = Inr x" by (simp add: QueryContext_ok)
    with query_list [where d = "cur h w"] obtain vs where "view (cur h w) = Some vs"
      and "x = (map (\<lambda>v. [IntCell v, BoolCell True]) vs, None)" by (auto split: option.splits)
    with assms q1 Inr m show ?thesis
      by (auto simp: store_ListMigrations_def scan_list_versions comp_def)
  qed
  with w1 f show ?thesis by blast
qed

lemma list_healthy_engine:
  assumes "usable h w" and "faults w = []" and "view (cur h w) = Some vs"
  shows "\<exists>rows. fst (store_ListMigrations eng tbl q h w) = Inr rows"
  using query_list [where d = "cur h w"] assms(3)
  by (simp add: store_ListMigrations_def QueryContext_healthy [OF assms(1,2)] scan_list_versions)

lemma exists_cases:
  assumes "store_TableExists eng tbl q h w = (b, w')"
  shows "frame h w w' \<and> cur h w' = cur h w \<and> (\<forall>yes. b = Inr yes \<longrightarrow> yes = (view (cur h w) \<noteq> None))"
proof (cases "queryController_TableExists q tbl = []")
  case True
  with assms show ?thesis by (auto simp: store_TableExists_def)
next
  case False
  then obtain f where qf: "Q_TableExists q = Some f"
    by (auto simp: queryController_TableExists_def split: option.splits)
  obtain r1 w1 where q1: "QueryRow eng h (f tbl) [] w = (r1, w1)" by fastforce
  have w1: "w' = w1" and fr: "frame h w w1" "cur h w1 = cur h w"
    using assms q1 QueryRow_frame [OF q1] False qf
    by (auto simp: store_TableExists_def queryController_TableExists_def split: sum.splits list.splits)
  have "yes = (view (cur h w) \<noteq> None)" if b: "b = Inr yes" for yes
  proof (cases r1)
    case (Inl e)
    with assms q1 b qf False show ?thesis by (simp add: store_TableExists_def queryController_TableExists_def)
  next
    case (Inr row)
    with q1 obtain rows it where "e_query eng (f tbl) [] (cur h w) = Inr (row # rows, it)"
      using QueryRow_ok by metis
    with query_exists [OF qf] have "row = [BoolCell (view (cur h w) \<noteq> None)]" by simp
    with assms q1 Inr b qf False show ?thesis
      by (simp add: store_TableExists_def queryController_TableExists_def scan_bool_def)
  qed
  with w1 fr show ?thesis by blast
qed

lemma exists_healthy_engine:
  assumes "usable h w" and "faults w = []"
  shows "(\<exists>x. fst (store_TableExists eng tbl q h w) = Inr x) \<or>
         fst (store_TableExists eng tbl q h w) = Inl (Sent ErrUnsupported)"
proof (cases "Q_TableExists q")
  case None
  then show ?thesis by (simp add: store_TableExists_def queryController_TableExists_def)
next
  case (Some f)
  from QueryRow_healthy [OF assms query_exists [OF Some]] Some show ?thesis
    by (simp add: store_TableExists_def queryController_TableExists_def scan_bool_def)
qed

end

sublocale sql_engine \<subseteq> deflt: version_store "default_store eng tbl q" view added
proof (unfold_locales, goal_cases)
  case (1 v vs vs')
  then show ?case by (rule added_row)
next
  case (2 h w r w')
  then show ?case
    by (auto simp: default_store_def store_CreateVersionTable_def wrap_err_def
        split: prod.splits option.splits dest: ExecContext_frame)
next
  case (3 h w w')
  then have "ExecContext eng h (Q_CreateTable q tbl) [] w = (None, w')"
    by (auto simp: default_store_def store_CreateVersionTable_def wrap_err_def split: prod.splits option.splits)
  from exec_create_ok [OF ExecContext_ok [OF this]] show ?case .
next
  case (4 h w)
  then obtain d' where "e_exec eng (Q_CreateTable q tbl) [] (cur h w) = (None, d')" using exec_create by blast
  from ExecContext_healthy [OF 4(1,2) this] show ?case
    by (simp add: default_store_def store_CreateVersionTable_def wrap_err_def)
next
  case (5 h v w r w')
  then show ?case
    by (auto simp: default_store_def store_Insert_def wrap_err_def
        split: prod.splits option.splits dest: ExecContext_frame)
next
  case (6 h v w w' vs)
  then have "ExecContext eng h (Q_InsertVersion q tbl) [IntArg v, BoolArg True] w = (None, w')"
    by (auto simp: default_store_def store_Insert_def wrap_err_def split: prod.splits option.splits)
  from exec_insert_ok [OF 6(2) ExecContext_ok [OF this]] show ?case .
next
  case (7 h w vs v)
  then obtain d' where "e_exec eng (Q_InsertVersion q tbl) [IntArg v, BoolArg True] (cur h w) = (None, d')"
    using exec_insert by blast
  from ExecContext_healthy [OF 7(1,2) this] show ?case
    by (simp add: default_store_def store_Insert_def wrap_err_def)
next
  case (8 h v w r w')
  then show ?case
    by (auto simp: default_store_def store_Delete_def wrap_err_def
        split: prod.splits option.splits dest: ExecContext_frame)
next
  case (9 h v w w' vs)
  then have "ExecContext eng h (Q_DeleteVersion q tbl) [IntArg v] w = (None, w')"
    by (auto simp: default_store_def store_Delete_def wrap_err_def split: prod.splits option.splits)
  from ExecContext_ok [OF this] exec_delete [OF 9(2), of v] show ?case by auto
next
  case (10 h w vs v)
  then obtain d' where "e_exec eng (Q_DeleteVersion q tbl) [IntArg v] (cur h w) = (None, d')"
    using exec_delete by blast
  from ExecContext_healthy [OF 10(1,2) this] show ?case
    by (simp add: default_store_def store_Delete_def wrap_err_def)
next
  case (11 h v w g w')
  then show ?case using get_cases [of h v w g w'] by (simp add: default_store_def)
next
  case (12 h v w x w')
  then show ?case using get_cases [of h v w "Inr x" w'] by (simp add: default_store_def)
next
  case (13 h v w e w' vs)
  then show ?case using get_cases [of h v w "Inl e" w'] by (simp add: default_store_def)
next
  case (14 h w vs v)
  then show ?case using get_healthy_engine [of h w vs v] by (simp add: default_store_def)
next
  case (15 h w l w')
  then show ?case using latest_cases [of h w l w'] by (simp add: default_store_def)
next
  case (16 h w m w' vs)
  then show ?case using latest_cases [of h w "Inr m" w'] by (simp add: default_store_def)
next
  case (17 h w vs)
  then show ?case using latest_healthy_engine [of h w vs] by (simp add: default_store_def)
next
  case (18 h w ms w')
  then show ?case using list_cases [of h w ms w'] by (simp add: default_store_def)
next
  case (19 h w rows w')
  then show ?case using list_cases [of h w "Inr rows" w'] by (simp add: default_store_def)
next
  case (20 h w vs)
  then show ?case using list_healthy_engine [of h w vs] by (simp add: default_store_def)
next
  case (21 t h w b w')
  then show ?case using exists_cases [of h w b w'] by (simp add: default_store_def)
next
  case (22 t h w yes w')
  then show ?case using exists_cases [of h w "Inr yes" w'] by (simp add: default_store_def)
next
  case (23 t h w)
  then show ?case using exists_healthy_engine [of h w] by (simp add: default_store_def)
next
  case (24 h w e w')
  then obtain e1 where "ExecContext eng h (Q_CreateTable q tbl) [] w = (Some e1, w')"
    by (auto simp: default_store_def store_CreateVersionTable_def wrap_err_def split: prod.splits option.splits)
  from ExecContext_state [OF this] show ?case
    using exec_create_ok [of "cur h w"] exec_create_err [of "cur h w"]
    by (cases "e_exec eng (Q_CreateTable q tbl) [] (cur h w)"; cases "fst (e_exec eng (Q_CreateTable q tbl) [] (cur h w))") auto
next
  case (25 h v w e w' vs)
  then obtain e1 where "ExecContext eng h (Q_InsertVersion q tbl) [IntArg v, BoolArg True] w = (Some e1, w')"
    by (auto simp: default_store_def store_Insert_def wrap_err_def split: prod.splits option.splits)
  from ExecContext_state [OF this] 25(2) show ?case
    using exec_insert_ok [OF 25(2), of v] exec_insert_err [of v "cur h w"]
    by (cases "e_exec eng (Q_InsertVersion q tbl) [IntArg v, BoolArg True] (cur h w)";
        cases "fst (e_exec eng (Q_InsertVersion q tbl) [IntArg v, BoolArg True] (cur h w))") auto
next
  case (26 h v w e w' vs)
  then obtain e1 where "ExecContext eng h (Q_DeleteVersion q tbl) [IntArg v] w = (Some e1, w')"
    by (auto simp: default_store_def store_Delete_def wrap_err_def split: prod.splits option.splits)
  from ExecContext_state [OF this] 26(2) show ?case
    using exec_delete [OF 26(2), of v] by auto
qed

context sql_engine
begin

lemma default_store_version_store: "version_store (default_store eng tbl q) view added"
  by (rule deflt.version_store_axioms)

end

text \<open>A server whose listing is in the order of insertion gives the stronger contract.\<close>

locale serial_engine = sql_engine eng tbl q view "\<lambda>v vs vs'. vs' = v # vs" for eng tbl q view

sublocale serial_engine \<subseteq> serial: newest_first_store "default_store eng tbl q" view
  by unfold_locales

context serial_engine
begin

lemma default_store_newest_first: "newest_first_store (default_store eng tbl q) view"
  by (rule serial.newest_first_store_axioms)

end

section \<open>An engine that runs the statements\<close>

text \<open>
  The state is the version table, newest first, and the other statements the server has executed.
  The Go functions named \<open>ok\<close> succeed, any other fails; both are recorded.
\<close>

type_synonym ref_db = "version list option \<times> string list"

definition ref_exec :: "querier \<Rightarrow> string \<Rightarrow> string \<Rightarrow> arg list \<Rightarrow> ref_db \<Rightarrow> string option \<times> ref_db" where
  "ref_exec q tbl stmt args d =
     (if stmt = Q_CreateTable q tbl
      then (case fst d of None \<Rightarrow> (None, (Some [], snd d)) | Some _ \<Rightarrow> (Some ''table already exists'', d))
      else if stmt = Q_InsertVersion q tbl
      then (case (fst d, args) of (Some vs, [IntArg v, BoolArg True]) \<Rightarrow> (None, (Some (v # vs), snd d))
            | _ \<Rightarrow> (Some ''insert failed'', d))
      else if stmt = Q_DeleteVersion q tbl
      then (case (fst d, args) of (Some vs, [IntArg v]) \<Rightarrow> (None, (Some (filter (\<lambda>x. x \<noteq> v) vs), snd d))
            | _ \<Rightarrow> (Some ''delete failed'', d))
      else if stmt = ''FAIL;'' then (Some ''syntax error'', d)
      else (None, (fst d, snd d @ [stmt])))"

definition ref_query ::
    "querier \<Rightarrow> string \<Rightarrow> string \<Rightarrow> arg list \<Rightarrow> ref_db \<Rightarrow> string + (cell list list \<times> string option)" where
  "ref_query q tbl stmt args d =
     (if stmt = queryController_TableExists q tbl then Inr ([[BoolCell (fst d \<noteq> None)]], None)
      else
        (case fst d of
           None \<Rightarrow> Inl ''no such table''
         | Some vs \<Rightarrow>
             (if stmt = Q_GetMigrationByVersion q tbl
              then (case args of
                      [IntArg v] \<Rightarrow> Inr (if v \<in> set vs then [[TimeCell 0, BoolCell True]] else [], None)
                    | _ \<Rightarrow> Inl ''wrong number of arguments'')
              else if stmt = Q_ListMigrations q tbl
              then Inr (map (\<lambda>v. [IntCell v, BoolCell True]) vs, None)
              else if stmt = Q_GetLatestVersion q tbl
              then Inr ([[if vs = [] then NullCell else IntCell (Max (set vs))]], None)
              else Inl ''unknown query'')))"

fun ref_go :: "gofn \<Rightarrow> ref_db \<Rightarrow> go_outcome \<times> ref_db" where
  "ref_go (Fn name) d = (Returns (if name = ''ok'' then None else Some (Msg name)), (fst d, snd d @ [name]))"
| "ref_go (WithContext f) d = ref_go f d"
| "ref_go (WithoutContext f) d = ref_go f d"

lemma ref_go_result: "\<exists>r d'. ref_go f d = (Returns r, d') \<and> fst d' = fst d \<and> (r = None \<or> (\<exists>msg. r = Some (Msg msg)))"
  by (induction f d rule: ref_go.induct) simp_all

definition ref_engine :: "querier \<Rightarrow> string \<Rightarrow> ref_db engine" where
  "ref_engine q tbl = \<lparr>e_exec = ref_exec q tbl, e_query = ref_query q tbl, e_go = ref_go\<rparr>"

lemma ref_statements:
  assumes "(d, q) \<in> set builtin_queriers"
  shows "Q_InsertVersion q t \<noteq> Q_CreateTable q t" "Q_DeleteVersion q t \<noteq> Q_CreateTable q t"
    "Q_DeleteVersion q t \<noteq> Q_InsertVersion q t"
    "Q_ListMigrations q t \<noteq> Q_GetMigrationByVersion q t" "Q_GetLatestVersion q t \<noteq> Q_GetMigrationByVersion q t"
    "Q_GetLatestVersion q t \<noteq> Q_ListMigrations q t"
    "Q_GetMigrationByVersion q t \<noteq> queryController_TableExists q t"
    "Q_ListMigrations q t \<noteq> queryController_TableExists q t"
    "Q_GetLatestVersion q t \<noteq> queryController_TableExists q t"
  using builtin_queries_distinct [OF assms, of t] builtin_queries_nonempty [OF assms, of t]
  by (auto simp: queries_def queryController_TableExists_def split: option.splits)

lemma ref_serial_engine:
  assumes "(d, q) \<in> set builtin_queriers"
  shows "serial_engine (ref_engine q tbl) tbl q fst"
proof (unfold_locales, goal_cases)
  case (12 s f)
  then show ?case by (simp add: ref_engine_def ref_query_def queryController_TableExists_def)
qed (auto simp: ref_engine_def ref_exec_def ref_query_def ref_statements [OF assms] split: option.splits)

interpretation postgres_ref: serial_engine "ref_engine NewPostgres ''goose_db_version''" "''goose_db_version''" NewPostgres fst
  by (rule ref_serial_engine [of "''postgres''"]) (simp add: builtin_queriers_def)

section \<open>Properties\<close>

text \<open>
  C6: over any server that gives the statements of the dialect their meaning, the default store
  meets the contract of the interface \<open>Store\<close>: a recorded version is found and listed, a deleted one
  is not, the latest version is the maximum, a missing row is reported as \<open>ErrVersionNotFound\<close> and as
  nothing else, and no call changes more than the state behind its handle, whatever the driver does.
\<close>

theorem default_store_contract:
  assumes "sql_engine eng tbl q view added"
  shows "version_store (default_store eng tbl q) view added"
  using assms by (rule sql_engine.default_store_version_store)

theorem default_store_contract_witness:
  "version_store (default_store (ref_engine NewPostgres ''goose_db_version'') ''goose_db_version'' NewPostgres) fst
     (\<lambda>v vs vs'. vs' = v # vs)"
  by (rule default_store_contract) (rule postgres_ref.sql_engine_axioms)

end
