(* ===== verification/Collect.thy ===== *)
theory Collect
  imports Migrations
begin

text \<open>
  Collecting migrations: \<open>provider_collect.go\<close> (the sources on the file system, the merge with the
  registered Go migrations) and \<open>newProvider\<close>'s choice of registered migrations from \<open>provider.go\<close>.

  A file system lists its root directory in the order of \<open>fs.ReadDir\<close>, by file name. The sets of
  excluded paths and versions are lists. The registered migrations are pointers that the merge
  updates in place, so the merge returns them as well.
\<close>

record fileSources =
  sqlSources :: "Source list"
  goSources :: "Source list"

section \<open>Sources on the file system\<close>

definition Glob :: "fs \<Rightarrow> string \<Rightarrow> path list" where
  "Glob fsys ext = filter (\<lambda>n. slash \<notin> set n \<and> HasSuffix n ext) (map fst fsys)"

text \<open>The sources found so far and the lookup from versions to base names.\<close>

type_synonym collected = "fileSources \<times> (version \<times> string) list"

definition duplicate_error :: "version \<Rightarrow> string \<Rightarrow> string \<Rightarrow> err" where
  "duplicate_error v existing current =
     Msg (''found duplicate migration version '' @ FormatInt v @ '':'' @ nl @ tab @ ''existing:'' @ existing @
          nl @ tab @ ''current:'' @ current)"

definition collect_file ::
    "bool \<Rightarrow> path list \<Rightarrow> version list \<Rightarrow> path \<Rightarrow> collected \<Rightarrow> err + collected" where
  "collect_file strict excludePaths excludeVersions fullpath acc =
     (let base = Base fullpath; srcs = fst acc; lookup = snd acc
      in if HasSuffix base ''_test.go'' then Inr acc
         else if base \<in> set excludePaths then Inr acc
         else
           (case NumericComponent base of
              Inl e \<Rightarrow>
                (if strict then Inl (Wrap (''failed to parse numeric component from '' @ Quote base) e) else Inr acc)
            | Inr v \<Rightarrow>
                (if v \<in> set excludeVersions then Inr acc
                 else
                   (case map_of lookup v of
                      Some existing \<Rightarrow> Inl (duplicate_error v existing base)
                    | None \<Rightarrow>
                        (if Ext base = ''.sql''
                         then Inr (srcs\<lparr>sqlSources := sqlSources srcs @
                                     [\<lparr>SType = TypeSQL, SPath = fullpath, SVersion = v\<rparr>]\<rparr>, (v, base) # lookup)
                         else if Ext base = ''.go''
                         then Inr (srcs\<lparr>goSources := goSources srcs @
                                     [\<lparr>SType = TypeGo, SPath = fullpath, SVersion = v\<rparr>]\<rparr>, (v, base) # lookup)
                         else Inl (Msg (''invalid file extension: '' @ Quote base)))))))"

fun collect_files ::
    "bool \<Rightarrow> path list \<Rightarrow> version list \<Rightarrow> path list \<Rightarrow> collected \<Rightarrow> err + collected" where
  "collect_files strict xp xv [] acc = Inr acc"
| "collect_files strict xp xv (f # files) acc =
     (case collect_file strict xp xv f acc of
        Inl e \<Rightarrow> Inl e
      | Inr acc' \<Rightarrow> collect_files strict xp xv files acc')"

definition collectFilesystemSources ::
    "fs option \<Rightarrow> bool \<Rightarrow> path list \<Rightarrow> version list \<Rightarrow> err + fileSources" where
  "collectFilesystemSources fsys strict excludePaths excludeVersions =
     (case fsys of
        None \<Rightarrow> Inr \<lparr>sqlSources = [], goSources = []\<rparr>
      | Some fs \<Rightarrow>
          (case collect_files strict excludePaths excludeVersions (Glob fs ''.sql'' @ Glob fs ''.go'')
                  (\<lparr>sqlSources = [], goSources = []\<rparr>, []) of
             Inl e \<Rightarrow> Inl e
           | Inr acc \<Rightarrow> Inr (fst acc)))"

section \<open>Merging\<close>

definition newSQLMigration :: "Source \<Rightarrow> Migration" where
  "newSQLMigration source =
     zeroMigration\<lparr>Type := SType source, Version := SVersion source, MSourcePath := SPath source,
       construct := True, Next := -1, Previous := -1, sql := zeroSql\<lparr>Parsed := False\<rparr>\<rparr>"

definition unregisteredError :: "string list \<Rightarrow> err" where
  "unregisteredError unregistered =
     Msg (''error: detected '' @ FormatNat (length unregistered) @ '' unregistered Go '' @
          (if length unregistered > 1 then ''files'' else ''file'') @ '':'' @ nl @
          concat (map (\<lambda>name. tab @ name @ nl) unregistered) @
          ''hint: go functions must be registered and built into a custom binary see:'' @ nl @
          ''https://github.com/pressly/goose/tree/master/examples/go-migrations'' @ nl)"

text \<open>The first loop over the Go sources: source paths set in the registry, and what is missing there.\<close>

definition set_source :: "registry \<Rightarrow> Source \<Rightarrow> registry" where
  "set_source registered s =
     map (\<lambda>(v, m). if v = SVersion s then (v, m\<lparr>MSourcePath := SPath s\<rparr>) else (v, m)) registered"

fun match_go_sources :: "Source list \<Rightarrow> registry \<Rightarrow> string list \<times> registry" where
  "match_go_sources [] registered = ([], registered)"
| "match_go_sources (s # ss) registered =
     (case map_of registered (SVersion s) of
        None \<Rightarrow> (let (un, reg) = match_go_sources ss registered in (SPath s # un, reg))
      | Some m \<Rightarrow> match_go_sources ss (set_source registered s))"

text \<open>The second loop, over the registered migrations, with the migrations collected so far.\<close>

fun add_registered :: "registry \<Rightarrow> (version \<times> Migration) list \<Rightarrow> Migration list \<Rightarrow> err + Migration list" where
  "add_registered [] lookup ms = Inr ms"
| "add_registered ((version, r) # reg) lookup ms =
     (case map_of lookup version of
        Some existing \<Rightarrow>
          Inl (duplicate_error version (MSourcePath existing)
                 (if MSourcePath r = [] then ''no source path'' else MSourcePath r))
      | None \<Rightarrow> add_registered reg ((version, r) # lookup) (ms @ [r]))"

definition merge :: "fileSources \<Rightarrow> registry \<Rightarrow> (err + Migration list) \<times> registry" where
  "merge sources registered =
     (let sqls = map newSQLMigration (sqlSources sources);
          lookup = rev (map (\<lambda>m. (Version m, m)) sqls)
      in if goSources sources = [] \<and> registered = [] then (Inr sqls, registered)
         else
           (let (unregistered, reg) = match_go_sources (goSources sources) registered
            in if unregistered \<noteq> [] then (Inl (unregisteredError unregistered), reg)
               else
                 (case add_registered reg lookup sqls of
                    Inl e \<Rightarrow> (Inl e, reg)
                  | Inr ms \<Rightarrow> (Inr (sort_key Version ms), reg))))"

text \<open>
  \<open>newProvider\<close> first joins the provider's own Go migrations with the global ones. The registry with
  the source paths that \<open>merge\<close> sets is used for the provider and not put back into the global one.
\<close>

fun join_registries :: "registry \<Rightarrow> registry \<Rightarrow> err + registry" where
  "join_registries own [] = Inr own"
| "join_registries own ((version, m) # global) =
     (if map_of own version \<noteq> None
      then Inl (Msg (''global go migration conflicts with provider-registered go migration with version '' @
                     FormatInt version))
      else join_registries (own @ [(version, m)]) global)"

definition collect_migrations ::
    "fs option \<Rightarrow> path list \<Rightarrow> version list \<Rightarrow> registry \<Rightarrow> bool \<Rightarrow> registry \<Rightarrow> err + Migration list" where
  "collect_migrations fsys excludePaths excludeVersions registered disableGlobalRegistry global =
     (case collectFilesystemSources fsys False excludePaths excludeVersions of
        Inl e \<Rightarrow> Inl e
      | Inr sources \<Rightarrow>
          (case (if disableGlobalRegistry then Inr registered else join_registries registered global) of
             Inl e \<Rightarrow> Inl e
           | Inr gos \<Rightarrow>
               (case fst (merge sources gos) of
                  Inl e \<Rightarrow> Inl e
                | Inr ms \<Rightarrow> (if ms = [] then Inl (Sent ErrNoMigrations) else Inr ms))))"

section \<open>What collecting finds\<close>

text \<open>The version under which a file is collected, if it is, and the sources of one extension.\<close>

definition selected :: "path list \<Rightarrow> version list \<Rightarrow> path \<Rightarrow> version option" where
  "selected xp xv f =
     (if HasSuffix (Base f) ''_test.go'' \<or> Base f \<in> set xp then None
      else
        (case NumericComponent (Base f) of
           Inl _ \<Rightarrow> None
         | Inr v \<Rightarrow> (if v \<in> set xv then None else Some v)))"

definition found :: "path list \<Rightarrow> version list \<Rightarrow> MigrationType \<Rightarrow> path list \<Rightarrow> Source list" where
  "found xp xv t files =
     List.map_filter (\<lambda>f. map_option (\<lambda>v. \<lparr>SType = t, SPath = f, SVersion = v\<rparr>) (selected xp xv f)) files"

lemma found_simps [simp]:
  "found xp xv t [] = []"
  "found xp xv t (f # fs) =
     (case selected xp xv f of None \<Rightarrow> found xp xv t fs
      | Some v \<Rightarrow> \<lparr>SType = t, SPath = f, SVersion = v\<rparr> # found xp xv t fs)"
  by (auto simp: found_def map_filter_simps split: option.splits)

lemma found_set:
  "s \<in> set (found xp xv t fs) \<longleftrightarrow> SType s = t \<and> SPath s \<in> set fs \<and> selected xp xv (SPath s) = Some (SVersion s)"
  by (induction fs) (auto split: option.splits)

lemma selected_version: "selected xp xv f = Some v \<Longrightarrow> 1 \<le> v \<and> v \<le> MaxInt64 \<and> v \<notin> set xv \<and> Base f \<notin> set xp"
  using NumericComponent_bounds by (auto simp: selected_def split: if_splits sum.splits)

lemma Base_plain: "slash \<notin> set f \<Longrightarrow> f \<noteq> [] \<Longrightarrow> Base f = f"
  using Base_in_dir [of f "[]"] by simp

lemma Glob_Ext:
  assumes "f \<in> set (Glob fs ext)" and "ext \<in> {''.sql'', ''.go''}"
  shows "Ext (Base f) = ext"
proof -
  from assms obtain g where g: "f = g @ ext" "slash \<notin> set f"
    by (auto simp: Glob_def HasSuffix_iff suffix_def)
  then have "Base f = f" using assms(2) by (intro Base_plain) auto
  with g assms(2) show ?thesis by auto
qed

definition add_source :: "Source \<Rightarrow> fileSources \<Rightarrow> fileSources" where
  "add_source s srcs =
     (if SType s = TypeSQL then srcs\<lparr>sqlSources := sqlSources srcs @ [s]\<rparr>
      else srcs\<lparr>goSources := goSources srcs @ [s]\<rparr>)"

lemma collect_file_lenient:
  assumes "Ext (Base f) = (if t = TypeSQL then ''.sql'' else ''.go'')" and "t \<in> {TypeSQL, TypeGo}"
  shows "collect_file False xp xv f (srcs, lookup) =
     (case selected xp xv f of
        None \<Rightarrow> Inr (srcs, lookup)
      | Some v \<Rightarrow>
          (case map_of lookup v of
             Some existing \<Rightarrow> Inl (duplicate_error v existing (Base f))
           | None \<Rightarrow> Inr (add_source \<lparr>SType = t, SPath = f, SVersion = v\<rparr> srcs, (v, Base f) # lookup)))"
  using assms by (auto simp: collect_file_def selected_def add_source_def Let_def split: sum.splits option.splits)

definition add_sources :: "Source list \<Rightarrow> fileSources \<Rightarrow> fileSources" where
  "add_sources ss srcs = fold add_source ss srcs"

lemma add_sources_found:
  "add_sources (found xp xv TypeSQL fs) srcs = srcs\<lparr>sqlSources := sqlSources srcs @ found xp xv TypeSQL fs\<rparr>"
  "add_sources (found xp xv TypeGo fs) srcs = srcs\<lparr>goSources := goSources srcs @ found xp xv TypeGo fs\<rparr>"
  by (induction fs arbitrary: srcs)
     (auto simp: add_sources_def add_source_def split: option.splits)

lemma collect_files_lenient:
  assumes "\<forall>f\<in>set fs. Ext (Base f) = (if t = TypeSQL then ''.sql'' else ''.go'')" and "t \<in> {TypeSQL, TypeGo}"
  shows "(\<exists>e. collect_files False xp xv fs (srcs, lookup) = Inl e \<and>
            \<not> distinct (map SVersion (found xp xv t fs) @ remdups (map fst lookup))) \<or>
         (\<exists>lookup'. collect_files False xp xv fs (srcs, lookup) =
              Inr (add_sources (found xp xv t fs) srcs, lookup') \<and>
            distinct (map SVersion (found xp xv t fs) @ remdups (map fst lookup)) \<and>
            set (map fst lookup') = SVersion ` set (found xp xv t fs) \<union> set (map fst lookup))"
  using assms(1)
proof (induction fs arbitrary: srcs lookup)
  case Nil
  then show ?case by (simp add: add_sources_def)
next
  case (Cons f fs)
  note step = collect_file_lenient [OF _ assms(2), of f xp xv srcs lookup]
  show ?case
  proof (cases "selected xp xv f")
    case None
    with Cons show ?thesis by (simp add: step)
  next
    case (Some v)
    show ?thesis
    proof (cases "map_of lookup v")
      case (Some e)
      then have "v \<in> fst ` set lookup" by (metis domI dom_map_of_conv_image_fst)
      with Cons.prems Some \<open>selected xp xv f = Some v\<close> show ?thesis by (simp add: step)
    next
      case None
      then have "v \<notin> fst ` set lookup" by (simp add: map_of_eq_None_iff)
      with Cons.IH [of "add_source \<lparr>SType = t, SPath = f, SVersion = v\<rparr> srcs" "(v, Base f) # lookup"]
        Cons.prems None Some show ?thesis
        by (auto simp: step add_sources_def)
    qed
  qed
qed

lemma collect_files_append:
  "collect_files strict xp xv (fs @ gs) acc =
     (case collect_files strict xp xv fs acc of Inl e \<Rightarrow> Inl e | Inr acc' \<Rightarrow> collect_files strict xp xv gs acc')"
  by (induction fs arbitrary: acc) (auto split: sum.splits)

definition all_found :: "path list \<Rightarrow> version list \<Rightarrow> fs \<Rightarrow> fileSources" where
  "all_found xp xv fsys =
     \<lparr>sqlSources = found xp xv TypeSQL (Glob fsys ''.sql''), goSources = found xp xv TypeGo (Glob fsys ''.go'')\<rparr>"

definition source_versions :: "fileSources \<Rightarrow> version list" where
  "source_versions s = map SVersion (sqlSources s @ goSources s)"

lemma collect_lenient:
  "if distinct (source_versions (all_found xp xv fsys))
   then collectFilesystemSources (Some fsys) False xp xv = Inr (all_found xp xv fsys)
   else \<exists>e. collectFilesystemSources (Some fsys) False xp xv = Inl e"
proof -
  let ?q = "Glob fsys ''.sql''" and ?g = "Glob fsys ''.go''" and ?z = "\<lparr>sqlSources = [], goSources = []\<rparr>"
  have q: "\<forall>f\<in>set ?q. Ext (Base f) = (if TypeSQL = TypeSQL then ''.sql'' else ''.go'')"
    and g: "\<forall>f\<in>set ?g. Ext (Base f) = (if TypeGo = TypeSQL then ''.sql'' else ''.go'')"
    using Glob_Ext by auto
  consider (bad) e where "collect_files False xp xv ?q (?z, []) = Inl e"
      "\<not> distinct (map SVersion (found xp xv TypeSQL ?q))"
    | (good) lookup where
      "collect_files False xp xv ?q (?z, []) = Inr (?z\<lparr>sqlSources := found xp xv TypeSQL ?q\<rparr>, lookup)"
      "distinct (map SVersion (found xp xv TypeSQL ?q))"
      "fst ` set lookup = SVersion ` set (found xp xv TypeSQL ?q)"
    using collect_files_lenient [OF q, of xp xv ?z "[]"] by (auto simp: add_sources_found)
  then show ?thesis
  proof cases
    case bad
    then show ?thesis
      by (simp add: collectFilesystemSources_def collect_files_append source_versions_def all_found_def)
  next
    case good
    from collect_files_lenient [OF g, of xp xv "?z\<lparr>sqlSources := found xp xv TypeSQL ?q\<rparr>" lookup] good
    show ?thesis
      by (auto simp: collectFilesystemSources_def collect_files_append source_versions_def all_found_def
          add_sources_found)
  qed
qed

section \<open>What merging gives\<close>

lemma set_source_keys: "map fst (set_source reg s) = map fst reg"
  by (auto simp: set_source_def case_prod_beta)

lemma set_source_None: "map_of (set_source reg s) v = None \<longleftrightarrow> map_of reg v = None"
  using set_source_keys by (metis list.set_map map_of_eq_None_iff)

lemma match_go_sources_result:
  "fst (match_go_sources ss reg) = map SPath (filter (\<lambda>s. map_of reg (SVersion s) = None) ss)"
  "map fst (snd (match_go_sources ss reg)) = map fst reg"
  by (induction ss arbitrary: reg)
     (auto simp: set_source_None set_source_keys case_prod_beta split: option.splits)

lemma match_go_sources_versions:
  "(\<forall>(v, m)\<in>set reg. Version m = v) \<Longrightarrow> \<forall>(v, m)\<in>set (snd (match_go_sources ss reg)). Version m = v"
proof (induction ss arbitrary: reg)
  case (Cons s ss)
  have "\<forall>(v, m)\<in>set (set_source reg s). Version m = v"
    using Cons.prems by (auto simp: set_source_def split: if_splits)
  with Cons show ?case by (auto simp: case_prod_beta split: option.splits)
qed simp

lemma add_registered_result:
  assumes "distinct (map fst reg)"
  shows "if fst ` set reg \<inter> fst ` set lookup = {} then add_registered reg lookup ms = Inr (ms @ map snd reg)
         else \<exists>e. add_registered reg lookup ms = Inl e"
  using assms
proof (induction reg lookup ms rule: add_registered.induct)
  case (2 version r reg lookup ms)
  show ?case
  proof (cases "map_of lookup version")
    case None
    then have "version \<notin> fst ` set lookup" by (simp add: map_of_eq_None_iff)
    with 2(1) [OF None] 2(2) None show ?thesis by (auto split: if_splits)
  next
    case (Some m)
    then have "version \<in> fst ` set lookup" by (metis domI dom_map_of_conv_image_fst)
    with Some show ?thesis by auto
  qed
qed simp

lemma newSQLMigration_Version [simp]: "Version (newSQLMigration s) = SVersion s"
  by (simp add: newSQLMigration_def)

lemma newSQLMigration_versions [simp]: "Version \<circ> newSQLMigration = SVersion"
  by auto

text \<open>What a caller of \<open>merge\<close> guarantees.\<close>

definition merge_input :: "fileSources \<Rightarrow> registry \<Rightarrow> bool" where
  "merge_input srcs reg \<longleftrightarrow> distinct (source_versions srcs) \<and> distinct (map fst reg) \<and>
     (\<forall>(v, m)\<in>set reg. Version m = v)"

lemma merge_cases:
  assumes "merge_input srcs reg" and "\<not> (goSources srcs = [] \<and> reg = [])"
  shows "if SVersion ` set (goSources srcs) \<subseteq> fst ` set reg \<and>
            SVersion ` set (sqlSources srcs) \<inter> fst ` set reg = {}
         then fst (merge srcs reg) =
                Inr (sort_key Version (map newSQLMigration (sqlSources srcs) @
                      map snd (snd (match_go_sources (goSources srcs) reg))))
         else \<exists>e. fst (merge srcs reg) = Inl e"
proof -
  obtain un reg' where m: "match_go_sources (goSources srcs) reg = (un, reg')" by fastforce
  let ?sqls = "map newSQLMigration (sqlSources srcs)"
  let ?lookup = "rev (map (\<lambda>m. (Version m, m)) ?sqls)"
  have keys: "map fst reg' = map fst reg" and
    un: "un = map SPath (filter (\<lambda>s. map_of reg (SVersion s) = None) (goSources srcs))"
    using match_go_sources_result [of "goSources srcs" reg] m by simp_all
  have "un = [] \<longleftrightarrow> SVersion ` set (goSources srcs) \<subseteq> fst ` set reg"
    by (auto simp: un filter_empty_conv map_of_eq_None_iff)
  moreover have "distinct (map fst reg')" using assms(1) keys by (simp add: merge_input_def)
  moreover have "fst ` set ?lookup = SVersion ` set (sqlSources srcs)" by (force simp: image_iff)
  moreover have "fst ` set reg' = fst ` set reg" using keys by (metis list.set_map)
  ultimately show ?thesis
    using assms(2) add_registered_result [of reg' ?lookup ?sqls] m
    by (auto simp: merge_def Let_def Int_commute split: if_splits)
qed

lemma merge_result:
  assumes "merge_input srcs reg" and "goSources srcs \<noteq> [] \<or> reg \<noteq> []"
  shows "if SVersion ` set (goSources srcs) \<subseteq> fst ` set reg \<and>
            SVersion ` set (sqlSources srcs) \<inter> fst ` set reg = {}
         then \<exists>ms. fst (merge srcs reg) = Inr ms \<and> sorted (map Version ms) \<and> distinct (map Version ms) \<and>
                set (map Version ms) = set (source_versions srcs) \<union> fst ` set reg
         else \<exists>e. fst (merge srcs reg) = Inl e"
proof (cases "SVersion ` set (goSources srcs) \<subseteq> fst ` set reg \<and>
            SVersion ` set (sqlSources srcs) \<inter> fst ` set reg = {}")
  case True
  let ?reg = "snd (match_go_sources (goSources srcs) reg)"
  let ?ms = "map newSQLMigration (sqlSources srcs) @ map snd ?reg"
  have "\<forall>(v, m)\<in>set ?reg. Version m = v"
    using assms(1) by (intro match_go_sources_versions) (auto simp: merge_input_def)
  then have "map (Version \<circ> snd) ?reg = map fst ?reg" by (auto simp: case_prod_beta)
  then have v: "map Version ?ms = map SVersion (sqlSources srcs) @ map fst reg"
    using match_go_sources_result(2) [of "goSources srcs" reg] by (simp add: comp_def)
  then have d: "distinct (map Version ?ms)"
    using assms(1) True by (simp add: merge_input_def source_versions_def)
  have "set (map Version (sort_key Version ?ms)) = set (map Version ?ms)" by (simp only: set_map set_sort)
  moreover have "set (map Version ?ms) = set (source_versions srcs) \<union> fst ` set reg"
    unfolding v using True by (auto simp: source_versions_def)
  moreover have "distinct (map Version (sort_key Version ?ms))"
    using d by (metis distinct_map distinct_sort set_sort)
  ultimately show ?thesis
    using True merge_cases [OF assms(1)] assms(2)
    by (simp del: set_map)
next
  case False
  with merge_cases [OF assms(1)] assms(2) show ?thesis by auto
qed

lemma join_registries_ok:
  assumes "join_registries own global = Inr reg" and "distinct (map fst own)" and "distinct (map fst global)"
  shows "reg = own @ global \<and> distinct (map fst reg)"
  using assms
proof (induction own global arbitrary: reg rule: join_registries.induct)
  case (2 own version m global)
  then have n: "map_of own version = None" and v: "version \<notin> fst ` set own"
    by (auto simp: map_of_eq_None_iff split: if_splits)
  then have "reg = (own @ [(version, m)]) @ global \<and> distinct (map fst reg)"
    using 2 by (intro 2(1)) auto
  then show ?case by (metis append_assoc append_Cons append_Nil)
qed simp

lemma collect_migrations_distinct:
  assumes "collect_migrations (Some fsys) xp xv own dis global = Inr ms"
    and "registry_inv own" and "registry_inv global"
  shows "ms \<noteq> [] \<and> distinct (map Version ms)"
proof -
  let ?s = "all_found xp xv fsys"
  from assms(1) have d: "distinct (source_versions ?s)"
    and c: "collectFilesystemSources (Some fsys) False xp xv = Inr ?s"
    using collect_lenient [of xp xv fsys] by (auto simp: collect_migrations_def split: if_splits)
  obtain gos where g: "(if dis then Inr own else join_registries own global) = Inr gos"
    and m: "fst (merge ?s gos) = Inr ms" and ne: "ms \<noteq> []"
    using assms(1) c by (auto simp: collect_migrations_def split: sum.splits if_splits)
  have "distinct (map fst gos)" "set gos \<subseteq> set own \<union> set global"
    using g assms(2,3) join_registries_ok [of own global gos]
    by (auto simp: registry_inv_def simp del: map_append split: if_splits)
  with d assms(2,3) have mi: "merge_input ?s gos" by (auto simp: merge_input_def registry_inv_def)
  show ?thesis
  proof (cases "goSources ?s = [] \<and> gos = []")
    case True
    with m d have "ms = map newSQLMigration (sqlSources ?s)" by (simp add: merge_def)
    with d ne show ?thesis by (simp add: source_versions_def)
  next
    case False
    with merge_result [OF mi] m ne show ?thesis by (auto split: if_splits)
  qed
qed

section \<open>Properties\<close>

text \<open>
  C24: collecting without the strict flag returns, for each extension, exactly the files in the root
  directory that have a version, are no Go test and are not excluded by name or version; it fails
  exactly when two of them share a version. The branch for any other extension cannot be reached.
\<close>

theorem collectFilesystemSources_exact:
  "if distinct (source_versions (all_found xp xv fsys))
   then collectFilesystemSources (Some fsys) False xp xv = Inr (all_found xp xv fsys)
   else \<exists>e. collectFilesystemSources (Some fsys) False xp xv = Inl e"
  by (rule collect_lenient)

text \<open>
  C21: when Go migrations take part, a successful merge is strictly ascending by version and holds
  one migration for every SQL source and every registered version, with every Go file registered.
  It fails exactly when a Go file is not registered or a version is both in a SQL file and
  registered.
\<close>

theorem merge_sorted_complete:
  assumes "merge_input srcs reg" and "goSources srcs \<noteq> [] \<or> reg \<noteq> []"
  shows "if SVersion ` set (goSources srcs) \<subseteq> fst ` set reg \<and>
            SVersion ` set (sqlSources srcs) \<inter> fst ` set reg = {}
         then \<exists>ms. fst (merge srcs reg) = Inr ms \<and> sorted (map Version ms) \<and> distinct (map Version ms) \<and>
                set (map Version ms) = set (source_versions srcs) \<union> fst ` set reg
         else \<exists>e. fst (merge srcs reg) = Inl e"
  using assms by (rule merge_result)

theorem merge_sorted_complete_witness:
  "\<exists>ms. fst (merge \<lparr>sqlSources = [\<lparr>SType = TypeSQL, SPath = ''3_c.sql'', SVersion = 3\<rparr>], goSources = []\<rparr>
           [(2, NewGoMigration 2 None None)]) = Inr ms \<and> sorted (map Version ms) \<and> distinct (map Version ms) \<and>
     set (map Version ms) = {2, 3}"
  using merge_sorted_complete
    [of "\<lparr>sqlSources = [\<lparr>SType = TypeSQL, SPath = ''3_c.sql'', SVersion = 3\<rparr>], goSources = []\<rparr>"
        "[(2, NewGoMigration 2 None None)]"]
  by (auto simp: merge_input_def source_versions_def)

text \<open>
  Without Go migrations the merge returns before it sorts. The migrations then keep the order of
  the file names, so a version without leading zeros stands before smaller ones, against the
  provider's documented ascending order.
\<close>

theorem sql_only_unsorted:
  "collect_migrations (Some [(''10_b.sql'', f), (''1_a.sql'', f), (''2_c.sql'', f)]) [] [] [] False [] =
     Inr (map newSQLMigration [\<lparr>SType = TypeSQL, SPath = ''10_b.sql'', SVersion = 10\<rparr>,
       \<lparr>SType = TypeSQL, SPath = ''1_a.sql'', SVersion = 1\<rparr>, \<lparr>SType = TypeSQL, SPath = ''2_c.sql'', SVersion = 2\<rparr>])"
proof -
  let ?fs = "[(''10_b.sql'', f), (''1_a.sql'', f), (''2_c.sql'', f)]"
  have "Glob ?fs ''.sql'' = [''10_b.sql'', ''1_a.sql'', ''2_c.sql'']" "Glob ?fs ''.go'' = []"
    by (simp_all add: Glob_def HasSuffix_def slash_def)
  moreover have "selected [] [] ''10_b.sql'' = Some 10" "selected [] [] ''1_a.sql'' = Some 1"
    "selected [] [] ''2_c.sql'' = Some 2" by code_simp+
  ultimately have "all_found [] [] ?fs =
      \<lparr>sqlSources = [\<lparr>SType = TypeSQL, SPath = ''10_b.sql'', SVersion = 10\<rparr>,
         \<lparr>SType = TypeSQL, SPath = ''1_a.sql'', SVersion = 1\<rparr>, \<lparr>SType = TypeSQL, SPath = ''2_c.sql'', SVersion = 2\<rparr>],
       goSources = []\<rparr>"
    by (simp add: all_found_def)
  with collect_lenient [of "[]" "[]" ?fs] show ?thesis
    by (simp add: collect_migrations_def source_versions_def merge_def)
qed

end
