(* ===== verification/Resolve.thy ===== *)
theory Resolve
  imports Goose_Errors
begin

text \<open>
  \<open>internal/gooseutil/resolve.go\<close>: which versions an up operation applies, from the versions on
  the file system, those recorded in the database, a target and the out-of-order flag.
\<close>

fun dbMaxVersion_loop :: "version \<Rightarrow> version list \<Rightarrow> version" where
  "dbMaxVersion_loop m [] = m"
| "dbMaxVersion_loop m (v # vs) = dbMaxVersion_loop (if v > m then v else m) vs"

definition newMissingError :: "version list \<Rightarrow> version \<Rightarrow> version \<Rightarrow> err" where
  "newMissingError missing dbMaxVersion target =
     (let collected = map FormatInt (sort missing);
          msg = ''migration'' @ (if length collected > 1 then ''s'' else '''');
          versionsMsg = (if length collected > 1 then ''versions '' @ Join collected '',''
                         else ''version '' @ (case collected of [] \<Rightarrow> [] | c # _ \<Rightarrow> c));
          desiredMsg = ''database version ('' @ FormatInt dbMaxVersion @ '')'' @
                       (if target \<noteq> MaxInt64 then '', with target version ('' @ FormatInt target @ '')'' else '''')
      in Msg (''detected '' @ FormatNat (length missing) @ '' missing (out-of-order) '' @ msg @
              '' lower than '' @ desiredMsg @ '': '' @ versionsMsg))"

definition UpVersions :: "version list \<Rightarrow> version list \<Rightarrow> version \<Rightarrow> bool \<Rightarrow> err + version list" where
  "UpVersions fsysVersions dbVersions target allowMissing =
     (let fsys = sort fsysVersions;
          dbMaxVersion = dbMaxVersion_loop 0 dbVersions;
          missing = filter (\<lambda>v. v \<notin> set dbVersions \<and> v < dbMaxVersion \<and> v \<le> target) fsys
      in if missing \<noteq> [] \<and> \<not> allowMissing then Inl (newMissingError missing dbMaxVersion target)
         else Inr (sort (missing @
                filter (\<lambda>v. v \<notin> set dbVersions \<and> v > dbMaxVersion \<and> v \<le> target) fsys)))"

lemma dbMaxVersion_loop_max: "dbMaxVersion_loop m vs = fold max vs m"
  by (induction vs arbitrary: m) (auto simp: max_def)

lemma dbMaxVersion_loop_less: "v < dbMaxVersion_loop m vs \<longleftrightarrow> v < m \<or> (\<exists>w\<in>set vs. v < w)"
  by (induction vs arbitrary: m) auto

lemma dbMaxVersion_loop_greater: "dbMaxVersion_loop m vs < v \<longleftrightarrow> m < v \<and> (\<forall>w\<in>set vs. w < v)"
  by (induction vs arbitrary: m) auto

text \<open>A version that is not recorded is below or above the largest recorded one.\<close>

lemma unrecorded_split:
  assumes "v \<notin> set vs" and "1 \<le> v"
  shows "v < dbMaxVersion_loop 0 vs \<or> v > dbMaxVersion_loop 0 vs"
  using assms unfolding dbMaxVersion_loop_less dbMaxVersion_loop_greater by force

lemma UpVersions_set:
  assumes "UpVersions fsys db target allow = Inr out" and "\<forall>v\<in>set fsys. 1 \<le> v"
  shows "set out = {v \<in> set fsys. v \<notin> set db \<and> v \<le> target}"
proof -
  let ?m = "dbMaxVersion_loop 0 db"
  have "out = sort (filter (\<lambda>v. v \<notin> set db \<and> v < ?m \<and> v \<le> target) (sort fsys) @
      filter (\<lambda>v. v \<notin> set db \<and> v > ?m \<and> v \<le> target) (sort fsys))"
    using assms(1) by (simp add: UpVersions_def Let_def split: if_splits)
  then have "set out = {v \<in> set fsys. v \<notin> set db \<and> (v < ?m \<or> v > ?m) \<and> v \<le> target}" by auto
  then show ?thesis using assms(2) unrecorded_split [of _ db] by blast
qed

lemma UpVersions_sorted:
  assumes "UpVersions fsys db target allow = Inr out"
  shows "sorted out" and "distinct fsys \<Longrightarrow> distinct out"
  using assms by (auto simp: UpVersions_def Let_def split: if_splits)

section \<open>Properties\<close>

text \<open>
  C4: \<open>UpVersions\<close> selects exactly the versions that are on the file system, not recorded in the
  database and not above the target, each once and in ascending order.
\<close>

theorem UpVersions_selects_pending:
  assumes "UpVersions fsys db target allow = Inr out"
    and "distinct fsys" and "\<forall>v\<in>set fsys. 1 \<le> v"
  shows "sorted out \<and> distinct out \<and> set out = {v \<in> set fsys. v \<notin> set db \<and> v \<le> target}"
  using UpVersions_sorted [OF assms(1)] UpVersions_set [OF assms(1,3)] assms(2) by simp

theorem UpVersions_selects_pending_witness:
  "sorted [2, 6 :: version] \<and> distinct [2, 6 :: version] \<and>
   set [2, 6] = {v \<in> set [1, 2, 3, 6]. v \<notin> set [3, 1, 0] \<and> v \<le> (MaxInt64 :: version)}"
proof -
  have "UpVersions [1, 2, 3, 6] [3, 1, 0] MaxInt64 True = Inr [2, 6]"
    by (simp add: UpVersions_def MaxInt64_def)
  from UpVersions_selects_pending [OF this] show ?thesis by simp
qed

text \<open>
  C26: for positive versions, \<open>UpVersions\<close> fails exactly when out-of-order migrations are not allowed
  and some unrecorded version that is not above the target lies below a recorded one. With the flag it
  never fails, nor because of an unrecorded version above the target.
\<close>

theorem UpVersions_fails_iff:
  assumes "\<forall>v\<in>set fsys. 1 \<le> v"
  shows "(\<exists>e. UpVersions fsys db target allow = Inl e) \<longleftrightarrow>
     \<not> allow \<and> (\<exists>v\<in>set fsys. v \<notin> set db \<and> v \<le> target \<and> (\<exists>w\<in>set db. v < w))"
  using assms
  by (force simp: UpVersions_def Let_def filter_empty_conv dbMaxVersion_loop_less)

theorem UpVersions_fails_iff_witness:
  "(\<exists>e. UpVersions [1, 2, 3] [3, 1, 0] 5 False = Inl e) \<longleftrightarrow>
     \<not> False \<and> (\<exists>v\<in>set [1, 2, 3 :: version]. v \<notin> set [3, 1, 0] \<and> v \<le> 5 \<and> (\<exists>w\<in>set [3, 1, 0]. v < w))"
  by (rule UpVersions_fails_iff) simp

text \<open>
  Once the selected versions are recorded nothing within the target is pending or missing,
  whichever order they were recorded in and whatever the out-of-order flag is.
\<close>

theorem UpVersions_complete:
  assumes "UpVersions fsys db target allow = Inr out" and "\<forall>v\<in>set fsys. 1 \<le> v"
    and "set db' = set out \<union> set db"
  shows "UpVersions fsys db' target allow' = Inr []"
proof -
  have "\<forall>v\<in>set (sort fsys). v \<in> set db' \<or> \<not> v \<le> target"
    using UpVersions_set [OF assms(1,2)] assms(3) by auto
  then have "filter (\<lambda>v. v \<notin> set db' \<and> P v \<and> v \<le> target) (sort fsys) = []" for P
    by (auto simp: filter_empty_conv)
  then show ?thesis by (simp add: UpVersions_def)
qed

end
