(* ===== verification/Provider_Config.thy ===== *)
theory Provider_Config
  imports Version_Store Collect Resolve
begin

text \<open>
  Configuration of a provider: the structure \<open>config\<close> and the options of \<open>provider_options.go\<close>,
  \<open>NewProvider\<close> and \<open>newProvider\<close> of \<open>provider.go\<close>. A nil argument is \<open>None\<close>; a logger is only a name.
  Options that fail leave no configuration behind, since \<open>NewProvider\<close> then returns nothing.
\<close>

text \<open>The interfaces \<open>SessionLocker\<close> and \<open>Locker\<close> of \<open>lock/locker.go\<close>, on a connection or the database.\<close>

record 'd lock_ops =
  L_Lock :: "'d world \<Rightarrow> err option \<times> 'd world"
  L_Unlock :: "'d world \<Rightarrow> err option \<times> 'd world"

record 'd config =
  tableName :: string
  cfg_store :: "'d store_ops option"
  verbose :: bool
  excludePaths :: "path list"
  excludeVersions :: "version list"
  registered :: registry
  lockEnabled :: bool
  sessionLocker :: "'d lock_ops option"
  locker :: "'d lock_ops option"
  disableVersioning :: bool
  allowMissing :: bool
  disableGlobalRegistry :: bool
  isolateDDL :: bool
  logger :: "string option"
  slogger :: "string option"

definition zero_config :: "'d config" where
  "zero_config =
     \<lparr>tableName = [], cfg_store = None, verbose = False, excludePaths = [], excludeVersions = [], registered = [],
      lockEnabled = False, sessionLocker = None, locker = None, disableVersioning = False, allowMissing = False,
      disableGlobalRegistry = False, isolateDDL = False, logger = None, slogger = None\<rparr>"

section \<open>Options\<close>

definition WithStore :: "'d store_ops option \<Rightarrow> 'd config \<Rightarrow> err + 'd config" where
  "WithStore store c =
     (if cfg_store c \<noteq> None then Inl (Msg ''store already set'')
      else
        (case store of
           None \<Rightarrow> Inl (Msg ''store must not be nil'')
         | Some s \<Rightarrow>
             (if Tablename s = [] then Inl (Msg ''store implementation must set the table name'')
              else Inr (c\<lparr>cfg_store := Some s\<rparr>))))"

definition WithTableName :: "string \<Rightarrow> 'd config \<Rightarrow> err + 'd config" where
  "WithTableName name c =
     (if name = [] then Inl (Msg ''table name must not be empty'') else Inr (c\<lparr>tableName := name\<rparr>))"

definition WithVerbose :: "bool \<Rightarrow> 'd config \<Rightarrow> err + 'd config" where
  "WithVerbose b c = Inr (c\<lparr>verbose := b\<rparr>)"

definition WithSessionLocker :: "'d lock_ops option \<Rightarrow> 'd config \<Rightarrow> err + 'd config" where
  "WithSessionLocker l c =
     (if lockEnabled c then Inl (Msg ''lock already enabled'')
      else if sessionLocker c \<noteq> None then Inl (Msg ''session locker already set'')
      else if locker c \<noteq> None then Inl (Msg ''locker already set; cannot use both SessionLocker and Locker'')
      else if l = None then Inl (Msg ''session locker must not be nil'')
      else Inr (c\<lparr>lockEnabled := True, sessionLocker := l\<rparr>))"

definition WithLocker :: "'d lock_ops option \<Rightarrow> 'd config \<Rightarrow> err + 'd config" where
  "WithLocker l c =
     (if lockEnabled c then Inl (Msg ''lock already enabled'')
      else if locker c \<noteq> None then Inl (Msg ''locker already set'')
      else if sessionLocker c \<noteq> None then Inl (Msg ''session locker already set; cannot use both SessionLocker and Locker'')
      else if l = None then Inl (Msg ''locker must not be nil'')
      else Inr (c\<lparr>lockEnabled := True, locker := l\<rparr>))"

fun WithExcludeNames :: "string list \<Rightarrow> 'd config \<Rightarrow> err + 'd config" where
  "WithExcludeNames [] c = Inr c"
| "WithExcludeNames (name # excludes) c =
     (if name \<in> set (excludePaths c) then Inl (Msg (''duplicate exclude file name: '' @ name))
      else WithExcludeNames excludes (c\<lparr>excludePaths := excludePaths c @ [name]\<rparr>))"

fun WithExcludeVersions :: "version list \<Rightarrow> 'd config \<Rightarrow> err + 'd config" where
  "WithExcludeVersions [] c = Inr c"
| "WithExcludeVersions (v # versions) c =
     (if v < 1 then Inl (Sent ErrInvalidVersion)
      else if v \<in> set (excludeVersions c) then Inl (Msg (''duplicate excludes version: '' @ FormatInt v))
      else WithExcludeVersions versions (c\<lparr>excludeVersions := excludeVersions c @ [v]\<rparr>))"

fun WithGoMigrations :: "Migration list \<Rightarrow> 'd config \<Rightarrow> err + 'd config" where
  "WithGoMigrations [] c = Inr c"
| "WithGoMigrations (m # migrations) c =
     (if map_of (registered c) (Version m) \<noteq> None
      then Inl (Msg (''go migration with version '' @ FormatInt (Version m) @ '' already registered''))
      else
        (case checkGoMigration m of
           Some e \<Rightarrow> Inl (Wrap ''invalid go migration'' e)
         | None \<Rightarrow> WithGoMigrations migrations (c\<lparr>registered := registered c @ [(Version m, m)]\<rparr>)))"

definition WithDisableGlobalRegistry :: "bool \<Rightarrow> 'd config \<Rightarrow> err + 'd config" where
  "WithDisableGlobalRegistry b c = Inr (c\<lparr>disableGlobalRegistry := b\<rparr>)"

definition WithAllowOutofOrder :: "bool \<Rightarrow> 'd config \<Rightarrow> err + 'd config" where
  "WithAllowOutofOrder b c = Inr (c\<lparr>allowMissing := b\<rparr>)"

definition WithDisableVersioning :: "bool \<Rightarrow> 'd config \<Rightarrow> err + 'd config" where
  "WithDisableVersioning b c = Inr (c\<lparr>disableVersioning := b\<rparr>)"

definition WithLogger :: "string option \<Rightarrow> 'd config \<Rightarrow> err + 'd config" where
  "WithLogger l c =
     (if l = None then Inl (Msg ''logger must not be nil'')
      else if slogger c \<noteq> None then Inl (Msg ''cannot use both WithLogger and WithSlog'')
      else Inr (c\<lparr>logger := l\<rparr>))"

definition WithSlog :: "string option \<Rightarrow> 'd config \<Rightarrow> err + 'd config" where
  "WithSlog l c =
     (if l = None then Inl (Msg ''slog logger must not be nil'')
      else if logger c \<noteq> None then Inl (Msg ''cannot use both WithLogger and WithSlog'')
      else Inr (c\<lparr>slogger := l\<rparr>))"

definition WithIsolateDDL :: "bool \<Rightarrow> 'd config \<Rightarrow> err + 'd config" where
  "WithIsolateDDL b c = Inr (c\<lparr>isolateDDL := b\<rparr>)"

text \<open>The values of the interface \<open>ProviderOption\<close>, one constructor per function that makes one.\<close>

datatype 'd ProviderOption =
    OptStore "'d store_ops option" | OptTableName string | OptVerbose bool
  | OptSessionLocker "'d lock_ops option" | OptLocker "'d lock_ops option"
  | OptExcludeNames "string list" | OptExcludeVersions "version list" | OptGoMigrations "Migration list"
  | OptDisableGlobalRegistry bool | OptAllowOutofOrder bool | OptDisableVersioning bool
  | OptLogger "string option" | OptSlog "string option" | OptIsolateDDL bool

fun apply_option :: "'d ProviderOption \<Rightarrow> 'd config \<Rightarrow> err + 'd config" where
  "apply_option (OptStore s) = WithStore s"
| "apply_option (OptTableName n) = WithTableName n"
| "apply_option (OptVerbose b) = WithVerbose b"
| "apply_option (OptSessionLocker l) = WithSessionLocker l"
| "apply_option (OptLocker l) = WithLocker l"
| "apply_option (OptExcludeNames ns) = WithExcludeNames ns"
| "apply_option (OptExcludeVersions vs) = WithExcludeVersions vs"
| "apply_option (OptGoMigrations ms) = WithGoMigrations ms"
| "apply_option (OptDisableGlobalRegistry b) = WithDisableGlobalRegistry b"
| "apply_option (OptAllowOutofOrder b) = WithAllowOutofOrder b"
| "apply_option (OptDisableVersioning b) = WithDisableVersioning b"
| "apply_option (OptLogger l) = WithLogger l"
| "apply_option (OptSlog l) = WithSlog l"
| "apply_option (OptIsolateDDL b) = WithIsolateDDL b"

fun apply_options :: "'d ProviderOption list \<Rightarrow> 'd config \<Rightarrow> err + 'd config" where
  "apply_options [] c = Inr c"
| "apply_options (opt # opts) c =
     (case apply_option opt c of Inl e \<Rightarrow> Inl e | Inr c' \<Rightarrow> apply_options opts c')"

section \<open>NewProvider\<close>

text \<open>
  The packages go-retry, multierr and errgroup, the environment, the database server and the limit
  on open connections are parameters of a provider: \<open>p_retry\<close> is \<open>retry.Do\<close> with the back-off goose
  gives it, applied to a function that ends, asks for another try or fails for good.
\<close>

datatype attempt = Ended | Retryable err | Permanent err

record 'd host =
  p_engine :: "'d engine"
  p_ext :: ext
  p_retry :: "('d world \<Rightarrow> attempt \<times> 'd world) \<Rightarrow> 'd world \<Rightarrow> err option \<times> 'd world"
  p_maxOpen :: nat

text \<open>
  What is documented of \<open>retry.Do\<close> with three retries: it calls the function until it ends, fails for
  good or has been retried three times. A cancelled context may stop it before any call.
\<close>

fun attempts :: "nat \<Rightarrow> ('w \<Rightarrow> attempt \<times> 'w) \<Rightarrow> 'w \<Rightarrow> err option \<times> 'w" where
  "attempts 0 f w =
     (case f w of (Ended, w') \<Rightarrow> (None, w') | (Retryable e, w') \<Rightarrow> (Some e, w') | (Permanent e, w') \<Rightarrow> (Some e, w'))"
| "attempts (Suc k) f w =
     (case f w of (Ended, w') \<Rightarrow> (None, w') | (Retryable e, w') \<Rightarrow> attempts k f w' | (Permanent e, w') \<Rightarrow> (Some e, w'))"

definition retry_laws :: "'d host \<Rightarrow> bool" where
  "retry_laws host \<longleftrightarrow> (\<forall>f w. (\<exists>e. p_retry host f w = (Some e, w)) \<or>
     (\<exists>k\<le>3. snd (p_retry host f w) = snd (attempts k f w) \<and>
        (fst (p_retry host f w) = None \<longleftrightarrow> fst (attempts k f w) = None)))"

definition retry_uncancelled :: "'d host \<Rightarrow> bool" where
  "retry_uncancelled host \<longleftrightarrow> (\<forall>f w. p_retry host f w = attempts 3 f w)"

text \<open>
  The fields of \<open>Provider\<close> that stay as they are, and those that operations change: the mutex, the
  \<open>sync.Once\<close> of the version table, the migrations (SQL files are parsed lazily) and the database.
\<close>

record 'd provider =
  p_host :: "'d host"
  p_store :: "'d store_ops"
  p_fsys :: fs
  p_cfg :: "'d config"

record 'd pstate =
  pw :: "'d world"
  mu :: bool
  versionTableOnce :: bool
  migrations :: "Migration list"

definition DefaultTablename :: string where
  "DefaultTablename = ''goose_db_version''"

definition newProvider ::
    "'d host \<Rightarrow> 'd world \<Rightarrow> 'd store_ops \<Rightarrow> fs \<Rightarrow> 'd config \<Rightarrow> registry \<Rightarrow> err + ('d provider \<times> 'd pstate)" where
  "newProvider host w store fsys cfg global =
     (case collect_migrations (Some fsys) (excludePaths cfg) (excludeVersions cfg) (registered cfg)
             (disableGlobalRegistry cfg) global of
        Inl e \<Rightarrow> Inl e
      | Inr ms \<Rightarrow>
          Inr (\<lparr>p_host = host, p_store = store, p_fsys = fsys, p_cfg = cfg\<rparr>,
               \<lparr>pw = w, mu = False, versionTableOnce = False, migrations = ms\<rparr>))"

definition NewProvider ::
    "'d host \<Rightarrow> Dialect \<Rightarrow> 'd world option \<Rightarrow> fs option \<Rightarrow> 'd ProviderOption list \<Rightarrow> registry \<Rightarrow>
     err + ('d provider \<times> 'd pstate)" where
  "NewProvider host dialect db fsys opts global =
     (case db of
        None \<Rightarrow> Inl (Msg ''db must not be nil'')
      | Some w \<Rightarrow>
          (let fsys' = (case fsys of None \<Rightarrow> [] | Some f \<Rightarrow> f)
           in case apply_options opts zero_config of
                Inl e \<Rightarrow> Inl e
              | Inr cfg \<Rightarrow>
                  (if dialect = DialectCustom \<and> cfg_store cfg = None
                   then Inl (Msg ''custom store must be supplied when using a custom dialect, make sure to pass WithStore option'')
                   else if dialect \<noteq> DialectCustom \<and> cfg_store cfg \<noteq> None
                   then Inl (Msg ''custom store must not be specified when using one of the default dialects, use DialectCustom instead'')
                   else if tableName cfg \<noteq> [] \<and> cfg_store cfg \<noteq> None
                   then Inl (Msg ''WithTableName cannot be used with WithStore; set the table name directly on your custom store'')
                   else
                     (let cfg' = (if slogger cfg = None \<and> logger cfg = None then cfg\<lparr>logger := Some ''std''\<rparr> else cfg)
                      in case (if dialect \<noteq> []
                               then
                                 (case NewStore dialect (if tableName cfg' \<noteq> [] then tableName cfg' else DefaultTablename) of
                                    Inl e \<Rightarrow> Inl e
                                  | Inr (t, q) \<Rightarrow> Inr (default_store (p_engine host) t q))
                               else Inr (the (cfg_store cfg'))) of
                           Inl e \<Rightarrow> Inl e
                         | Inr store \<Rightarrow>
                             (if Tablename store = []
                              then Inl (Msg ''invalid store implementation: table name must not be empty'')
                              else newProvider host w store fsys' cfg' global)))))"

section \<open>Lemmas\<close>

definition config_inv :: "'d config \<Rightarrow> bool" where
  "config_inv c \<longleftrightarrow>
     (lockEnabled c \<longleftrightarrow> sessionLocker c \<noteq> None \<or> locker c \<noteq> None) \<and>
     (sessionLocker c = None \<or> locker c = None) \<and>
     (logger c = None \<or> slogger c = None) \<and>
     (case cfg_store c of None \<Rightarrow> True | Some s \<Rightarrow> Tablename s \<noteq> []) \<and>
     distinct (excludePaths c) \<and> distinct (excludeVersions c) \<and> (\<forall>v\<in>set (excludeVersions c). 1 \<le> v) \<and>
     registry_inv (registered c) \<and> (\<forall>(v, m)\<in>set (registered c). checkGoMigration m = None)"

lemma WithExcludeNames_inv: "config_inv c \<Longrightarrow> WithExcludeNames ns c = Inr c' \<Longrightarrow> config_inv c'"
proof (induction ns c rule: WithExcludeNames.induct)
  case (2 name excludes c)
  then have "config_inv (c\<lparr>excludePaths := excludePaths c @ [name]\<rparr>)"
    by (auto simp: config_inv_def split: if_splits)
  with 2 show ?case by (auto split: if_splits)
qed simp

lemma WithExcludeVersions_inv: "config_inv c \<Longrightarrow> WithExcludeVersions vs c = Inr c' \<Longrightarrow> config_inv c'"
proof (induction vs c rule: WithExcludeVersions.induct)
  case (2 v versions c)
  then have "config_inv (c\<lparr>excludeVersions := excludeVersions c @ [v]\<rparr>)"
    by (auto simp: config_inv_def split: if_splits)
  with 2 show ?case by (auto split: if_splits)
qed simp

lemma WithGoMigrations_Cons:
  "WithGoMigrations (m # ms) c = Inr c' \<longleftrightarrow> map_of (registered c) (Version m) = None \<and> checkGoMigration m = None \<and>
     WithGoMigrations ms (c\<lparr>registered := registered c @ [(Version m, m)]\<rparr>) = Inr c'"
  by (simp split: option.split)

lemma WithGoMigrations_inv: "config_inv c \<Longrightarrow> WithGoMigrations ms c = Inr c' \<Longrightarrow> config_inv c'"
proof (induction ms arbitrary: c)
  case (Cons m ms)
  note ok = Cons.prems(2) [unfolded WithGoMigrations_Cons]
  have "registry_inv (registered c @ [(Version m, m)])"
    using Cons.prems(1) ok checkGoMigration_ok [of m] by (intro registry_inv_snoc) (simp_all add: config_inv_def)
  with Cons.prems(1) ok have "config_inv (c\<lparr>registered := registered c @ [(Version m, m)]\<rparr>)"
    by (simp add: config_inv_def)
  with Cons.IH ok show ?case by blast
qed simp

lemmas simple_option_defs = WithStore_def WithTableName_def WithVerbose_def WithSessionLocker_def WithLocker_def
  WithDisableGlobalRegistry_def WithAllowOutofOrder_def WithDisableVersioning_def WithLogger_def WithSlog_def
  WithIsolateDDL_def

lemma apply_option_inv:
  assumes "config_inv c" and "apply_option opt c = Inr c'"
  shows "config_inv c'"
proof (cases opt)
  case (OptStore s)
  then show ?thesis
    using assms by (cases s) (simp_all add: WithStore_def config_inv_def split: if_splits, clarsimp)
next
  case (OptExcludeNames ns)
  with assms show ?thesis by (simp add: WithExcludeNames_inv)
next
  case (OptExcludeVersions vs)
  with assms show ?thesis by (simp add: WithExcludeVersions_inv)
next
  case (OptGoMigrations ms)
  with assms show ?thesis by (simp add: WithGoMigrations_inv)
qed (use assms in \<open>clarsimp simp: simple_option_defs config_inv_def split: if_splits\<close>)+

lemma zero_config_inv: "config_inv zero_config"
  by (simp add: config_inv_def zero_config_def registry_inv_def)

lemma apply_options_inv: "config_inv c \<Longrightarrow> apply_options opts c = Inr c' \<Longrightarrow> config_inv c'"
  by (induction opts c rule: apply_options.induct) (auto split: sum.splits dest: apply_option_inv)

lemma NewProvider_newProvider:
  assumes "NewProvider host dialect db fsys opts global = Inr ps" and "db = Some w"
    and "apply_options opts zero_config = Inr cfg0"
  shows "\<exists>cfg store f. cfg \<in> {cfg0, cfg0\<lparr>logger := Some ''std''\<rparr>} \<and> Tablename store \<noteq> [] \<and>
     newProvider host w store f cfg global = Inr ps"
proof -
  define cfg where "cfg = (if slogger cfg0 = None \<and> logger cfg0 = None then cfg0\<lparr>logger := Some ''std''\<rparr> else cfg0)"
  define sel where "sel = (if dialect \<noteq> []
       then (case NewStore dialect (if tableName cfg \<noteq> [] then tableName cfg else DefaultTablename) of
               Inl e \<Rightarrow> Inl e | Inr (t, q) \<Rightarrow> Inr (default_store (p_engine host) t q))
       else Inr (the (cfg_store cfg)))"
  have "(case sel of Inl e \<Rightarrow> Inl e
         | Inr store \<Rightarrow>
             (if Tablename store = [] then Inl (Msg ''invalid store implementation: table name must not be empty'')
              else newProvider host w store (case fsys of None \<Rightarrow> [] | Some f \<Rightarrow> f) cfg global)) = Inr ps"
    using assms(1)
    unfolding assms(2) NewProvider_def option.case Let_def assms(3) sum.case cfg_def [symmetric] sel_def [symmetric]
    by (simp split: if_splits)
  moreover have "cfg \<in> {cfg0, cfg0\<lparr>logger := Some ''std''\<rparr>}" by (simp add: cfg_def)
  ultimately show ?thesis by (cases sel) (auto split: if_splits)
qed

section \<open>Properties\<close>

text \<open>
  A configuration built from any list of options has locking enabled exactly when it has a
  locker, never both kinds of locker, never both kinds of logger, no store without a table name,
  and no exclusion or Go migration twice; every Go migration in it has passed the check.
\<close>

theorem options_config_invariant:
  assumes "apply_options opts zero_config = Inr c"
  shows "(lockEnabled c \<longleftrightarrow> sessionLocker c \<noteq> None \<or> locker c \<noteq> None) \<and>
     (sessionLocker c = None \<or> locker c = None) \<and> (logger c = None \<or> slogger c = None) \<and>
     (case cfg_store c of None \<Rightarrow> True | Some s \<Rightarrow> Tablename s \<noteq> []) \<and>
     distinct (excludePaths c) \<and> distinct (excludeVersions c) \<and>
     distinct (map fst (registered c)) \<and> (\<forall>(v, m)\<in>set (registered c). Version m = v \<and> checkGoMigration m = None)"
  using apply_options_inv [OF zero_config_inv assms] unfolding config_inv_def registry_inv_def by auto

text \<open>
  C30: a provider that \<open>NewProvider\<close> returns has at least one migration, one per version, over a store
  with a table name, and its mutex is free. (The global registry is one a program can build.)
\<close>

theorem NewProvider_well_formed:
  assumes "NewProvider host dialect db fsys opts global = Inr (p, s)" and "registry_of global"
  shows "migrations s \<noteq> [] \<and> distinct (map Version (migrations s)) \<and> Tablename (p_store p) \<noteq> [] \<and>
     \<not> mu s \<and> \<not> versionTableOnce s \<and> db = Some (pw s)"
proof -
  obtain w where w: "db = Some w" using assms(1) by (cases db) (simp_all add: NewProvider_def)
  obtain cfg0 where c0: "apply_options opts zero_config = Inr cfg0"
    using assms(1) w by (cases "apply_options opts zero_config") (simp_all add: NewProvider_def Let_def)
  obtain cfg store f where cfg: "cfg \<in> {cfg0, cfg0\<lparr>logger := Some ''std''\<rparr>}"
    and t: "Tablename store \<noteq> []" and np: "newProvider host w store f cfg global = Inr (p, s)"
    using NewProvider_newProvider [OF assms(1) w c0] by blast
  have "config_inv cfg0" using apply_options_inv zero_config_inv c0 by blast
  with cfg have "registry_inv (registered cfg)" by (auto simp: config_inv_def)
  moreover have "registry_inv global" using assms(2) by (rule registry_of_inv)
  moreover obtain ms where "collect_migrations (Some f) (excludePaths cfg) (excludeVersions cfg) (registered cfg)
      (disableGlobalRegistry cfg) global = Inr ms"
    using np by (simp add: newProvider_def split: sum.splits)
  ultimately show ?thesis
    using np w t collect_migrations_distinct [of f _ _ _ _ global ms] by (auto simp: newProvider_def)
qed


text \<open>An instance of the parameters.\<close>

definition ref_host :: "ref_db host" where
  "ref_host = \<lparr>p_engine = ref_engine NewPostgres ''goose_db_version'', p_ext = ref_ext, p_retry = attempts 3, p_maxOpen = 0\<rparr>"

definition ref_world :: "ref_db world" where
  "ref_world = \<lparr>committed = (None, []), txn = None, faults = [], conns = 0\<rparr>"

definition ref_store :: "ref_db store_ops" where
  "ref_store = default_store (ref_engine NewPostgres ''goose_db_version'') ''goose_db_version'' NewPostgres"

lemma ref_host_retry: "retry_laws ref_host" "retry_uncancelled ref_host"
  by (auto simp: retry_laws_def retry_uncancelled_def ref_host_def)

definition sql_file :: "string list \<Rightarrow> err + go_file" where
  "sql_file ls = Inr \<lparr>f_reader = (unlines ls, None), f_close = None\<rparr>"

theorem NewProvider_well_formed_witness:
  "\<exists>p s. NewProvider ref_host ''postgres'' (Some ref_world)
      (Some [(''1_a.sql'', sql_file [lineUp, ''SELECT 1;''])]) [] [] = Inr (p, s) \<and>
    migrations s \<noteq> [] \<and> distinct (map Version (migrations s)) \<and> Tablename (p_store p) \<noteq> [] \<and> \<not> mu s"
proof -
  let ?fs = "[(''1_a.sql'', sql_file [lineUp, ''SELECT 1;''])]"
  have "collect_migrations (Some ?fs) [] [] [] False [] =
      Inr [newSQLMigration \<lparr>SType = TypeSQL, SPath = ''1_a.sql'', SVersion = 1\<rparr>]"
    by code_simp
  then obtain p s where np: "NewProvider ref_host ''postgres'' (Some ref_world) (Some ?fs) [] [] = Inr (p, s)"
    by (simp add: NewProvider_def zero_config_def DialectCustom_def NewStore_def builtin_queriers_def
        NewStoreFromQuerier_def DefaultTablename_def default_store_def newProvider_def)
  have "registry_of []" using registry_of.reset by (simp add: ResetGlobalMigrations_def)
  from NewProvider_well_formed [OF np this] np show ?thesis by blast
qed

end
