(* ===== verification/Provider_Run.thy ===== *)
theory Provider_Run
  imports Provider_Config
begin

text \<open>
  Running migrations: \<open>provider_run.go\<close>, one definition per function, and the two places where a
  provider asks for the maximal version. Log output is left out. A provider works alone on its
  database: transactions of other processes are not interleaved with its own.
\<close>

section \<open>Transactions and connections of database/sql\<close>

definition BeginTx :: "'d world \<Rightarrow> err option \<times> 'd world" where
  "BeginTx w =
     (case next_fault w of
        (Healthy, w1) \<Rightarrow> (None, w1\<lparr>txn := Some (committed w1)\<rparr>)
      | (Fails e, w1) \<Rightarrow> (Some (Msg e), w1)
      | (Lost e, w1) \<Rightarrow> (Some (Msg e), w1))"

text \<open>After \<open>Commit\<close> the transaction is done, even if it failed; the server may still have committed.\<close>

definition Commit :: "'d world \<Rightarrow> err option \<times> 'd world" where
  "Commit w =
     (case txn w of
        None \<Rightarrow> (Some (Sent ErrTxDone), w)
      | Some d \<Rightarrow>
          (case next_fault w of
             (Healthy, w1) \<Rightarrow> (None, w1\<lparr>committed := d, txn := None\<rparr>)
           | (Fails e, w1) \<Rightarrow> (Some (Msg e), w1\<lparr>txn := None\<rparr>)
           | (Lost e, w1) \<Rightarrow> (Some (Msg e), w1\<lparr>committed := d, txn := None\<rparr>)))"

definition Rollback :: "'d world \<Rightarrow> err option \<times> 'd world" where
  "Rollback w =
     (case txn w of
        None \<Rightarrow> (Some (Sent ErrTxDone), w)
      | Some d \<Rightarrow>
          (case next_fault w of
             (Healthy, w1) \<Rightarrow> (None, w1\<lparr>txn := None\<rparr>)
           | (Fails e, w1) \<Rightarrow> (Some (Msg e), w1\<lparr>txn := None\<rparr>)
           | (Lost e, w1) \<Rightarrow> (Some (Msg e), w1\<lparr>txn := None\<rparr>)))"

definition db_Conn :: "'d world \<Rightarrow> err option \<times> 'd world" where
  "db_Conn w =
     (case next_fault w of
        (Healthy, w1) \<Rightarrow> (None, w1\<lparr>conns := conns w1 + 1\<rparr>)
      | (Fails e, w1) \<Rightarrow> (Some (Msg e), w1)
      | (Lost e, w1) \<Rightarrow> (Some (Msg e), w1))"

definition conn_Close :: "'d world \<Rightarrow> err option \<times> 'd world" where
  "conn_Close w =
     (case next_fault w of
        (Healthy, w1) \<Rightarrow> (None, w1\<lparr>conns := conns w1 - 1\<rparr>)
      | (Fails e, w1) \<Rightarrow> (Some (Msg e), w1\<lparr>conns := conns w1 - 1\<rparr>)
      | (Lost e, w1) \<Rightarrow> (Some (Msg e), w1\<lparr>conns := conns w1 - 1\<rparr>))"

definition beginTx :: "'d provider \<Rightarrow> ('d world \<Rightarrow> err option \<times> 'd world) \<Rightarrow> 'd world \<Rightarrow> err option \<times> 'd world" where
  "beginTx p fn w =
     (case BeginTx w of
        (Some e, w1) \<Rightarrow> (Some e, w1)
      | (None, w1) \<Rightarrow>
          (let (retErr, w2) = (case fn w1 of (Some e, w2) \<Rightarrow> (Some e, w2) | (None, w2) \<Rightarrow> Commit w2)
           in if retErr \<noteq> None
              then (let (r, w3) = Rollback w2 in (multierr_append (p_ext (p_host p)) retErr r, w3))
              else (None, w2)))"

section \<open>One migration\<close>

text \<open>The file of a SQL migration is parsed once; the result is kept in the migration.\<close>

definition prepareMigration :: "'d provider \<Rightarrow> Migration \<Rightarrow> bool \<Rightarrow> err + Migration" where
  "prepareMigration p m direction =
     (case Type m of
        TypeGo \<Rightarrow>
          (if Mode (goUp m) = ModeUnset then Inl (Msg ''go up migration mode is not set'')
           else if Mode (goDown m) = ModeUnset then Inl (Msg ''go down migration mode is not set'')
           else
             (let useTx = (if direction then Mode (goUp m) = TransactionEnabled else Mode (goDown m) = TransactionEnabled)
              in if lockEnabled (p_cfg p) \<and> sessionLocker (p_cfg p) \<noteq> None \<and> p_maxOpen (p_host p) = 1 \<and> \<not> useTx
                 then Inl (Msg ''potential deadlock detected: cannot run Go migration without a transaction when max open connections set to 1'')
                 else Inr m))
      | TypeSQL \<Rightarrow>
          (if Parsed (sql m) then Inr m
           else
             (case ParseAllFromFS (p_ext (p_host p)) (p_fsys p) (MSourcePath m) of
                Inl e \<Rightarrow> Inl e
              | Inr parsed \<Rightarrow>
                  Inr (m\<lparr>sql := \<lparr>Parsed = True, SqlUseTx = P_UseTx parsed, SqlUp = P_Up parsed,
                                 SqlDown = P_Down parsed\<rparr>\<rparr>)))
      | TypeNone \<Rightarrow> Inl (Msg (''invalid migration type: '' @ MSourcePath m)))"

definition useTx :: "Migration \<Rightarrow> bool \<Rightarrow> err + bool" where
  "useTx m direction =
     (case Type m of
        TypeGo \<Rightarrow>
          (if Mode (goUp m) = ModeUnset \<or> Mode (goDown m) = ModeUnset
           then Inl (Msg ''go migrations must have a mode set'')
           else if direction then Inr (Mode (goUp m) = TransactionEnabled)
           else Inr (Mode (goDown m) = TransactionEnabled))
      | TypeSQL \<Rightarrow>
          (if \<not> Parsed (sql m) then Inl (Msg ''sql migrations must be parsed'') else Inr (SqlUseTx (sql m)))
      | TypeNone \<Rightarrow> Inl (Msg (''use tx: invalid migration type: '' @ Quote '''')))"

definition isEmpty :: "Migration \<Rightarrow> bool \<Rightarrow> bool" where
  "isEmpty m direction =
     (case Type m of
        TypeGo \<Rightarrow>
          (if direction then RunTx (goUp m) = None \<and> RunDB (goUp m) = None
           else RunTx (goDown m) = None \<and> RunDB (goDown m) = None)
      | TypeSQL \<Rightarrow> (if direction then SqlUp (sql m) = [] else SqlDown (sql m) = [])
      | TypeNone \<Rightarrow> True)"

text \<open>A call of a user's function; a panic is recovered in \<open>runGo\<close> and becomes an error.\<close>

definition call_go :: "'d provider \<Rightarrow> handle \<Rightarrow> gofn option \<Rightarrow> 'd world \<Rightarrow> err option \<times> 'd world" where
  "call_go p h fn w =
     (case fn of
        None \<Rightarrow> (None, w)
      | Some f \<Rightarrow>
          (case e_go (p_engine (p_host p)) f (cur h w) of
             (Returns r, d) \<Rightarrow> (r, put h d w)
           | (Panics msg, d) \<Rightarrow> (Some (Msg (''panic: '' @ msg)), put h d w)))"

definition runGo :: "'d provider \<Rightarrow> handle \<Rightarrow> Migration \<Rightarrow> bool \<Rightarrow> 'd world \<Rightarrow> err option \<times> 'd world" where
  "runGo p h m direction w =
     (case h of
        HConn \<Rightarrow> (Some (Msg ''go migrations are not supported with *sql.Conn''), w)
      | HDB \<Rightarrow> call_go p h (if direction then RunDB (goUp m) else RunDB (goDown m)) w
      | HTx \<Rightarrow> call_go p h (if direction then RunTx (goUp m) else RunTx (goDown m)) w)"

fun exec_statements :: "'d engine \<Rightarrow> handle \<Rightarrow> string list \<Rightarrow> 'd world \<Rightarrow> err option \<times> 'd world" where
  "exec_statements eng h [] w = (None, w)"
| "exec_statements eng h (stmt # statements) w =
     (case ExecContext eng h stmt [] w of
        (Some e, w') \<Rightarrow> (Some e, w')
      | (None, w') \<Rightarrow> exec_statements eng h statements w')"

definition runSQL :: "'d provider \<Rightarrow> handle \<Rightarrow> Migration \<Rightarrow> bool \<Rightarrow> 'd world \<Rightarrow> err option \<times> 'd world" where
  "runSQL p h m direction w =
     (if \<not> Parsed (sql m) then (Some (Msg ''sql migrations must be parsed''), w)
      else exec_statements (p_engine (p_host p)) h (if direction then SqlUp (sql m) else SqlDown (sql m)) w)"

definition runMigration :: "'d provider \<Rightarrow> handle \<Rightarrow> Migration \<Rightarrow> bool \<Rightarrow> 'd world \<Rightarrow> err option \<times> 'd world" where
  "runMigration p h m direction w =
     (case Type m of
        TypeGo \<Rightarrow> runGo p h m direction w
      | TypeSQL \<Rightarrow> runSQL p h m direction w
      | TypeNone \<Rightarrow> (Some (Msg (''invalid migration type: '' @ Quote '''')), w))"

definition maybeInsertOrDelete ::
    "'d provider \<Rightarrow> handle \<Rightarrow> version \<Rightarrow> bool \<Rightarrow> 'd world \<Rightarrow> err option \<times> 'd world" where
  "maybeInsertOrDelete p h version direction w =
     (if disableVersioning (p_cfg p) then (None, w)
      else if direction then Insert (p_store p) h version w
      else Delete (p_store p) h version w)"

definition run_and_record ::
    "'d provider \<Rightarrow> handle \<Rightarrow> Migration \<Rightarrow> bool \<Rightarrow> 'd world \<Rightarrow> err option \<times> 'd world" where
  "run_and_record p h m direction w =
     (case runMigration p h m direction w of
        (Some e, w1) \<Rightarrow> (Some e, w1)
      | (None, w1) \<Rightarrow> maybeInsertOrDelete p h (Version m) direction w1)"

definition runIndividually :: "'d provider \<Rightarrow> Migration \<Rightarrow> bool \<Rightarrow> 'd world \<Rightarrow> err option \<times> 'd world" where
  "runIndividually p m direction w =
     (case useTx m direction of
        Inl e \<Rightarrow> (Some e, w)
      | Inr tx \<Rightarrow>
          (if tx \<and> \<not> isolateDDL (p_cfg p) then beginTx p (run_and_record p HTx m direction) w
           else
             (case Type m of
                TypeGo \<Rightarrow> run_and_record p HDB m direction w
              | TypeSQL \<Rightarrow> run_and_record p HConn m direction w
              | TypeNone \<Rightarrow> (Some (Msg ''failed to run individual migration: neither sql or go''), w))))"

section \<open>A list of migrations\<close>

definition max_version :: "'d provider \<Rightarrow> 'd world \<Rightarrow> (err + version) \<times> 'd world" where
  "max_version p w =
     (case GetLatestVersion (p_store p) HConn w of
        (Inr latest, w') \<Rightarrow> (Inr latest, w')
      | (Inl e, w') \<Rightarrow>
          (if errors_Is e DBErrVersionNotFound then (Inl (Sent ErrMissingZeroVersion), w') else (Inl e, w')))"

definition source_of :: "Migration \<Rightarrow> Source" where
  "source_of m = \<lparr>SType = Type m, SPath = MSourcePath m, SVersion = Version m\<rparr>"

definition result_of :: "Migration \<Rightarrow> Direction \<Rightarrow> err option \<Rightarrow> MigrationResult" where
  "result_of m direction e =
     MigrationResult (source_of m) (Direction_String direction) (isEmpty m (ToBool direction)) e"

text \<open>
  The first loop prepares all migrations. They are pointers into the provider's list, so those
  prepared before a failure stay parsed there: the second result.
\<close>

fun prepare_all :: "'d provider \<Rightarrow> bool \<Rightarrow> Migration list \<Rightarrow> err option \<times> Migration list" where
  "prepare_all p direction [] = (None, [])"
| "prepare_all p direction (m # ms) =
     (case prepareMigration p m direction of
        Inl e \<Rightarrow> (Some (Wrap (''failed to prepare migration '' @ ref m) e), m # ms)
      | Inr m' \<Rightarrow> (let (e, ms') = prepare_all p direction ms in (e, m' # ms')))"

fun run_all ::
    "'d provider \<Rightarrow> Direction \<Rightarrow> Migration list \<Rightarrow> MigrationResult list \<Rightarrow> 'd world \<Rightarrow>
     (err + MigrationResult list) \<times> 'd world" where
  "run_all p direction [] results w = (Inr results, w)"
| "run_all p direction (m # ms) results w =
     (case runIndividually p m (ToBool direction) w of
        (Some e, w') \<Rightarrow> (Inl (PartialError results (result_of m direction (Some e)) e), w')
      | (None, w') \<Rightarrow> run_all p direction ms (results @ [result_of m direction None]) w')"

definition write_back :: "Migration list \<Rightarrow> Migration list \<Rightarrow> Migration list" where
  "write_back prepared ms =
     map (\<lambda>m. case find (\<lambda>m'. Version m' = Version m) prepared of None \<Rightarrow> m | Some m' \<Rightarrow> m') ms"

definition runMigrations ::
    "'d provider \<Rightarrow> Migration list \<Rightarrow> Direction \<Rightarrow> bool \<Rightarrow> 'd pstate \<Rightarrow> (err + MigrationResult list) \<times> 'd pstate" where
  "runMigrations p ms direction byOne s =
     (if ms = [] then
        (if \<not> disableVersioning (p_cfg p)
         then
           (case max_version p (pw s) of
              (Inl e, w') \<Rightarrow> (Inl e, s\<lparr>pw := w'\<rparr>)
            | (Inr _, w') \<Rightarrow> (Inr [], s\<lparr>pw := w'\<rparr>))
         else (Inr [], s))
      else
        (let app = (if byOne then take 1 ms else ms);
             (perr, prepared) = prepare_all p (ToBool direction) app;
             s1 = s\<lparr>migrations := write_back prepared (migrations s)\<rparr>
         in case perr of
              Some e \<Rightarrow> (Inl e, s1)
            | None \<Rightarrow>
                (case run_all p direction prepared [] (pw s1) of
                   (Inl e, w') \<Rightarrow> (Inl e, s1\<lparr>pw := w'\<rparr>)
                 | (Inr results, w') \<Rightarrow>
                     (if \<not> disableVersioning (p_cfg p) \<and> \<not> byOne
                      then
                        (case max_version p w' of
                           (Inl e, w'') \<Rightarrow> (Inl e, s1\<lparr>pw := w''\<rparr>)
                         | (Inr _, w'') \<Rightarrow> (Inr results, s1\<lparr>pw := w''\<rparr>))
                      else (Inr results, s1\<lparr>pw := w'\<rparr>)))))"

section \<open>Initialisation and cleanup\<close>

text \<open>
  One try at ensuring the version table. The table and its zero version are created in one
  transaction, or one after the other if DDL is isolated.
\<close>

definition create_in_tx :: "'d provider \<Rightarrow> 'd world \<Rightarrow> err option \<times> 'd world" where
  "create_in_tx p w =
     (case CreateVersionTable (p_store p) HTx w of
        (Some e, w1) \<Rightarrow> (Some e, w1)
      | (None, w1) \<Rightarrow> Insert (p_store p) HTx 0 w1)"

definition create_version_table :: "'d provider \<Rightarrow> 'd world \<Rightarrow> attempt \<times> 'd world" where
  "create_version_table p w =
     (if isolateDDL (p_cfg p)
      then
        (case CreateVersionTable (p_store p) HConn w of
           (Some e, w1) \<Rightarrow> (Retryable (Wrap ''create version table'' e), w1)
         | (None, w1) \<Rightarrow>
             (case Insert (p_store p) HConn 0 w1 of
                (Some e, w2) \<Rightarrow> (Retryable (Wrap ''insert zero version'' e), w2)
              | (None, w2) \<Rightarrow> (Ended, w2)))
      else
        (case beginTx p (create_in_tx p) w of
           (Some e, w1) \<Rightarrow> (Retryable (Wrap ''create version table'' e), w1)
         | (None, w1) \<Rightarrow> (Ended, w1)))"

definition ensure_attempt :: "'d provider \<Rightarrow> 'd world \<Rightarrow> attempt \<times> 'd world" where
  "ensure_attempt p w =
     (case controller_TableExists (p_store p) HConn w of
        (Inr True, w1) \<Rightarrow> (Ended, w1)
      | (Inr False, w1) \<Rightarrow> create_version_table p w1
      | (Inl e, w1) \<Rightarrow>
          (if errors_Is e ErrUnsupported
           then
             (case GetMigration (p_store p) HConn 0 w1 of
                (Inr _, w2) \<Rightarrow> (Ended, w2)
              | (Inl _, w2) \<Rightarrow> create_version_table p w2)
           else (Permanent (Wrap ''check if version table exists'' e), w1)))"

definition tryEnsureVersionTable :: "'d provider \<Rightarrow> 'd world \<Rightarrow> err option \<times> 'd world" where
  "tryEnsureVersionTable p w = p_retry (p_host p) (ensure_attempt p) w"

text \<open>The \<open>sync.Once\<close> runs the function on the first call only, and later calls see no error.\<close>

definition ensureVersionTable :: "'d provider \<Rightarrow> 'd pstate \<Rightarrow> err option \<times> 'd pstate" where
  "ensureVersionTable p s =
     (if versionTableOnce s then (None, s)
      else
        (case tryEnsureVersionTable p (pw s) of
           (r, w') \<Rightarrow> (r, s\<lparr>pw := w', versionTableOnce := True\<rparr>)))"

text \<open>The closures that \<open>initialize\<close> may return for cleaning up.\<close>

datatype cleanup = CloseConn | SessionUnlockClose | UnlockClose

definition unlock_close ::
    "'d provider \<Rightarrow> 'd lock_ops option \<Rightarrow> 'd pstate \<Rightarrow> err option \<times> 'd pstate" where
  "unlock_close p l s =
     (case (case l of None \<Rightarrow> (None, pw s) | Some lk \<Rightarrow> L_Unlock lk (pw s)) of
        (e1, w1) \<Rightarrow>
          (case conn_Close w1 of
             (e2, w2) \<Rightarrow> (multierr_append (p_ext (p_host p)) e1 e2, s\<lparr>mu := False, pw := w2\<rparr>)))"

definition run_cleanup :: "'d provider \<Rightarrow> cleanup \<Rightarrow> 'd pstate \<Rightarrow> err option \<times> 'd pstate" where
  "run_cleanup p c s =
     (case c of
        CloseConn \<Rightarrow> (case conn_Close (pw s) of (e, w') \<Rightarrow> (e, s\<lparr>mu := False, pw := w'\<rparr>))
      | SessionUnlockClose \<Rightarrow> unlock_close p (sessionLocker (p_cfg p)) s
      | UnlockClose \<Rightarrow> unlock_close p (locker (p_cfg p)) s)"

definition append_cleanup :: "'d provider \<Rightarrow> err \<Rightarrow> cleanup \<Rightarrow> 'd pstate \<Rightarrow> (err + cleanup) \<times> 'd pstate" where
  "append_cleanup p e c s =
     (case run_cleanup p c s of
        (r, s') \<Rightarrow> (Inl (the (multierr_append (p_ext (p_host p)) (Some e) r)), s'))"

text \<open>One locker, if it is configured: the cleanup becomes \<open>c'\<close> once the lock is held.\<close>

definition acquire ::
    "'d provider \<Rightarrow> 'd lock_ops option \<Rightarrow> cleanup \<Rightarrow> cleanup \<Rightarrow> 'd pstate \<Rightarrow> (err + cleanup) \<times> 'd pstate" where
  "acquire p l c' c s =
     (case l of
        None \<Rightarrow> (Inr c, s)
      | Some lk \<Rightarrow>
          (case L_Lock lk (pw s) of
             (Some e, w1) \<Rightarrow> append_cleanup p e c (s\<lparr>pw := w1\<rparr>)
           | (None, w1) \<Rightarrow> (Inr c', s\<lparr>pw := w1\<rparr>)))"

definition acquire_locks :: "'d provider \<Rightarrow> bool \<Rightarrow> 'd pstate \<Rightarrow> (err + cleanup) \<times> 'd pstate" where
  "acquire_locks p useLocker s =
     (if useLocker \<and> lockEnabled (p_cfg p)
      then
        (case acquire p (sessionLocker (p_cfg p)) SessionUnlockClose CloseConn s of
           (Inl e, s1) \<Rightarrow> (Inl e, s1)
         | (Inr c, s1) \<Rightarrow> acquire p (locker (p_cfg p)) UnlockClose c s1)
      else (Inr CloseConn, s))"

definition initialize :: "'d provider \<Rightarrow> bool \<Rightarrow> 'd pstate \<Rightarrow> (err + cleanup) \<times> 'd pstate" where
  "initialize p useLocker s =
     (if mu s then (Inl Blocked, s)
      else
        (case db_Conn (pw s) of
           (Some e, w1) \<Rightarrow> (Inl e, s\<lparr>pw := w1\<rparr>)
         | (None, w1) \<Rightarrow>
             (case acquire_locks p useLocker (s\<lparr>mu := True, pw := w1\<rparr>) of
                (Inl e, s1) \<Rightarrow> (Inl e, s1)
              | (Inr c, s1) \<Rightarrow>
                  (if disableVersioning (p_cfg p) then (Inr c, s1)
                   else
                     (case ensureVersionTable p s1 of
                        (Some e, s2) \<Rightarrow> append_cleanup p e c s2
                      | (None, s2) \<Rightarrow> (Inr c, s2))))))"

fun getMigration :: "version \<Rightarrow> Migration list \<Rightarrow> err + Migration" where
  "getMigration v [] = Inl (Sent ErrVersionNotFound)"
| "getMigration v (m # ms) = (if Version m = v then Inr m else getMigration v ms)"

end
