(* ===== verification/Provider.thy ===== *)
theory Provider
  imports Provider_Run
begin

text \<open>
  The operations of a provider: \<open>provider.go\<close>. An operation returns the pair of Go results, so that a
  result and an error of the deferred cleanup can come together, and the new state. A nil result is
  an empty list or \<open>None\<close>.
\<close>

section \<open>Common structure\<close>

text \<open>The deferred cleanup appends its error to the operation's.\<close>

definition returns :: "'a \<Rightarrow> err + 'a \<Rightarrow> 'a \<times> err option" where
  "returns zero r = (case r of Inl e \<Rightarrow> (zero, Some e) | Inr x \<Rightarrow> (x, None))"

definition deferring ::
    "'d provider \<Rightarrow> cleanup \<Rightarrow> ('a \<times> err option) \<times> 'd pstate \<Rightarrow> ('a \<times> err option) \<times> 'd pstate" where
  "deferring p c r =
     (case r of
        ((x, e), s) \<Rightarrow>
          (case run_cleanup p c s of
             (ce, s') \<Rightarrow> ((x, multierr_append (p_ext (p_host p)) e ce), s')))"

definition with_init ::
    "'d provider \<Rightarrow> bool \<Rightarrow> (err \<Rightarrow> err) \<Rightarrow> 'a \<Rightarrow> ('d pstate \<Rightarrow> ('a \<times> err option) \<times> 'd pstate) \<Rightarrow>
     'd pstate \<Rightarrow> ('a \<times> err option) \<times> 'd pstate" where
  "with_init p useLocker wrapE zero body s =
     (case initialize p useLocker s of
        (Inl e, s1) \<Rightarrow> ((zero, Some (wrapE e)), s1)
      | (Inr c, s1) \<Rightarrow> deferring p c (body s1))"

definition init_failed :: "err \<Rightarrow> err" where
  "init_failed e = Wrap ''failed to initialize'' e"

definition run_body ::
    "'d provider \<Rightarrow> Migration list \<Rightarrow> Direction \<Rightarrow> bool \<Rightarrow> 'd pstate \<Rightarrow> (MigrationResult list \<times> err option) \<times> 'd pstate" where
  "run_body p ms direction byOne s =
     (case runMigrations p ms direction byOne s of (r, s') \<Rightarrow> (returns [] r, s'))"

definition getVersionsFromMigrations :: "Migration list \<Rightarrow> version list" where
  "getVersionsFromMigrations ms = map Version ms"

definition getVersionsFromListMigrations :: "ListMigrationsResult list \<Rightarrow> version list" where
  "getVersionsFromListMigrations ms = map LVersion ms"

fun getMigrations :: "version list \<Rightarrow> Migration list \<Rightarrow> err + Migration list" where
  "getMigrations [] ms = Inr []"
| "getMigrations (v # vs) ms =
     (case getMigration v ms of
        Inl e \<Rightarrow> Inl e
      | Inr m \<Rightarrow> (case getMigrations vs ms of Inl e \<Rightarrow> Inl e | Inr rest \<Rightarrow> Inr (m # rest)))"

section \<open>Up\<close>

definition up_body ::
    "'d provider \<Rightarrow> bool \<Rightarrow> version \<Rightarrow> 'd pstate \<Rightarrow> (MigrationResult list \<times> err option) \<times> 'd pstate" where
  "up_body p byOne version s =
     (if migrations s = [] then (([], None), s)
      else if disableVersioning (p_cfg p)
      then
        (if byOne then (([], Some (Msg ''up-by-one not supported when versioning is disabled'')), s)
         else run_body p (migrations s) DirectionUp byOne s)
      else
        (case ListMigrations (p_store p) HConn (pw s) of
           (Inl e, w1) \<Rightarrow> (([], Some e), s\<lparr>pw := w1\<rparr>)
         | (Inr dbMigrations, w1) \<Rightarrow>
             (if dbMigrations = [] then (([], Some (Sent ErrMissingZeroVersion)), s\<lparr>pw := w1\<rparr>)
              else
                (case UpVersions (getVersionsFromMigrations (migrations s))
                        (getVersionsFromListMigrations dbMigrations) version (allowMissing (p_cfg p)) of
                   Inl e \<Rightarrow> (([], Some e), s\<lparr>pw := w1\<rparr>)
                 | Inr versions \<Rightarrow>
                     (case getMigrations versions (migrations s) of
                        Inl e \<Rightarrow> (([], Some e), s\<lparr>pw := w1\<rparr>)
                      | Inr app \<Rightarrow> run_body p app DirectionUp byOne (s\<lparr>pw := w1\<rparr>))))))"

definition up ::
    "'d provider \<Rightarrow> bool \<Rightarrow> version \<Rightarrow> 'd pstate \<Rightarrow> (MigrationResult list \<times> err option) \<times> 'd pstate" where
  "up p byOne version s =
     (if version < 1 then (([], Some (Sent ErrInvalidVersion)), s)
      else with_init p True init_failed [] (up_body p byOne version) s)"

definition hasPending_body :: "'d provider \<Rightarrow> 'd pstate \<Rightarrow> (bool \<times> err option) \<times> 'd pstate" where
  "hasPending_body p s =
     (if disableVersioning (p_cfg p) then ((True, None), s)
      else
        (case ListMigrations (p_store p) HConn (pw s) of
           (Inl e, w1) \<Rightarrow> ((False, Some e), s\<lparr>pw := w1\<rparr>)
         | (Inr dbMigrations, w1) \<Rightarrow>
             (case UpVersions (getVersionsFromMigrations (migrations s))
                     (getVersionsFromListMigrations dbMigrations) MaxInt64 (allowMissing (p_cfg p)) of
                Inl e \<Rightarrow> ((False, Some e), s\<lparr>pw := w1\<rparr>)
              | Inr app \<Rightarrow> ((app \<noteq> [], None), s\<lparr>pw := w1\<rparr>))))"

definition hasPending :: "'d provider \<Rightarrow> 'd pstate \<Rightarrow> (bool \<times> err option) \<times> 'd pstate" where
  "hasPending p s = with_init p False init_failed False (hasPending_body p) s"

definition HasPending :: "'d provider \<Rightarrow> 'd pstate \<Rightarrow> (bool \<times> err option) \<times> 'd pstate" where
  "HasPending p s = hasPending p s"

definition UpTo :: "'d provider \<Rightarrow> version \<Rightarrow> 'd pstate \<Rightarrow> (MigrationResult list \<times> err option) \<times> 'd pstate" where
  "UpTo p version s =
     (case HasPending p s of
        ((_, Some e), s1) \<Rightarrow> (([], Some e), s1)
      | ((pending, None), s1) \<Rightarrow> (if \<not> pending then (([], None), s1) else up p False version s1))"

definition Up :: "'d provider \<Rightarrow> 'd pstate \<Rightarrow> (MigrationResult list \<times> err option) \<times> 'd pstate" where
  "Up p s =
     (case HasPending p s of
        ((_, Some e), s1) \<Rightarrow> (([], Some e), s1)
      | ((pending, None), s1) \<Rightarrow> (if \<not> pending then (([], None), s1) else up p False MaxInt64 s1))"

definition exactly_one :: "string \<Rightarrow> MigrationResult list \<Rightarrow> MigrationResult option \<times> err option" where
  "exactly_one what res =
     (case res of
        [r] \<Rightarrow> (Some r, None)
      | _ \<Rightarrow>
          (None, Some (Msg (''unexpected number of migrations applied running '' @ what @
                  '', expecting exactly one result: '' @
                  Join (map (\<lambda>r. FormatInt (SVersion (RSource r))) res) '',''))))"

definition UpByOne :: "'d provider \<Rightarrow> 'd pstate \<Rightarrow> (MigrationResult option \<times> err option) \<times> 'd pstate" where
  "UpByOne p s =
     (case HasPending p s of
        ((_, Some e), s1) \<Rightarrow> ((None, Some e), s1)
      | ((pending, None), s1) \<Rightarrow>
          (if \<not> pending then ((None, Some (Sent ErrNoNextVersion)), s1)
           else
             (case up p True MaxInt64 s1 of
                ((res, Some e), s2) \<Rightarrow> ((None, Some e), s2)
              | ((res, None), s2) \<Rightarrow>
                  (if res = [] then ((None, Some (Sent ErrNoNextVersion)), s2)
                   else (exactly_one ''up-by-one'' res, s2)))))"

section \<open>Down\<close>

text \<open>The loop over the recorded versions, from the first one listed to the first within the target.\<close>

fun down_migrations :: "version \<Rightarrow> version list \<Rightarrow> Migration list \<Rightarrow> err + Migration list" where
  "down_migrations target [] ms = Inr []"
| "down_migrations target (v # vs) ms =
     (if v \<le> target then Inr []
      else
        (case getMigration v ms of
           Inl e \<Rightarrow> Inl e
         | Inr m \<Rightarrow> (case down_migrations target vs ms of Inl e \<Rightarrow> Inl e | Inr rest \<Rightarrow> Inr (m # rest))))"

definition down_body ::
    "'d provider \<Rightarrow> bool \<Rightarrow> version \<Rightarrow> 'd pstate \<Rightarrow> (MigrationResult list \<times> err option) \<times> 'd pstate" where
  "down_body p byOne version s =
     (if migrations s = [] then (([], None), s)
      else if disableVersioning (p_cfg p)
      then run_body p (if byOne then [last (migrations s)] else migrations s) DirectionDown byOne s
      else
        (case ListMigrations (p_store p) HConn (pw s) of
           (Inl e, w1) \<Rightarrow> (([], Some e), s\<lparr>pw := w1\<rparr>)
         | (Inr [], w1) \<Rightarrow> (([], Some (Sent ErrMissingZeroVersion)), s\<lparr>pw := w1\<rparr>)
         | (Inr (d # ds), w1) \<Rightarrow>
             (if LVersion d = 0 then (([], None), s\<lparr>pw := w1\<rparr>)
              else
                (case down_migrations version (map LVersion (d # ds)) (migrations s) of
                   Inl e \<Rightarrow> (([], Some e), s\<lparr>pw := w1\<rparr>)
                 | Inr app \<Rightarrow> run_body p app DirectionDown byOne (s\<lparr>pw := w1\<rparr>)))))"

definition down ::
    "'d provider \<Rightarrow> bool \<Rightarrow> version \<Rightarrow> 'd pstate \<Rightarrow> (MigrationResult list \<times> err option) \<times> 'd pstate" where
  "down p byOne version s = with_init p True init_failed [] (down_body p byOne version) s"

definition Down :: "'d provider \<Rightarrow> 'd pstate \<Rightarrow> (MigrationResult option \<times> err option) \<times> 'd pstate" where
  "Down p s =
     (case down p True 0 s of
        ((res, Some e), s1) \<Rightarrow> ((None, Some e), s1)
      | ((res, None), s1) \<Rightarrow>
          (if res = [] then ((None, Some (Sent ErrNoNextVersion)), s1) else (exactly_one ''down'' res, s1)))"

definition DownTo :: "'d provider \<Rightarrow> version \<Rightarrow> 'd pstate \<Rightarrow> (MigrationResult list \<times> err option) \<times> 'd pstate" where
  "DownTo p version s =
     (if version < 0
      then (([], Some (Msg (''invalid version: must be a valid number or zero: '' @ FormatInt version))), s)
      else down p False version s)"

section \<open>One version\<close>

definition apply_body ::
    "'d provider \<Rightarrow> Migration \<Rightarrow> version \<Rightarrow> bool \<Rightarrow> 'd pstate \<Rightarrow> (MigrationResult list \<times> err option) \<times> 'd pstate" where
  "apply_body p m version direction s =
     (let d = (if direction then DirectionUp else DirectionDown)
      in if disableVersioning (p_cfg p) then run_body p [m] d True s
         else
           (case GetMigration (p_store p) HConn version (pw s) of
              (r, w1) \<Rightarrow>
                (let s1 = s\<lparr>pw := w1\<rparr>
                 in case r of
                      Inl e \<Rightarrow>
                        (if \<not> errors_Is e DBErrVersionNotFound then (([], Some e), s1)
                         else if \<not> direction
                         then (([], Some (Wrap (''version '' @ FormatInt version) (Sent ErrNotApplied))), s1)
                         else run_body p [m] d True s1)
                    | Inr _ \<Rightarrow>
                        (if direction
                         then (([], Some (Wrap (''version '' @ FormatInt version) (Sent ErrAlreadyApplied))), s1)
                         else run_body p [m] d True s1))))"

definition apply_version ::
    "'d provider \<Rightarrow> version \<Rightarrow> bool \<Rightarrow> 'd pstate \<Rightarrow> (MigrationResult list \<times> err option) \<times> 'd pstate" where
  "apply_version p version direction s =
     (if version < 1 then (([], Some (Sent ErrInvalidVersion)), s)
      else
        (case getMigration version (migrations s) of
           Inl e \<Rightarrow> (([], Some e), s)
         | Inr m \<Rightarrow> with_init p True init_failed [] (apply_body p m version direction) s))"

definition ApplyVersion ::
    "'d provider \<Rightarrow> version \<Rightarrow> bool \<Rightarrow> 'd pstate \<Rightarrow> (MigrationResult option \<times> err option) \<times> 'd pstate" where
  "ApplyVersion p version direction s =
     (case apply_version p version direction s of
        ((res, Some e), s1) \<Rightarrow> ((None, Some e), s1)
      | ((res, None), s1) \<Rightarrow> (exactly_one ''apply'' res, s1))"

section \<open>Queries\<close>

definition getVersions_body :: "'d provider \<Rightarrow> 'd pstate \<Rightarrow> ((version \<times> version) \<times> err option) \<times> 'd pstate" where
  "getVersions_body p s =
     (let target = Version (last (migrations s))
      in if disableVersioning (p_cfg p) then (((-1, target), None), s)
         else
           (case GetLatestVersion (p_store p) HConn (pw s) of
              (Inr current, w1) \<Rightarrow> (((current, target), None), s\<lparr>pw := w1\<rparr>)
            | (Inl e, w1) \<Rightarrow>
                (if errors_Is e DBErrVersionNotFound
                 then (((-1, target), Some (Sent ErrMissingZeroVersion)), s\<lparr>pw := w1\<rparr>)
                 else (((-1, target), Some e), s\<lparr>pw := w1\<rparr>))))"

definition getVersions :: "'d provider \<Rightarrow> 'd pstate \<Rightarrow> ((version \<times> version) \<times> err option) \<times> 'd pstate" where
  "getVersions p s = with_init p False init_failed (-1, -1) (getVersions_body p) s"

definition GetVersions :: "'d provider \<Rightarrow> 'd pstate \<Rightarrow> ((version \<times> version) \<times> err option) \<times> 'd pstate" where
  "GetVersions p s = getVersions p s"

definition max_version_body :: "'d provider \<Rightarrow> 'd pstate \<Rightarrow> (version \<times> err option) \<times> 'd pstate" where
  "max_version_body p s =
     (case max_version p (pw s) of
        (Inr v, w1) \<Rightarrow> ((v, None), s\<lparr>pw := w1\<rparr>)
      | (Inl e, w1) \<Rightarrow> ((if e = Sent ErrMissingZeroVersion then 0 else -1, Some e), s\<lparr>pw := w1\<rparr>))"

definition getDBMaxVersion :: "'d provider \<Rightarrow> 'd pstate \<Rightarrow> (version \<times> err option) \<times> 'd pstate" where
  "getDBMaxVersion p s = with_init p True (\<lambda>e. e) 0 (max_version_body p) s"

definition GetDBVersion :: "'d provider \<Rightarrow> 'd pstate \<Rightarrow> (version \<times> err option) \<times> 'd pstate" where
  "GetDBVersion p s =
     (if disableVersioning (p_cfg p)
      then ((-1, Some (Msg ''getting database version not supported when versioning is disabled'')), s)
      else getDBMaxVersion p s)"

fun status_loop ::
    "'d provider \<Rightarrow> Migration list \<Rightarrow> MigrationStatus list \<Rightarrow> 'd world \<Rightarrow> (err + MigrationStatus list) \<times> 'd world" where
  "status_loop p [] acc w = (Inr acc, w)"
| "status_loop p (m # ms) acc w =
     (if disableVersioning (p_cfg p)
      then status_loop p ms (acc @ [\<lparr>MSource = source_of m, MState = StatePending\<rparr>]) w
      else
        (case GetMigration (p_store p) HConn (Version m) w of
           (Inr _, w1) \<Rightarrow> status_loop p ms (acc @ [\<lparr>MSource = source_of m, MState = StateApplied\<rparr>]) w1
         | (Inl e, w1) \<Rightarrow>
             (if \<not> errors_Is e DBErrVersionNotFound then (Inl e, w1)
              else status_loop p ms (acc @ [\<lparr>MSource = source_of m, MState = StatePending\<rparr>]) w1)))"

definition status_body :: "'d provider \<Rightarrow> 'd pstate \<Rightarrow> (MigrationStatus list \<times> err option) \<times> 'd pstate" where
  "status_body p s =
     (case status_loop p (migrations s) [] (pw s) of (r, w1) \<Rightarrow> (returns [] r, s\<lparr>pw := w1\<rparr>))"

definition status :: "'d provider \<Rightarrow> 'd pstate \<Rightarrow> (MigrationStatus list \<times> err option) \<times> 'd pstate" where
  "status p s = with_init p True init_failed [] (status_body p) s"

definition Status :: "'d provider \<Rightarrow> 'd pstate \<Rightarrow> (MigrationStatus list \<times> err option) \<times> 'd pstate" where
  "Status p s = status p s"

definition ListSources :: "'d pstate \<Rightarrow> Source list" where
  "ListSources s = map source_of (migrations s)"

end
