(* ===== verification/Provider_Run_Lemmas.thy ===== *)
theory Provider_Run_Lemmas
  imports Provider_Run
begin

text \<open>
  What running migrations does to the database: frames of every step, atomicity of a migration in a
  transaction, and how a list of migrations moves the version table, for any store that meets the
  contract \<open>version_store\<close> and whatever the driver does.
\<close>

section \<open>Frames\<close>

lemma call_go_frame: "usable h w \<Longrightarrow> call_go p h fn w = (r, w') \<Longrightarrow> frame h w w'"
  by (auto simp: call_go_def put_frame split: option.splits prod.splits go_outcome.splits)

lemma exec_statements_frame: "exec_statements eng h stmts w = (r, w') \<Longrightarrow> frame h w w'"
proof (induction eng h stmts w rule: exec_statements.induct)
  case (2 eng h stmt stmts w)
  then show ?case
    by (auto split: prod.splits option.splits dest: ExecContext_frame intro: frame_trans)
qed simp

lemma runMigration_frame:
  assumes "usable h w" and "runMigration p h m dir w = (r, w')"
  shows "frame h w w'"
  using assms exec_statements_frame call_go_frame
  by (auto simp: runMigration_def runGo_def runSQL_def split: MigrationType.splits handle.splits if_splits)

text \<open>A migration that does not itself write to the version table.\<close>

definition spares_versions :: "('d \<Rightarrow> version list option) \<Rightarrow> 'd provider \<Rightarrow> Migration \<Rightarrow> bool \<Rightarrow> bool" where
  "spares_versions view p m dir \<longleftrightarrow>
     (\<forall>h w r w'. usable h w \<and> runMigration p h m dir w = (r, w') \<longrightarrow> view (cur h w') = view (cur h w))"

section \<open>Transactions\<close>

lemma BeginTx_cases:
  assumes "BeginTx w = (r, w1)" and "txn w = None"
  shows "committed w1 = committed w \<and> conns w1 = conns w \<and> (faults w = [] \<longrightarrow> faults w1 = [] \<and> r = None) \<and>
     (if r = None then txn w1 = Some (committed w) else txn w1 = None)"
  using assms by (auto simp: BeginTx_def next_fault_def split: list.splits fault.splits)

lemma Commit_cases:
  assumes "Commit w = (r, w1)" and "txn w = Some d"
  shows "txn w1 = None \<and> conns w1 = conns w \<and> (faults w = [] \<longrightarrow> faults w1 = [] \<and> r = None) \<and>
     (if r = None then committed w1 = d else committed w1 \<in> {committed w, d})"
  using assms by (auto simp: Commit_def next_fault_def split: list.splits fault.splits)

lemma Rollback_cases:
  assumes "Rollback w = (r, w1)"
  shows "txn w1 = None \<and> committed w1 = committed w \<and> conns w1 = conns w \<and> (faults w = [] \<longrightarrow> faults w1 = [])"
  using assms by (auto simp: Rollback_def next_fault_def split: option.splits list.splits fault.splits)

lemma append_laws_Some: "append_laws x \<Longrightarrow> multierr_append x (Some e) r \<noteq> None"
  by (cases r) (auto simp: append_laws_def)

lemma append_laws_None: "append_laws x \<Longrightarrow> multierr_append x None r = r"
  by (auto simp: append_laws_def)

text \<open>
  \<open>beginTx\<close> ends its transaction on every path, and what it commits is what a successful run of its
  function left behind, or nothing.
\<close>

lemma beginTx_cases:
  assumes "beginTx p fn w = (r, w')" and "txn w = None" and "append_laws (p_ext (p_host p))"
    and fn: "\<And>w1 r1 w2. txn w1 \<noteq> None \<Longrightarrow> fn w1 = (r1, w2) \<Longrightarrow> frame HTx w1 w2"
  obtains (unchanged) "r \<noteq> None" "txn w' = None" "conns w' = conns w"
      "faults w = [] \<longrightarrow> faults w' = []" "committed w' = committed w"
  | (installed) w1 w2 where "fn w1 = (None, w2)" "txn w1 = Some (committed w)" "cur HTx w2 = committed w'"
      "txn w' = None" "conns w' = conns w" "faults w = [] \<longrightarrow> faults w' = [] \<and> faults w1 = []"
proof -
  obtain rb w1 where b: "BeginTx w = (rb, w1)" by fastforce
  note bc = BeginTx_cases [OF b assms(2)]
  show thesis
  proof (cases rb)
    case (Some e)
    then show thesis using assms(1) b bc by (intro unchanged) (auto simp: beginTx_def)
  next
    case None
    with bc have t1: "txn w1 = Some (committed w)" by simp
    obtain rf w2 where f: "fn w1 = (rf, w2)" by fastforce
    have fr: "frame HTx w1 w2" using fn [OF _ f] t1 by simp
    then obtain d where d: "txn w2 = Some d" and c2: "committed w2 = committed w" "conns w2 = conns w"
      "faults w = [] \<longrightarrow> faults w2 = []"
      using t1 bc by (cases "txn w2") (auto simp: frame_def)
    show thesis
    proof (cases rf)
      case (Some e)
      obtain rr w3 where ro: "Rollback w2 = (rr, w3)" by fastforce
      have "r \<noteq> None" "w' = w3"
        using assms(1) b None f Some ro append_laws_Some [OF assms(3)] by (auto simp: beginTx_def)
      then show thesis using Rollback_cases [OF ro] c2 by (intro unchanged) auto
    next
      case None
      obtain rc w3 where co: "Commit w2 = (rc, w3)" by fastforce
      note cc = Commit_cases [OF co d]
      obtain rr w4 where ro: "Rollback w3 = (rr, w4)" by fastforce
      note rc = Rollback_cases [OF ro]
      have res: "if rc = None then r = None \<and> w' = w3 else r \<noteq> None \<and> w' = w4"
        using assms(1) b \<open>rb = None\<close> f None co ro append_laws_Some [OF assms(3)]
        by (auto simp: beginTx_def Let_def split: option.splits)
      have c: "committed w' = d \<or> (r \<noteq> None \<and> committed w' = committed w)"
        using res cc rc c2 by (auto split: if_splits)
      have e: "txn w' = None" "conns w' = conns w" "faults w = [] \<longrightarrow> faults w' = []"
        using res cc rc c2 by (auto split: if_splits)
      show thesis
      proof (cases "committed w' = d")
        case True
        then show thesis using f None t1 d e bc by (intro installed [of w1 w2]) (auto simp: cur_def)
      next
        case False
        with c e show thesis by (intro unchanged) auto
      qed
    qed
  qed
qed


section \<open>The version table\<close>

text \<open>
  How running the versions \<open>ms\<close> in one direction moves the recorded versions: up adds each of them,
  the way \<open>added\<close> says where, down removes all rows of each.
\<close>

fun moved :: "(version \<Rightarrow> version list \<Rightarrow> version list \<Rightarrow> bool) \<Rightarrow> bool \<Rightarrow> version list \<Rightarrow> version list \<Rightarrow>
    version list \<Rightarrow> bool" where
  "moved added dir [] vs vs' \<longleftrightarrow> vs' = vs"
| "moved added dir (m # ms) vs vs' \<longleftrightarrow>
     (\<exists>vs1. (if dir then added m vs vs1 else vs1 = filter (\<lambda>x. x \<noteq> m) vs) \<and> moved added dir ms vs1 vs')"

lemma moved_append:
  "moved added dir ms vs vs1 \<Longrightarrow> moved added dir ns vs1 vs2 \<Longrightarrow> moved added dir (ms @ ns) vs vs2"
  by (induction ms arbitrary: vs) auto

lemma moved_newest: "moved (\<lambda>v vs vs'. vs' = v # vs) True ms vs vs' \<longleftrightarrow> vs' = rev ms @ vs"
  by (induction ms arbitrary: vs) auto

lemma moved_down: "moved added False ms vs vs' \<longleftrightarrow> vs' = filter (\<lambda>x. x \<notin> set ms) vs"
proof (induction ms arbitrary: vs)
  case (Cons m ms)
  have "filter (\<lambda>x. x \<notin> set ms) (filter (\<lambda>x. x \<noteq> m) vs) = filter (\<lambda>x. x \<notin> set (m # ms)) vs"
    by (simp add: conj_commute)
  with Cons show ?case by simp
qed simp

declare moved.simps(2) [simp del]

text \<open>A step that leaves no transaction open and gives back what it took.\<close>

definition calm :: "'d world \<Rightarrow> 'd world \<Rightarrow> bool" where
  "calm w w' \<longleftrightarrow> txn w' = None \<and> conns w' = conns w \<and> (faults w = [] \<longrightarrow> faults w' = [])"

lemma calm_trans: "calm w1 w2 \<Longrightarrow> calm w2 w3 \<Longrightarrow> calm w1 w3"
  by (auto simp: calm_def)

lemma frame_calm: "frame h w w' \<Longrightarrow> h \<noteq> HTx \<Longrightarrow> txn w = None \<Longrightarrow> calm w w'"
  by (auto simp: frame_def calm_def)

lemma calm_refl: "txn w = None \<Longrightarrow> calm w w"
  by (simp add: calm_def)

lemma cur_committed [simp]: "cur HConn w = committed w" "cur HDB w = committed w"
  by (simp_all add: cur_def)

lemma usable_simps [simp]: "usable HConn w" "usable HDB w"
  by (simp_all add: usable_def)

context version_store
begin

lemma moved_up_mset: "moved added True ms vs vs' \<Longrightarrow> mset vs' = mset ms + mset vs"
  by (induction ms arbitrary: vs) (auto simp: moved.simps(2) dest: added_rows)

lemma moved_up_set: "moved added True ms vs vs' \<Longrightarrow> set vs' = set ms \<union> set vs"
  using moved_up_mset [of ms vs vs'] by (metis mset_append mset_eq_setD set_append)

lemma moved_set: "moved added dir ms vs vs' \<Longrightarrow> set vs' = (if dir then set ms \<union> set vs else set vs - set ms)"
  by (cases dir) (auto simp: moved_down moved_up_set)

lemma maybeInsertOrDelete_frame:
  "p_store p = st \<Longrightarrow> maybeInsertOrDelete p h v dir w = (r, w') \<Longrightarrow> frame h w w'"
  by (simp add: maybeInsertOrDelete_def split: if_splits) (erule insert_frame delete_frame)+

lemma maybeInsertOrDelete_moves:
  assumes "p_store p = st" and "\<not> disableVersioning (p_cfg p)" and "view (cur h w) = Some vs"
    and "maybeInsertOrDelete p h v dir w = (r, w')"
  shows "\<exists>vs'. view (cur h w') = Some vs' \<and> (moved added dir [v] vs vs' \<or> r \<noteq> None \<and> moved added dir [] vs vs')"
proof (cases dir)
  case True
  with assms have "Insert st h v w = (r, w')" by (simp add: maybeInsertOrDelete_def)
  with insert_ok [of h v w w' vs] insert_err [of h v w _ w' vs] assms(3) True show ?thesis
    by (cases r) (auto simp: moved.simps(2))
next
  case False
  with assms have "Delete st h v w = (r, w')" by (simp add: maybeInsertOrDelete_def)
  with delete_ok [of h v w w' vs] delete_err [of h v w _ w' vs] assms(3) False show ?thesis
    by (cases r) (auto simp: moved.simps(2))
qed

lemma run_and_record_frame:
  assumes "p_store p = st" and "usable h w" and "run_and_record p h m dir w = (r, w')"
  shows "frame h w w'"
  using assms runMigration_frame [OF assms(2)] maybeInsertOrDelete_frame [OF assms(1)] frame_trans
  by (fastforce simp: run_and_record_def split: prod.splits option.splits)

lemma run_and_record_moves:
  assumes "p_store p = st" and "\<not> disableVersioning (p_cfg p)" and "spares_versions view p m dir"
    and "usable h w" and "view (cur h w) = Some vs" and "run_and_record p h m dir w = (r, w')"
  shows "\<exists>vs'. view (cur h w') = Some vs' \<and>
     (moved added dir [Version m] vs vs' \<or> r \<noteq> None \<and> moved added dir [] vs vs')"
proof -
  obtain r1 w1 where r1: "runMigration p h m dir w = (r1, w1)" by fastforce
  have v1: "view (cur h w1) = Some vs" using assms(3,4,5) r1 unfolding spares_versions_def by metis
  show ?thesis
  proof (cases r1)
    case (Some e)
    with assms(6) r1 have "r \<noteq> None" "w' = w1" by (auto simp: run_and_record_def)
    with v1 show ?thesis by auto
  next
    case None
    with assms(6) r1 have "maybeInsertOrDelete p h (Version m) dir w1 = (r, w')" by (simp add: run_and_record_def)
    from maybeInsertOrDelete_moves [OF assms(1,2) v1 this] show ?thesis .
  qed
qed

lemma runIndividually_moves:
  assumes "p_store p = st" and "\<not> disableVersioning (p_cfg p)" and "append_laws (p_ext (p_host p))"
    and "spares_versions view p m dir" and "txn w = None" and "view (committed w) = Some vs"
    and "runIndividually p m dir w = (r, w')"
  shows "calm w w' \<and> (\<exists>vs'. view (committed w') = Some vs' \<and>
     (moved added dir [Version m] vs vs' \<or> r \<noteq> None \<and> moved added dir [] vs vs'))"
proof -
  have direct: ?thesis if "run_and_record p h m dir w = (r, w')" and h: "h \<in> {HDB, HConn}" for h
  proof -
    have u: "usable h w" "view (cur h w) = Some vs" "cur h w' = committed w'" using h assms(6) by auto
    from run_and_record_moves [OF assms(1,2,4) u(1,2) that(1)] run_and_record_frame [OF assms(1) u(1) that(1)]
    show ?thesis using frame_calm [of h w w'] h assms(5) u(3) by auto
  qed
  consider (err) e where "useTx m dir = Inl e"
    | (tx) "useTx m dir = Inr True" "\<not> isolateDDL (p_cfg p)"
    | (notx) b where "useTx m dir = Inr b" "\<not> (b \<and> \<not> isolateDDL (p_cfg p))"
    by (cases "useTx m dir") auto
  then show ?thesis
  proof cases
    case err
    then show ?thesis using assms(5,6,7) by (auto simp: runIndividually_def calm_refl)
  next
    case notx
    then show ?thesis
      using assms(5,6,7) direct by (cases "Type m") (auto simp: runIndividually_def calm_refl)
  next
    case tx
    then have b: "beginTx p (run_and_record p HTx m dir) w = (r, w')" using assms(7) by (simp add: runIndividually_def)
    have fr: "txn w1 \<noteq> None \<Longrightarrow> run_and_record p HTx m dir w1 = (r1, w2) \<Longrightarrow> frame HTx w1 w2" for w1 r1 w2
      using run_and_record_frame [OF assms(1)] by (simp add: usable_def)
    from b assms(5,3) show ?thesis
    proof (rule beginTx_cases)
      assume "r \<noteq> None" "txn w' = None" "conns w' = conns w" "faults w = [] \<longrightarrow> faults w' = []"
        "committed w' = committed w"
      then show ?thesis using assms(6) by (auto simp: calm_def)
    next
      fix w1 w2
      assume i: "run_and_record p HTx m dir w1 = (None, w2)" "txn w1 = Some (committed w)"
        "cur HTx w2 = committed w'" "txn w' = None" "conns w' = conns w"
        "faults w = [] \<longrightarrow> faults w' = [] \<and> faults w1 = []"
      have "usable HTx w1" "view (cur HTx w1) = Some vs" using i(2) assms(6) by (auto simp: usable_def cur_def)
      from run_and_record_moves [OF assms(1,2,4) this i(1)] i show ?thesis by (auto simp: calm_def)
    qed (rule fr)
  qed
qed

lemma run_all_moves:
  assumes "p_store p = st" and "\<not> disableVersioning (p_cfg p)" and "append_laws (p_ext (p_host p))"
    and "\<forall>m\<in>set ms. spares_versions view p m (ToBool d)"
    and "txn w = None" and "view (committed w) = Some vs" and "run_all p d ms acc w = (r, w')"
  shows "calm w w' \<and> (\<exists>vs'. view (committed w') = Some vs' \<and>
     (case r of
        Inr res \<Rightarrow> res = acc @ map (\<lambda>m. result_of m d None) ms \<and> moved added (ToBool d) (map Version ms) vs vs'
      | Inl e \<Rightarrow> \<exists>pre m post c. ms = pre @ m # post \<and>
          e = PartialError (acc @ map (\<lambda>m. result_of m d None) pre) (result_of m d (Some c)) c \<and>
          (moved added (ToBool d) (map Version pre) vs vs' \<or> moved added (ToBool d) (map Version (pre @ [m])) vs vs')))"
  using assms(4-7)
proof (induction ms arbitrary: acc w vs)
  case Nil
  then show ?case by (auto simp: calm_refl)
next
  case (Cons m ms)
  obtain r1 w1 where r1: "runIndividually p m (ToBool d) w = (r1, w1)" by fastforce
  have sp: "spares_versions view p m (ToBool d)" using Cons.prems(1) by simp
  obtain vs1 where c1: "calm w w1" and v1: "view (committed w1) = Some vs1"
    and m1: "moved added (ToBool d) [Version m] vs vs1 \<or> r1 \<noteq> None \<and> moved added (ToBool d) [] vs vs1"
    using runIndividually_moves [OF assms(1-3) sp Cons.prems(2,3) r1] by auto
  show ?case
  proof (cases r1)
    case (Some e)
    with Cons.prems(4) r1 have r: "r = Inl (PartialError acc (result_of m d (Some e)) e)" and w: "w' = w1"
      by auto
    have "\<exists>pre m' post c. m # ms = pre @ m' # post \<and>
          PartialError acc (result_of m d (Some e)) e =
            PartialError (acc @ map (\<lambda>m. result_of m d None) pre) (result_of m' d (Some c)) c \<and>
          (moved added (ToBool d) (map Version pre) vs vs1 \<or> moved added (ToBool d) (map Version (pre @ [m'])) vs vs1)"
      using m1 by (intro exI [of _ "[]"] exI [of _ m] exI [of _ ms] exI [of _ e]) auto
    with c1 v1 r w show ?thesis by auto
  next
    case None
    with m1 have m2: "moved added (ToBool d) [Version m] vs vs1" by simp
    from None r1 Cons.prems(4)
    have run: "run_all p d ms (acc @ [result_of m d None]) w1 = (r, w')" by simp
    have "txn w1 = None" using c1 by (simp add: calm_def)
    from Cons.IH [OF _ this v1 run] Cons.prems(1) obtain vs' where c2: "calm w1 w'" and v': "view (committed w') = Some vs'"
      and res: "case r of
        Inr res \<Rightarrow> res = (acc @ [result_of m d None]) @ map (\<lambda>m. result_of m d None) ms \<and>
          moved added (ToBool d) (map Version ms) vs1 vs'
      | Inl e \<Rightarrow> \<exists>pre m' post c. ms = pre @ m' # post \<and>
          e = PartialError ((acc @ [result_of m d None]) @ map (\<lambda>m. result_of m d None) pre) (result_of m' d (Some c)) c \<and>
          (moved added (ToBool d) (map Version pre) vs1 vs' \<or> moved added (ToBool d) (map Version (pre @ [m'])) vs1 vs')"
      by auto
    have mv: "moved added (ToBool d) (Version m # ns) vs vs'" if "moved added (ToBool d) ns vs1 vs'" for ns
      using moved_append [OF m2 that] by simp
    show ?thesis
    proof (cases r)
      case (Inr x)
      with res mv c1 c2 v' show ?thesis by (auto intro: calm_trans)
    next
      case (Inl e)
      with res obtain pre m' post c where pm: "ms = pre @ m' # post"
        and e: "e = PartialError (acc @ map (\<lambda>m. result_of m d None) (m # pre)) (result_of m' d (Some c)) c"
        and x: "moved added (ToBool d) (map Version pre) vs1 vs' \<or> moved added (ToBool d) (map Version (pre @ [m'])) vs1 vs'"
        by auto
      from x mv have "moved added (ToBool d) (map Version (m # pre)) vs vs' \<or> moved added (ToBool d) (map Version ((m # pre) @ [m'])) vs vs'"
        by auto
      moreover have "m # ms = (m # pre) @ m' # post" using pm by simp
      ultimately have "\<exists>pre m' post c. m # ms = pre @ m' # post \<and>
          e = PartialError (acc @ map (\<lambda>m. result_of m d None) pre) (result_of m' d (Some c)) c \<and>
          (moved added (ToBool d) (map Version pre) vs vs' \<or> moved added (ToBool d) (map Version (pre @ [m'])) vs vs')"
        using e by blast
      then show ?thesis using Inl v' calm_trans [OF c1 c2] by simp
    qed
  qed
qed

lemma max_version_calm:
  assumes "p_store p = st" and "max_version p w = (r, w')" and "txn w = None"
  shows "calm w w' \<and> committed w' = committed w"
proof -
  obtain l w1 where l: "GetLatestVersion st HConn w = (l, w1)" by fastforce
  have "w' = w1" using assms(1,2) l by (auto simp: max_version_def split: sum.splits if_splits)
  with latest_frame [OF l] frame_calm [of HConn w w1] assms(3) show ?thesis by simp
qed

lemma max_version_healthy:
  assumes "p_store p = st" and "faults w = []" and "view (committed w) = Some vs" and "vs \<noteq> []"
  shows "fst (max_version p w) = Inr (Max (set vs))"
  using latest_healthy [of HConn w vs] assms
  by (cases "GetLatestVersion st HConn w") (auto simp: max_version_def)

end

section \<open>Preparation\<close>

lemma prepareMigration_same:
  assumes "prepareMigration p m dir = Inr m'"
  shows "Version m' = Version m \<and> Type m' = Type m \<and> MSourcePath m' = MSourcePath m \<and> Type m \<noteq> TypeNone"
  using assms by (auto simp: prepareMigration_def Let_def split: MigrationType.splits if_splits sum.splits)

lemma prepare_all_versions: "map Version (snd (prepare_all p dir ms)) = map Version ms"
  by (induction ms) (auto simp: case_prod_beta split: sum.splits dest: prepareMigration_same)

lemma prepare_all_ok:
  "fst (prepare_all p dir ms) = None \<Longrightarrow>
     list_all2 (\<lambda>m m'. prepareMigration p m dir = Inr m') ms (snd (prepare_all p dir ms))"
  by (induction ms) (auto simp: case_prod_beta split: sum.splits)

lemma list_all2_find_right: "list_all2 P xs ys \<Longrightarrow> y \<in> set ys \<Longrightarrow> \<exists>x\<in>set xs. P x y"
  by (induction rule: list_all2_induct) auto

lemma prepare_all_complete:
  "\<forall>m\<in>set ms. \<exists>m'. prepareMigration p m dir = Inr m' \<Longrightarrow> fst (prepare_all p dir ms) = None"
  by (induction ms) (auto simp: case_prod_beta split: sum.splits)

lemma find_version: "find (\<lambda>m'. Version m' = v) ms = Some m \<Longrightarrow> Version m = v"
  by (auto simp: find_Some_iff)

lemma write_back_versions: "map Version (write_back prepared ms) = map Version ms"
  by (induction ms) (auto simp: write_back_def dest: find_version split: option.splits)

lemma result_of_version [simp]: "SVersion (RSource (result_of m d e)) = Version m"
  by (simp add: result_of_def source_of_def)

text \<open>A migration whose prepared form does not write to the version table.\<close>

definition spares_prepared :: "('d \<Rightarrow> version list option) \<Rightarrow> 'd provider \<Rightarrow> Migration \<Rightarrow> bool \<Rightarrow> bool" where
  "spares_prepared view p m dir \<longleftrightarrow> (\<forall>m'. prepareMigration p m dir = Inr m' \<longrightarrow> spares_versions view p m' dir)"

lemma prepared_spares:
  assumes "fst (prepare_all p dir ms) = None" and "\<forall>m\<in>set ms. spares_prepared view p m dir"
  shows "\<forall>m\<in>set (snd (prepare_all p dir ms)). spares_versions view p m dir"
proof
  fix m' assume "m' \<in> set (snd (prepare_all p dir ms))"
  then obtain m where "m \<in> set ms" "prepareMigration p m dir = Inr m'"
    using list_all2_find_right [OF prepare_all_ok [OF assms(1)]] by blast
  with assms(2) show "spares_versions view p m' dir" by (auto simp: spares_prepared_def)
qed

text \<open>Steps of a provider that keep the mutex, the \<open>sync.Once\<close> and the versions of the migrations.\<close>

definition steady :: "'d pstate \<Rightarrow> 'd pstate \<Rightarrow> bool" where
  "steady s s' \<longleftrightarrow> mu s' = mu s \<and> versionTableOnce s' = versionTableOnce s \<and>
     map Version (migrations s') = map Version (migrations s) \<and> calm (pw s) (pw s')"

lemma steady_trans: "steady s1 s2 \<Longrightarrow> steady s2 s3 \<Longrightarrow> steady s1 s3"
  by (auto simp: steady_def intro: calm_trans)

lemma steady_pw: "calm (pw s) w \<Longrightarrow> steady s (s\<lparr>pw := w\<rparr>)"
  by (simp add: steady_def)

context version_store
begin

lemma runMigrations_moves:
  assumes "p_store p = st" and "\<not> disableVersioning (p_cfg p)" and "append_laws (p_ext (p_host p))"
    and "\<forall>m\<in>set ms. spares_prepared view p m (ToBool d)"
    and "txn (pw s) = None" and "view (committed (pw s)) = Some vs"
    and "runMigrations p ms d byOne s = (r, s')" and "app = (if byOne then take 1 ms else ms)"
  shows "steady s s' \<and> (\<exists>vs'. view (committed (pw s')) = Some vs' \<and>
     (case r of
        Inr res \<Rightarrow> map (\<lambda>r. SVersion (RSource r)) res = map Version app \<and> moved added (ToBool d) (map Version app) vs vs'
      | Inl e \<Rightarrow> \<exists>k. moved added (ToBool d) (take k (map Version app)) vs vs'))"
proof (cases "ms = []")
  case True
  obtain r1 w1 where m: "max_version p (pw s) = (r1, w1)" by fastforce
  with True assms(2,7) have "s' = s\<lparr>pw := w1\<rparr>" "r = (case r1 of Inl e \<Rightarrow> Inl e | Inr _ \<Rightarrow> Inr [])"
    by (auto simp: runMigrations_def split: sum.splits)
  with max_version_calm [OF assms(1) m assms(5)] steady_pw [of s w1] True assms(6,8) show ?thesis
    by (cases r1) auto
next
  case False
  obtain perr prepared where pa: "prepare_all p (ToBool d) app = (perr, prepared)" by fastforce
  let ?s1 = "s\<lparr>migrations := write_back prepared (migrations s)\<rparr>"
  have pv: "map Version prepared = map Version app" using prepare_all_versions [of p "ToBool d" app] pa by simp
  have st1: "steady s ?s1" using assms(5) by (simp add: steady_def calm_refl write_back_versions)
  show ?thesis
  proof (cases perr)
    case (Some e)
    with False assms(7,8) pa have "r = Inl e" "s' = ?s1" by (auto simp: runMigrations_def)
    with st1 assms(6) show ?thesis by (auto intro!: exI [of _ 0])
  next
    case None
    have sp: "\<forall>m\<in>set prepared. spares_versions view p m (ToBool d)"
      using prepared_spares [of p "ToBool d" app view] None pa assms(4,8)
      by (auto dest: in_set_takeD split: if_splits)
    obtain r1 w1 where ra: "run_all p d prepared [] (pw s) = (r1, w1)" by fastforce
    from run_all_moves [OF assms(1-3) sp assms(5,6) ra] obtain vs' where c1: "calm (pw s) w1"
      and v': "view (committed w1) = Some vs'" and res: "case r1 of
        Inr res \<Rightarrow> res = [] @ map (\<lambda>m. result_of m d None) prepared \<and> moved added (ToBool d) (map Version prepared) vs vs'
      | Inl e \<Rightarrow> \<exists>pre m post c. prepared = pre @ m # post \<and>
          e = PartialError ([] @ map (\<lambda>m. result_of m d None) pre) (result_of m d (Some c)) c \<and>
          (moved added (ToBool d) (map Version pre) vs vs' \<or> moved added (ToBool d) (map Version (pre @ [m])) vs vs')" by blast
    have st2: "steady s (?s1\<lparr>pw := w1\<rparr>)"
      using steady_trans [OF st1] steady_pw [of ?s1 w1] c1 by simp
    show ?thesis
    proof (cases r1)
      case (Inl e)
      with False assms(7,8) pa None ra have "r = Inl e" "s' = ?s1\<lparr>pw := w1\<rparr>" by (auto simp: runMigrations_def)
      moreover obtain pre m post where "prepared = pre @ m # post"
        and mv: "moved added (ToBool d) (map Version pre) vs vs' \<or> moved added (ToBool d) (map Version (pre @ [m])) vs vs'"
        using res Inl by auto
      then have "map Version pre = take (length pre) (map Version app)"
        "map Version (pre @ [m]) = take (Suc (length pre)) (map Version app)"
        unfolding pv [symmetric] by auto
      with mv have "\<exists>k. moved added (ToBool d) (take k (map Version app)) vs vs'" by metis
      ultimately show ?thesis using st2 v' by simp
    next
      case (Inr x)
      with res pv have x: "map (\<lambda>r. SVersion (RSource r)) x = map Version app" "moved added (ToBool d) (map Version app) vs vs'"
        by (simp_all add: comp_def)
      show ?thesis
      proof (cases byOne)
        case True
        with Inr False assms(7,8) pa None ra have "r = Inr x" "s' = ?s1\<lparr>pw := w1\<rparr>" by (auto simp: runMigrations_def)
        with st2 v' x show ?thesis by simp
      next
        case b: False
        obtain r2 w2 where mx: "max_version p w1 = (r2, w2)" by fastforce
        have c2: "calm w1 w2 \<and> committed w2 = committed w1"
          using max_version_calm [OF assms(1) mx] c1 by (simp add: calm_def)
        have s': "s' = ?s1\<lparr>pw := w2\<rparr>" and r: "r = (case r2 of Inl e \<Rightarrow> Inl e | Inr _ \<Rightarrow> Inr x)"
          using Inr False assms(2,7,8) pa None ra b mx by (auto simp: runMigrations_def Let_def split: sum.splits)
        have "steady s s'" using steady_trans [OF st2 steady_pw [of "?s1\<lparr>pw := w1\<rparr>" w2]] c2 s' by simp
        moreover have "\<exists>k. moved added (ToBool d) (take k (map Version app)) vs vs'"
          using x(2) by (intro exI [of _ "length app"]) simp
        ultimately show ?thesis using s' r c2 v' x by (cases r2) simp_all
      qed
    qed
  qed
qed

end

end
