(* ===== verification/Provider_Init_Lemmas.thy ===== *)
theory Provider_Init_Lemmas
  imports Provider Provider_Run_Lemmas
begin

text \<open>
  What initialisation does: the version table exists after it succeeds, it never loses a recorded
  version, and the mutex, the connection and the lock are given back on every path.
\<close>

section \<open>Creating the version table\<close>

text \<open>The table may appear, and the zero version be added; nothing else changes.\<close>

definition grows :: "version list option \<Rightarrow> version list option \<Rightarrow> bool" where
  "grows a b \<longleftrightarrow>
     (case a of
        None \<Rightarrow> (case b of None \<Rightarrow> True | Some vs \<Rightarrow> set vs \<subseteq> {0})
      | Some vs \<Rightarrow> (\<exists>vs'. b = Some vs' \<and> set vs \<subseteq> set vs' \<and> set vs' \<subseteq> insert 0 (set vs)))"

definition zero_ok :: "version list option \<Rightarrow> bool" where
  "zero_ok a \<longleftrightarrow> (case a of None \<Rightarrow> True | Some vs \<Rightarrow> 0 \<in> set vs)"

lemma grows_refl [simp]: "grows a a"
  by (auto simp: grows_def split: option.splits)

lemma grows_trans: "grows a b \<Longrightarrow> grows b c \<Longrightarrow> grows a c"
  by (fastforce simp: grows_def split: option.splits)

lemma grows_zero_ok: "grows a b \<Longrightarrow> zero_ok a \<Longrightarrow> a \<noteq> None \<Longrightarrow> zero_ok b"
  by (auto simp: grows_def zero_ok_def split: option.splits)

context version_store
begin

lemma create_grows:
  assumes "CreateVersionTable st h w = (r, w')"
  shows "frame h w w' \<and> grows (view (cur h w)) (view (cur h w')) \<and> (r = None \<longrightarrow> view (cur h w') \<noteq> None)"
  using create_frame [OF assms] create_ok [of h w w'] create_err [of h w _ w'] assms
  by (cases r) (auto simp: grows_def split: option.splits)

lemma insert_zero_grows:
  assumes "Insert st h 0 w = (r, w')" and "view (cur h w) = Some vs"
  shows "frame h w w' \<and> (\<exists>vs'. view (cur h w') = Some vs' \<and> set vs' \<in> {set vs, insert 0 (set vs)} \<and>
     (r = None \<longrightarrow> set vs' = insert 0 (set vs)))"
proof -
  obtain vs' where v': "view (cur h w') = Some vs'"
    and m: "mset vs' = mset (0 # vs) \<or> r \<noteq> None \<and> mset vs' = mset vs"
    using insert_ok [OF _ assms(2), of 0 w'] insert_err [OF _ assms(2), of 0 _ w'] assms(1)
    by (cases r) (auto dest: added_rows)
  from m have "set vs' = insert 0 (set vs) \<or> r \<noteq> None \<and> set vs' = set vs"
    by (metis mset_eq_setD list.simps(15))
  with v' insert_frame [OF assms(1)] show ?thesis by auto
qed

lemma create_in_tx_frame:
  assumes "p_store p = st" and "create_in_tx p w = (r, w')"
  shows "frame HTx w w'"
proof -
  obtain r1 w1 where c: "CreateVersionTable st HTx w = (r1, w1)" by fastforce
  show ?thesis
  proof (cases r1)
    case None
    with assms c have "Insert st HTx 0 w1 = (r, w')" by (simp add: create_in_tx_def)
    from frame_trans [OF create_frame [OF c] insert_frame [OF this]] show ?thesis .
  next
    case (Some e)
    with assms c create_frame [OF c] show ?thesis by (simp add: create_in_tx_def)
  qed
qed

lemma create_in_tx_ok:
  assumes "p_store p = st" and "create_in_tx p w = (None, w')"
  shows "\<exists>vs'. view (cur HTx w') = Some vs' \<and> 0 \<in> set vs' \<and> grows (view (cur HTx w)) (Some vs')"
proof -
  obtain w1 where c: "CreateVersionTable st HTx w = (None, w1)" and i: "Insert st HTx 0 w1 = (None, w')"
    using assms by (auto simp: create_in_tx_def split: prod.splits option.splits)
  from create_ok [OF c] obtain vs1 where v1: "view (cur HTx w1) = Some vs1"
    and g1: "vs1 = (case view (cur HTx w) of None \<Rightarrow> [] | Some vs \<Rightarrow> vs)" by auto
  from insert_zero_grows [OF i v1] obtain vs' where v': "view (cur HTx w') = Some vs'" "set vs' = insert 0 (set vs1)"
    by auto
  then show ?thesis using g1 by (auto simp: grows_def split: option.splits)
qed

lemma create_version_table_grows:
  assumes "p_store p = st" and "append_laws (p_ext (p_host p))" and "txn w = None"
    and "create_version_table p w = (a, w')"
  shows "calm w w' \<and> grows (view (committed w)) (view (committed w')) \<and> (a = Ended \<longrightarrow> view (committed w') \<noteq> None) \<and>
     (\<not> isolateDDL (p_cfg p) \<and> zero_ok (view (committed w)) \<longrightarrow> zero_ok (view (committed w')))"
proof (cases "isolateDDL (p_cfg p)")
  case True
  obtain r1 w1 where c: "CreateVersionTable st HConn w = (r1, w1)" by fastforce
  note g = create_grows [OF c]
  have c1: "calm w w1" using g frame_calm [of HConn w w1] assms(3) by simp
  show ?thesis
  proof (cases r1)
    case (Some e)
    with True assms(1,4) c have "a \<noteq> Ended" "w' = w1" by (auto simp: create_version_table_def)
    with g c1 True show ?thesis by simp
  next
    case None
    obtain r2 w2 where i: "Insert st HConn 0 w1 = (r2, w2)" by fastforce
    have w': "w' = w2" using True assms(1,4) c None i by (auto simp: create_version_table_def split: option.splits)
    from g None obtain vs1 where v1: "view (committed w1) = Some vs1" by auto
    from insert_zero_grows [OF i] v1 obtain vs2 where v2: "view (committed w2) = Some vs2"
      "set vs2 \<in> {set vs1, insert 0 (set vs1)}" "frame HConn w1 w2" by auto
    then have "grows (view (committed w1)) (view (committed w2))" using v1 by (auto simp: grows_def)
    moreover have "calm w1 w2" using v2(3) frame_calm [of HConn w1 w2] c1 by (simp add: calm_def)
    ultimately show ?thesis using g c1 w' v2 True by (auto intro: grows_trans calm_trans)
  qed
next
  case False
  obtain r1 w1 where b: "beginTx p (create_in_tx p) w = (r1, w1)" by fastforce
  have w': "w' = w1" and a: "a = Ended \<longleftrightarrow> r1 = None"
    using False assms(4) b by (auto simp: create_version_table_def split: option.splits)
  from b assms(3,2) show ?thesis
  proof (rule beginTx_cases)
    assume "r1 \<noteq> None" "txn w1 = None" "conns w1 = conns w" "faults w = [] \<longrightarrow> faults w1 = []"
      "committed w1 = committed w"
    then show ?thesis using w' a by (auto simp: calm_def)
  next
    fix wa wb
    assume i: "create_in_tx p wa = (None, wb)" "txn wa = Some (committed w)"
      "cur HTx wb = committed w1" "txn w1 = None" "conns w1 = conns w"
      "faults w = [] \<longrightarrow> faults w1 = [] \<and> faults wa = []"
    then have "cur HTx wa = committed w" by (simp add: cur_def)
    with create_in_tx_ok [OF assms(1) i(1)] i w' show ?thesis by (auto simp: calm_def zero_ok_def)
  qed (rule create_in_tx_frame [OF assms(1)])
qed

lemma ensure_attempt_grows:
  assumes "p_store p = st" and "append_laws (p_ext (p_host p))" and "txn w = None"
    and "ensure_attempt p w = (a, w')"
  shows "calm w w' \<and> grows (view (committed w)) (view (committed w')) \<and> (a = Ended \<longrightarrow> view (committed w') \<noteq> None) \<and>
     (\<not> isolateDDL (p_cfg p) \<and> zero_ok (view (committed w)) \<longrightarrow> zero_ok (view (committed w')))"
proof -
  obtain b w1 where x: "controller_TableExists st HConn w = (b, w1)" by fastforce
  have w1: "calm w w1" "committed w1 = committed w"
    using controller_exists_frame [OF x] frame_calm [of HConn w w1] assms(3) by auto
  have create: ?thesis if "create_version_table p w2 = (a, w')" and "calm w w2" and "committed w2 = committed w" for w2
    using create_version_table_grows [OF assms(1,2) _ that(1)] that(2,3) by (auto simp: calm_def)
  consider (yes) "b = Inr True" | (no) "b = Inr False" | (err) e where "b = Inl e" by (cases b) auto
  then show ?thesis
  proof cases
    case yes
    with controller_exists_ok x have "view (committed w) \<noteq> None" by (metis cur_committed(1))
    with yes assms(1,4) x w1 show ?thesis by (auto simp: ensure_attempt_def)
  next
    case no
    with assms(1,4) x create [OF _ w1] show ?thesis by (simp add: ensure_attempt_def)
  next
    case err
    show ?thesis
    proof (cases "errors_Is e ErrUnsupported")
      case True
      obtain g w2 where g: "GetMigration st HConn 0 w1 = (g, w2)" by fastforce
      have w2: "calm w w2" "committed w2 = committed w"
        using get_frame [OF g] frame_calm [of HConn w1 w2] w1 by (auto simp: calm_def)
      show ?thesis
      proof (cases g)
        case (Inr y)
        with get_found g have "view (committed w) \<noteq> None" using w1(2) by (metis cur_committed(1) option.distinct(1))
        with Inr err True assms(1,4) x g w2 show ?thesis by (auto simp: ensure_attempt_def)
      next
        case (Inl y)
        with err True assms(1,4) x g create [OF _ w2] show ?thesis by (simp add: ensure_attempt_def)
      qed
    next
      case False
      with err assms(1,4) x w1 show ?thesis by (auto simp: ensure_attempt_def)
    qed
  qed
qed

lemma attempts_grows:
  assumes "p_store p = st" and "append_laws (p_ext (p_host p))" and "txn w = None"
    and "attempts k (ensure_attempt p) w = (r, w')"
  shows "calm w w' \<and> grows (view (committed w)) (view (committed w')) \<and> (r = None \<longrightarrow> view (committed w') \<noteq> None) \<and>
     (\<not> isolateDDL (p_cfg p) \<and> zero_ok (view (committed w)) \<longrightarrow> zero_ok (view (committed w')))"
  using assms(3,4)
proof (induction k arbitrary: w)
  case 0
  obtain a w1 where e: "ensure_attempt p w = (a, w1)" by fastforce
  from ensure_attempt_grows [OF assms(1,2) 0(1) e] e 0(2) show ?case by (cases a) auto
next
  case (Suc k)
  obtain a w1 where e: "ensure_attempt p w = (a, w1)" by fastforce
  note g = ensure_attempt_grows [OF assms(1,2) Suc.prems(1) e]
  show ?case
  proof (cases a)
    case (Retryable x)
    with e Suc.prems(2) have "attempts k (ensure_attempt p) w1 = (r, w')" by simp
    from Suc.IH [OF _ this] g show ?thesis by (auto simp: calm_def intro: grows_trans)
  qed (use e Suc.prems(2) g in auto)
qed

lemma tryEnsure_grows:
  assumes "p_store p = st" and "append_laws (p_ext (p_host p))" and "retry_laws (p_host p)" and "txn w = None"
    and "tryEnsureVersionTable p w = (r, w')"
  shows "calm w w' \<and> grows (view (committed w)) (view (committed w')) \<and> (r = None \<longrightarrow> view (committed w') \<noteq> None) \<and>
     (\<not> isolateDDL (p_cfg p) \<and> zero_ok (view (committed w)) \<longrightarrow> zero_ok (view (committed w')))"
proof -
  have "(\<exists>e. p_retry (p_host p) (ensure_attempt p) w = (Some e, w)) \<or>
      (\<exists>k\<le>3. snd (p_retry (p_host p) (ensure_attempt p) w) = snd (attempts k (ensure_attempt p) w) \<and>
        (fst (p_retry (p_host p) (ensure_attempt p) w) = None \<longleftrightarrow> fst (attempts k (ensure_attempt p) w) = None))"
    using assms(3) unfolding retry_laws_def by blast
  then consider (cancelled) "r \<noteq> None" "w' = w"
    | (ran) k r1 where "attempts k (ensure_attempt p) w = (r1, w')" "r = None \<longleftrightarrow> r1 = None"
    using assms(5) unfolding tryEnsureVersionTable_def by (metis fst_conv option.distinct(1) prod.collapse snd_conv)
  then show ?thesis
  proof cases
    case cancelled
    then show ?thesis using assms(4) by (auto simp: calm_refl)
  next
    case ran
    from attempts_grows [OF assms(1,2,4) ran(1)] ran(2) show ?thesis by simp
  qed
qed

end

section \<open>Locks and connections\<close>

text \<open>What a provider relies on of a locker: it opens no transaction and leaves the version table alone.\<close>

definition locker_laws :: "('d \<Rightarrow> version list option) \<Rightarrow> 'd lock_ops option \<Rightarrow> bool" where
  "locker_laws view l \<longleftrightarrow> (case l of None \<Rightarrow> True
     | Some lk \<Rightarrow> (\<forall>w r w'. txn w = None \<and> (L_Lock lk w = (r, w') \<or> L_Unlock lk w = (r, w')) \<longrightarrow>
         calm w w' \<and> view (committed w') = view (committed w)))"

definition lockers_ok :: "('d \<Rightarrow> version list option) \<Rightarrow> 'd config \<Rightarrow> bool" where
  "lockers_ok view c \<longleftrightarrow> locker_laws view (sessionLocker c) \<and> locker_laws view (locker c)"

lemma db_Conn_cases:
  assumes "db_Conn w = (r, w')"
  shows "committed w' = committed w \<and> txn w' = txn w \<and> (faults w = [] \<longrightarrow> faults w' = [] \<and> r = None) \<and>
     conns w' = (if r = None then conns w + 1 else conns w)"
  using assms by (auto simp: db_Conn_def next_fault_def split: list.splits fault.splits)

lemma conn_Close_cases:
  assumes "conn_Close w = (r, w')"
  shows "committed w' = committed w \<and> txn w' = txn w \<and> (faults w = [] \<longrightarrow> faults w' = [] \<and> r = None) \<and>
     conns w' = conns w - 1"
  using assms by (auto simp: conn_Close_def next_fault_def split: list.splits fault.splits)

text \<open>The state after the cleanup: the mutex is free, one connection less, the version table the same.\<close>

definition cleaned :: "('d \<Rightarrow> version list option) \<Rightarrow> 'd pstate \<Rightarrow> 'd pstate \<Rightarrow> bool" where
  "cleaned view s s' \<longleftrightarrow> \<not> mu s' \<and> versionTableOnce s' = versionTableOnce s \<and> migrations s' = migrations s \<and>
     txn (pw s') = None \<and> conns (pw s') = conns (pw s) - 1 \<and> (faults (pw s) = [] \<longrightarrow> faults (pw s') = []) \<and>
     view (committed (pw s')) = view (committed (pw s))"

lemma unlock_close_cleaned:
  assumes "locker_laws view l" and "txn (pw s) = None" and "unlock_close p l s = (r, s')"
  shows "cleaned view s s'"
proof -
  obtain e1 w1 where u: "(case l of None \<Rightarrow> (None, pw s) | Some lk \<Rightarrow> L_Unlock lk (pw s)) = (e1, w1)" by fastforce
  have w1: "calm (pw s) w1 \<and> view (committed w1) = view (committed (pw s))"
    using assms(1,2) u by (cases l) (auto simp: locker_laws_def calm_refl)
  obtain e2 w2 where c: "conn_Close w1 = (e2, w2)" by fastforce
  from conn_Close_cases [OF c] w1 u c assms(3) show ?thesis
    by (auto simp: cleaned_def unlock_close_def calm_def)
qed

lemma run_cleanup_cleaned:
  assumes "lockers_ok view (p_cfg p)" and "txn (pw s) = None" and "run_cleanup p c s = (r, s')"
  shows "cleaned view s s'"
proof (cases c)
  case CloseConn
  obtain e w1 where "conn_Close (pw s) = (e, w1)" by fastforce
  with conn_Close_cases [OF this] CloseConn assms show ?thesis by (auto simp: run_cleanup_def cleaned_def)
next
  case SessionUnlockClose
  with assms unlock_close_cleaned show ?thesis by (auto simp: run_cleanup_def lockers_ok_def)
next
  case UnlockClose
  with assms unlock_close_cleaned show ?thesis by (auto simp: run_cleanup_def lockers_ok_def)
qed

lemma append_cleanup_cleaned:
  assumes "lockers_ok view (p_cfg p)" and "txn (pw s) = None" and "append_cleanup p e c s = (r, s')"
  shows "cleaned view s s' \<and> (\<exists>e'. r = Inl e')"
  using assms run_cleanup_cleaned [OF assms(1,2)] by (auto simp: append_cleanup_def split: prod.splits)

definition kept :: "('d \<Rightarrow> version list option) \<Rightarrow> 'd pstate \<Rightarrow> 'd pstate \<Rightarrow> bool" where
  "kept view s s' \<longleftrightarrow> mu s' = mu s \<and> versionTableOnce s' = versionTableOnce s \<and> migrations s' = migrations s \<and>
     calm (pw s) (pw s') \<and> view (committed (pw s')) = view (committed (pw s))"

lemma kept_trans: "kept view s1 s2 \<Longrightarrow> kept view s2 s3 \<Longrightarrow> kept view s1 s3"
  by (auto simp: kept_def intro: calm_trans)

lemma kept_cleaned: "kept view s1 s2 \<Longrightarrow> cleaned view s2 s3 \<Longrightarrow> cleaned view s1 s3"
  by (auto simp: kept_def cleaned_def calm_def)

lemma acquire_cases:
  assumes "lockers_ok view (p_cfg p)" and "locker_laws view l" and "txn (pw s) = None"
    and "acquire p l c' c s = (r, s')"
  shows "case r of Inl _ \<Rightarrow> cleaned view s s' | Inr x \<Rightarrow> kept view s s' \<and> x = (if l = None then c else c')"
proof (cases l)
  case None
  with assms show ?thesis by (auto simp: acquire_def kept_def calm_refl)
next
  case (Some lk)
  obtain e w1 where k: "L_Lock lk (pw s) = (e, w1)" by fastforce
  have "calm (pw s) w1" "view (committed w1) = view (committed (pw s))"
    using assms(2,3) Some k unfolding locker_laws_def by auto
  then have kp: "kept view s (s\<lparr>pw := w1\<rparr>)" by (simp add: kept_def)
  show ?thesis
  proof (cases e)
    case None
    with Some k assms(4) kp show ?thesis by (auto simp: acquire_def)
  next
    case e: (Some x)
    with Some k assms(4) have "append_cleanup p x c (s\<lparr>pw := w1\<rparr>) = (r, s')" by (simp add: acquire_def)
    moreover have "txn (pw (s\<lparr>pw := w1\<rparr>)) = None" using kp by (simp add: kept_def calm_def)
    ultimately show ?thesis
      using append_cleanup_cleaned [OF assms(1), of "s\<lparr>pw := w1\<rparr>" x c r s'] kept_cleaned [OF kp] by auto
  qed
qed

lemma acquire_locks_cases:
  assumes "lockers_ok view (p_cfg p)" and "txn (pw s) = None" and "acquire_locks p ul s = (r, s')"
  shows "case r of Inl _ \<Rightarrow> cleaned view s s' | Inr x \<Rightarrow> kept view s s'"
proof (cases "ul \<and> lockEnabled (p_cfg p)")
  case False
  with assms show ?thesis by (auto simp: acquire_locks_def kept_def calm_refl)
next
  case True
  obtain r1 s1 where a: "acquire p (sessionLocker (p_cfg p)) SessionUnlockClose CloseConn s = (r1, s1)" by fastforce
  note a1 = acquire_cases [OF assms(1) _ assms(2) a]
  show ?thesis
  proof (cases r1)
    case (Inl e)
    with True a assms a1 show ?thesis by (auto simp: acquire_locks_def lockers_ok_def)
  next
    case (Inr c)
    with a1 assms(1) have k: "kept view s s1" by (simp add: lockers_ok_def)
    then have t: "txn (pw s1) = None" by (simp add: kept_def calm_def)
    from True Inr a assms(3) have b: "acquire p (locker (p_cfg p)) UnlockClose c s1 = (r, s')"
      by (simp add: acquire_locks_def)
    have "locker_laws view (locker (p_cfg p))" using assms(1) by (simp add: lockers_ok_def)
    from acquire_cases [OF assms(1) this t b] k show ?thesis
      by (cases r) (auto intro: kept_trans kept_cleaned)
  qed
qed

section \<open>Operations\<close>

text \<open>A provider at rest, and its state when an operation starts and ends.\<close>

definition idle :: "'d pstate \<Rightarrow> bool" where
  "idle s \<longleftrightarrow> \<not> mu s \<and> txn (pw s) = None"

definition released :: "'d pstate \<Rightarrow> 'd pstate \<Rightarrow> bool" where
  "released s s' \<longleftrightarrow> \<not> mu s' \<and> txn (pw s') = None \<and> conns (pw s') = conns (pw s) \<and>
     map Version (migrations s') = map Version (migrations s) \<and> (faults (pw s) = [] \<longrightarrow> faults (pw s') = []) \<and>
     (versionTableOnce s \<longrightarrow> versionTableOnce s')"

definition started :: "('d \<Rightarrow> version list option) \<Rightarrow> 'd provider \<Rightarrow> 'd pstate \<Rightarrow> 'd pstate \<Rightarrow> bool" where
  "started view p s s' \<longleftrightarrow> mu s' \<and> txn (pw s') = None \<and> conns (pw s') = conns (pw s) + 1 \<and>
     migrations s' = migrations s \<and> (faults (pw s) = [] \<longrightarrow> faults (pw s') = []) \<and>
     grows (view (committed (pw s))) (view (committed (pw s'))) \<and>
     (versionTableOnce s \<longrightarrow> versionTableOnce s' \<and> view (committed (pw s')) = view (committed (pw s))) \<and>
     (\<not> disableVersioning (p_cfg p) \<longrightarrow> versionTableOnce s' \<and>
       (view (committed (pw s)) \<noteq> None \<or> \<not> versionTableOnce s \<longrightarrow> view (committed (pw s')) \<noteq> None)) \<and>
     (\<not> isolateDDL (p_cfg p) \<and> zero_ok (view (committed (pw s))) \<longrightarrow> zero_ok (view (committed (pw s'))))"

text \<open>What a provider relies on, apart from its store.\<close>

definition host_ok :: "('d \<Rightarrow> version list option) \<Rightarrow> 'd provider \<Rightarrow> bool" where
  "host_ok view p \<longleftrightarrow> append_laws (p_ext (p_host p)) \<and> retry_laws (p_host p) \<and> lockers_ok view (p_cfg p)"

context version_store
begin

lemma ensureVersionTable_cases:
  assumes "p_store p = st" and "host_ok view p" and "txn (pw s) = None" and "ensureVersionTable p s = (r, s')"
  shows "mu s' = mu s \<and> migrations s' = migrations s \<and> versionTableOnce s' \<and> calm (pw s) (pw s') \<and>
     grows (view (committed (pw s))) (view (committed (pw s'))) \<and>
     (versionTableOnce s \<longrightarrow> s' = s \<and> r = None) \<and>
     (r = None \<and> \<not> versionTableOnce s \<longrightarrow> view (committed (pw s')) \<noteq> None) \<and>
     (\<not> isolateDDL (p_cfg p) \<and> zero_ok (view (committed (pw s))) \<longrightarrow> zero_ok (view (committed (pw s'))))"
proof (cases "versionTableOnce s")
  case True
  with assms show ?thesis by (auto simp: ensureVersionTable_def calm_refl)
next
  case False
  obtain r1 w1 where t: "tryEnsureVersionTable p (pw s) = (r1, w1)" by fastforce
  from tryEnsure_grows [OF assms(1) _ _ assms(3) t] False t assms(2,4) show ?thesis
    by (auto simp: ensureVersionTable_def host_ok_def)
qed

lemma initialize_cases:
  assumes "p_store p = st" and "host_ok view p" and "idle s" and "initialize p ul s = (r, s')"
  shows "case r of
     Inl _ \<Rightarrow> released s s' \<and> grows (view (committed (pw s))) (view (committed (pw s'))) \<and>
       (versionTableOnce s \<longrightarrow> view (committed (pw s')) = view (committed (pw s)))
   | Inr c \<Rightarrow> started view p s s'"
proof -
  have lk: "lockers_ok view (p_cfg p)" using assms(2) by (simp add: host_ok_def)
  obtain rc w1 where dc: "db_Conn (pw s) = (rc, w1)" by fastforce
  note c = db_Conn_cases [OF dc]
  show ?thesis
  proof (cases rc)
    case (Some e)
    with assms(3,4) dc c show ?thesis by (auto simp: initialize_def idle_def released_def)
  next
    case None
    let ?s0 = "s\<lparr>mu := True, pw := w1\<rparr>"
    have t0: "txn (pw ?s0) = None" using c assms(3) by (simp add: idle_def)
    obtain ra s1 where al: "acquire_locks p ul ?s0 = (ra, s1)" by fastforce
    note a = acquire_locks_cases [OF lk t0 al]
    show ?thesis
    proof (cases ra)
      case (Inl e)
      with None assms(3,4) dc al have "r = Inl e" "s' = s1" by (auto simp: initialize_def idle_def)
      with a Inl c None assms(3) show ?thesis by (auto simp: released_def cleaned_def idle_def)
    next
      case (Inr cl)
      with a have k: "kept view ?s0 s1" by simp
      then have t1: "txn (pw s1) = None" by (simp add: kept_def calm_def)
      show ?thesis
      proof (cases "disableVersioning (p_cfg p)")
        case True
        with None Inr assms(3,4) dc al have "r = Inr cl" "s' = s1" by (auto simp: initialize_def idle_def)
        with k c None True assms(3) show ?thesis by (auto simp: started_def kept_def calm_def idle_def)
      next
        case False
        obtain re s2 where ev: "ensureVersionTable p s1 = (re, s2)" by fastforce
        note e = ensureVersionTable_cases [OF assms(1,2) t1 ev]
        show ?thesis
        proof (cases re)
          case None
          with \<open>rc = None\<close> Inr False assms(3,4) dc al ev have "r = Inr cl" "s' = s2"
            by (auto simp: initialize_def idle_def)
          with k c \<open>rc = None\<close> None e False assms(3) show ?thesis
            by (auto simp: started_def kept_def calm_def idle_def grows_def split: option.splits)
        next
          case (Some x)
          with \<open>rc = None\<close> Inr False assms(3,4) dc al ev have ac: "append_cleanup p x cl s2 = (r, s')"
            by (auto simp: initialize_def idle_def)
          have "txn (pw s2) = None" using e by (simp add: calm_def)
          from append_cleanup_cleaned [OF lk this ac] obtain e' where "cleaned view s2 s'" "r = Inl e'" by auto
          with e k c \<open>rc = None\<close> assms(3) show ?thesis
            by (auto simp: released_def cleaned_def kept_def calm_def idle_def)
        qed
      qed
    qed
  qed
qed

lemma with_init_cases:
  assumes "p_store p = st" and "host_ok view p" and "idle s" and "with_init p ul wrapE zero body s = ((x, e), s')"
    and body: "\<And>s1 y s2. started view p s s1 \<Longrightarrow> body s1 = (y, s2) \<Longrightarrow> steady s1 s2"
  obtains (failed) "x = zero" "e \<noteq> None" "released s s'" "grows (view (committed (pw s))) (view (committed (pw s')))"
      "versionTableOnce s \<longrightarrow> view (committed (pw s')) = view (committed (pw s))"
  | (ran) s1 s2 e0 where "started view p s s1" "body s1 = ((x, e0), s2)" "released s s'"
      "migrations s' = migrations s2" "view (committed (pw s')) = view (committed (pw s2))" "e0 \<noteq> None \<longrightarrow> e \<noteq> None" "versionTableOnce s' = versionTableOnce s2"
proof -
  obtain r s1 where i: "initialize p ul s = (r, s1)" by fastforce
  note ic = initialize_cases [OF assms(1-3) i]
  show thesis
  proof (cases r)
    case (Inl e1)
    with ic i assms(4) show thesis by (intro failed) (auto simp: with_init_def)
  next
    case (Inr c)
    with ic have st: "started view p s s1" by simp
    obtain x0 e0 s2 where b: "body s1 = ((x0, e0), s2)" by (metis prod.exhaust)
    have sd: "steady s1 s2" using body [OF st b] .
    obtain ce s3 where rc: "run_cleanup p c s2 = (ce, s3)" by fastforce
    have lk: "lockers_ok view (p_cfg p)" using assms(2) by (simp add: host_ok_def)
    have "txn (pw s2) = None" using sd by (simp add: steady_def calm_def)
    from run_cleanup_cleaned [OF lk this rc] have cl: "cleaned view s2 s3" .
    have eq: "x = x0" "s' = s3" "e = multierr_append (p_ext (p_host p)) e0 ce"
      using assms(4) i Inr b rc by (auto simp: with_init_def deferring_def)
    have "released s s'" using st sd cl eq(2)
      by (auto simp: released_def started_def steady_def cleaned_def calm_def)
    moreover have "e0 \<noteq> None \<longrightarrow> e \<noteq> None"
      using eq(3) append_laws_Some assms(2) by (cases e0) (auto simp: host_ok_def)
    ultimately show thesis using st b cl eq by (intro ran [of s1 e0 s2]) (auto simp: cleaned_def)
  qed
qed

end

end
