(* ===== verification/Provider_Ops_Lemmas.thy ===== *)
theory Provider_Ops_Lemmas
  imports Provider_Init_Lemmas
begin

text \<open>
  The bodies of the provider's operations: each leaves the provider as it found it but for the
  database, and the operations that run migrations move the version table by the versions they
  select.
\<close>

section \<open>Every body is steady\<close>

context version_store
begin

lemma runIndividually_calm:
  assumes "p_store p = st" and "append_laws (p_ext (p_host p))" and "txn w = None"
    and "runIndividually p m dir w = (r, w')"
  shows "calm w w'"
proof -
  have direct: "calm w w'" if "run_and_record p h m dir w = (r, w')" and h: "h \<in> {HDB, HConn}" for h
    using run_and_record_frame [OF assms(1) _ that(1)] frame_calm [of h w w'] h assms(3) by auto
  have tx: "calm w w'" if b: "beginTx p (run_and_record p HTx m dir) w = (r, w')"
    using b assms(3,2)
  proof (rule beginTx_cases)
    show "\<And>w1 r1 w2. txn w1 \<noteq> None \<Longrightarrow> run_and_record p HTx m dir w1 = (r1, w2) \<Longrightarrow> frame HTx w1 w2"
      using run_and_record_frame [OF assms(1)] by (simp add: usable_def)
  qed (auto simp: calm_def)
  show ?thesis
    using assms(3,4) direct tx
    by (cases "useTx m dir"; cases "Type m") (auto simp: runIndividually_def calm_refl split: if_splits)
qed

lemma run_all_calm:
  assumes "p_store p = st" and "append_laws (p_ext (p_host p))" and "txn w = None" and "run_all p d ms acc w = (r, w')"
  shows "calm w w'"
  using assms(3,4)
proof (induction ms arbitrary: acc w)
  case Nil
  then show ?case by (auto simp: calm_refl)
next
  case (Cons m ms)
  obtain r1 w1 where r1: "runIndividually p m (ToBool d) w = (r1, w1)" by fastforce
  note c = runIndividually_calm [OF assms(1,2) Cons.prems(1) r1]
  show ?case
  proof (cases r1)
    case None
    with r1 Cons.prems(2) have "run_all p d ms (acc @ [result_of m d None]) w1 = (r, w')" by simp
    from Cons.IH [OF _ this] c show ?thesis by (auto simp: calm_def)
  next
    case (Some e)
    with r1 Cons.prems(2) c show ?thesis by auto
  qed
qed

lemma max_version_steady:
  assumes "p_store p = st" and "txn (pw s) = None" and "max_version p (pw s) = (r, w')"
  shows "steady s (s\<lparr>pw := w'\<rparr>)"
  using max_version_calm [OF assms(1,3,2)] by (simp add: steady_pw)

lemma steady_txn: "steady s s' \<Longrightarrow> txn (pw s') = None"
  by (simp add: steady_def calm_def)

lemma runMigrations_steady:
  assumes "p_store p = st" and "append_laws (p_ext (p_host p))" and "txn (pw s) = None"
    and "runMigrations p ms d byOne s = (r, s')"
  shows "steady s s'"
proof (cases "ms = []")
  case True
  obtain r1 w1 where m: "max_version p (pw s) = (r1, w1)" by fastforce
  with True assms(3,4) max_version_steady [OF assms(1,3) m] show ?thesis
    by (auto simp: runMigrations_def steady_def calm_refl split: if_splits sum.splits)
next
  case False
  obtain perr prepared where pa: "prepare_all p (ToBool d) (if byOne then take 1 ms else ms) = (perr, prepared)"
    by fastforce
  define s1 where "s1 = s\<lparr>migrations := write_back prepared (migrations s)\<rparr>"
  have s1: "steady s s1" using assms(3) by (simp add: s1_def steady_def calm_refl write_back_versions)
  obtain r1 w1 where ra: "run_all p d prepared [] (pw s1) = (r1, w1)" by fastforce
  have s2: "steady s (s1\<lparr>pw := w1\<rparr>)"
    using steady_trans [OF s1 steady_pw] run_all_calm [OF assms(1,2) steady_txn [OF s1] ra] by blast
  obtain r2 w2 where mx: "max_version p w1 = (r2, w2)" by fastforce
  have s3: "steady s (s1\<lparr>pw := w2\<rparr>)"
    using steady_trans [OF s2 max_version_steady [OF assms(1) steady_txn [OF s2]]] mx by simp
  have "s' \<in> {s1, s1\<lparr>pw := w1\<rparr>, s1\<lparr>pw := w2\<rparr>}"
    using assms(4) False pa ra mx unfolding runMigrations_def Let_def s1_def [symmetric]
    by (auto simp: s1_def [symmetric] split: option.splits sum.splits if_splits)
  with s1 s2 s3 show ?thesis by auto
qed

lemma run_body_steady:
  assumes "p_store p = st" and "host_ok view p" and "txn (pw s) = None" and "run_body p ms d byOne s = (y, s')"
  shows "steady s s'"
proof -
  obtain r s1 where "runMigrations p ms d byOne s = (r, s1)" by fastforce
  with runMigrations_steady [OF assms(1) _ assms(3) this] assms(2,4) show ?thesis
    by (auto simp: run_body_def host_ok_def)
qed

lemma list_steady:
  assumes "p_store p = st" and "txn (pw s) = None" and "ListMigrations st HConn (pw s) = (l, w1)"
  shows "steady s (s\<lparr>pw := w1\<rparr>)"
  using list_frame [OF assms(3)] frame_calm [of HConn "pw s" w1] assms(2) by (simp add: steady_pw)

lemma run_body_after:
  assumes "p_store p = st" and "host_ok view p" and "steady s s1" and "run_body p ms d byOne s1 = (y, s')"
  shows "steady s s'"
  using steady_trans [OF assms(3) run_body_steady [OF assms(1,2) steady_txn [OF assms(3)] assms(4)]] .

lemma steady_refl: "txn (pw s) = None \<Longrightarrow> steady s s"
  by (simp add: steady_def calm_refl)

lemma up_body_steady:
  assumes "p_store p = st" and "host_ok view p" and "txn (pw s) = None" and "up_body p byOne v s = (y, s')"
  shows "steady s s'"
proof -
  obtain l w1 where l: "ListMigrations st HConn (pw s) = (l, w1)" by fastforce
  note ls = list_steady [OF assms(1,3) l]
  show ?thesis
    using assms(4) l ls steady_refl [OF assms(3)] run_body_steady [OF assms(1,2,3)] run_body_after [OF assms(1,2) ls]
    unfolding up_body_def assms(1) by (auto split: if_splits sum.splits)
qed

lemma down_body_steady:
  assumes "p_store p = st" and "host_ok view p" and "txn (pw s) = None" and "down_body p byOne v s = (y, s')"
  shows "steady s s'"
proof -
  obtain l w1 where l: "ListMigrations st HConn (pw s) = (l, w1)" by fastforce
  note ls = list_steady [OF assms(1,3) l]
  show ?thesis
    using assms(4) l ls steady_refl [OF assms(3)] run_body_steady [OF assms(1,2,3)] run_body_after [OF assms(1,2) ls]
    unfolding down_body_def assms(1) by (auto split: if_splits sum.splits list.splits)
qed

lemma hasPending_body_steady:
  assumes "p_store p = st" and "txn (pw s) = None" and "hasPending_body p s = (y, s')"
  shows "steady s s'"
proof -
  obtain l w1 where l: "ListMigrations st HConn (pw s) = (l, w1)" by fastforce
  show ?thesis
    using assms(3) l list_steady [OF assms(1,2) l] steady_refl [OF assms(2)]
    unfolding hasPending_body_def assms(1) by (auto split: if_splits sum.splits)
qed

lemma get_steady:
  assumes "txn (pw s) = None" and "GetMigration st HConn v (pw s) = (g, w1)"
  shows "steady s (s\<lparr>pw := w1\<rparr>)"
  using get_frame [OF assms(2)] frame_calm [of HConn "pw s" w1] assms(1) by (simp add: steady_pw)

lemma apply_body_steady:
  assumes "p_store p = st" and "host_ok view p" and "txn (pw s) = None" and "apply_body p m v dir s = (y, s')"
  shows "steady s s'"
proof -
  obtain g w1 where g: "GetMigration st HConn v (pw s) = (g, w1)" by fastforce
  note gs = get_steady [OF assms(3) g]
  show ?thesis
    using assms(4) g gs run_body_steady [OF assms(1,2,3)] run_body_after [OF assms(1,2) gs]
    unfolding apply_body_def assms(1) Let_def by (auto split: if_splits sum.splits)
qed

lemma latest_steady:
  assumes "txn (pw s) = None" and "GetLatestVersion st HConn (pw s) = (g, w1)"
  shows "steady s (s\<lparr>pw := w1\<rparr>)"
  using latest_frame [OF assms(2)] frame_calm [of HConn "pw s" w1] assms(1) by (simp add: steady_pw)

lemma getVersions_body_steady:
  assumes "p_store p = st" and "txn (pw s) = None" and "getVersions_body p s = (y, s')"
  shows "steady s s'"
proof -
  obtain g w1 where g: "GetLatestVersion st HConn (pw s) = (g, w1)" by fastforce
  show ?thesis
    using assms(3) g latest_steady [OF assms(2) g] steady_refl [OF assms(2)]
    unfolding getVersions_body_def assms(1) Let_def by (auto split: if_splits sum.splits)
qed

lemma max_version_body_steady:
  assumes "p_store p = st" and "txn (pw s) = None" and "max_version_body p s = (y, s')"
  shows "steady s s'"
proof -
  obtain g w1 where "max_version p (pw s) = (g, w1)" by fastforce
  with max_version_steady [OF assms(1,2) this] assms(3) show ?thesis
    by (auto simp: max_version_body_def split: sum.splits)
qed

lemma status_loop_calm:
  assumes "p_store p = st" and "txn w = None" and "status_loop p ms acc w = (r, w')"
  shows "calm w w' \<and> committed w' = committed w"
  using assms(2,3)
proof (induction ms arbitrary: acc w)
  case Nil
  then show ?case by (auto simp: calm_refl)
next
  case (Cons m ms)
  obtain g w1 where g: "GetMigration st HConn (Version m) w = (g, w1)" by fastforce
  have w1: "calm w w1" "committed w1 = committed w"
    using get_frame [OF g] frame_calm [of HConn w w1] Cons.prems(1) by auto
  then have t1: "txn w1 = None" by (simp add: calm_def)
  have "(r, w') = (r, w1) \<or> (\<exists>acc'. status_loop p ms acc' w1 = (r, w')) \<or> (\<exists>acc'. status_loop p ms acc' w = (r, w'))"
    using Cons.prems(2) g assms(1) by (auto split: if_splits sum.splits)
  with Cons.IH [OF t1] Cons.IH [OF Cons.prems(1)] w1 show ?case by (auto intro: calm_trans)
qed

lemma status_body_steady:
  assumes "p_store p = st" and "txn (pw s) = None" and "status_body p s = (y, s')"
  shows "steady s s'"
proof -
  obtain r w1 where "status_loop p (migrations s) [] (pw s) = (r, w1)" by fastforce
  with status_loop_calm [OF assms(1,2) this] assms(3) steady_pw show ?thesis by (auto simp: status_body_def)
qed

end

section \<open>What the bodies do\<close>

lemma getMigration_ok: "getMigration v ms = Inr m \<Longrightarrow> m \<in> set ms \<and> Version m = v"
  by (induction ms) (auto split: if_splits)

lemma getMigration_found: "v \<in> Version ` set ms \<Longrightarrow> \<exists>m. getMigration v ms = Inr m"
  by (induction ms) auto

lemma getMigrations_ok: "getMigrations vs ms = Inr app \<Longrightarrow> map Version app = vs \<and> set app \<subseteq> set ms"
  by (induction vs arbitrary: app) (auto split: sum.splits dest: getMigration_ok)

lemma getMigrations_found: "set vs \<subseteq> Version ` set ms \<Longrightarrow> \<exists>app. getMigrations vs ms = Inr app"
proof (induction vs)
  case (Cons v vs)
  then show ?case using getMigration_found [of v ms] by (auto split: sum.splits)
qed simp

lemma down_migrations_ok:
  "down_migrations target vs ms = Inr app \<Longrightarrow> map Version app = takeWhile (\<lambda>v. v > target) vs \<and> set app \<subseteq> set ms"
  by (induction vs arbitrary: app) (auto split: sum.splits if_splits dest: getMigration_ok)

text \<open>What a list of migrations to run becomes when only one is asked for.\<close>

definition one_or_all :: "bool \<Rightarrow> 'a list \<Rightarrow> 'a list" where
  "one_or_all byOne xs = (if byOne then take 1 xs else xs)"

definition result_versions :: "MigrationResult list \<Rightarrow> version list" where
  "result_versions res = map (\<lambda>r. SVersion (RSource r)) res"

lemma UpVersions_within: "UpVersions fsys db target allow = Inr out \<Longrightarrow> set out \<subseteq> set fsys"
  by (auto simp: UpVersions_def Let_def split: if_splits)

context version_store
begin

lemma run_body_moves:
  assumes "p_store p = st" and "host_ok view p" and "\<not> disableVersioning (p_cfg p)"
    and "\<forall>m\<in>set ms. spares_prepared view p m (ToBool d)"
    and "txn (pw s) = None" and "view (committed (pw s)) = Some vs"
    and "run_body p ms d byOne s = ((res, e), s')"
  shows "\<exists>vs'. view (committed (pw s')) = Some vs' \<and>
     (if e = None
      then result_versions res = one_or_all byOne (map Version ms) \<and>
        moved added (ToBool d) (one_or_all byOne (map Version ms)) vs vs'
      else \<exists>k. moved added (ToBool d) (take k (one_or_all byOne (map Version ms))) vs vs')"
proof -
  obtain r s1 where rm: "runMigrations p ms d byOne s = (r, s1)" by fastforce
  have al: "append_laws (p_ext (p_host p))" using assms(2) by (simp add: host_ok_def)
  have mp: "map Version (one_or_all byOne ms) = one_or_all byOne (map Version ms)"
    by (simp add: one_or_all_def take_map)
  from runMigrations_moves [OF assms(1,3) al assms(4,5,6) rm one_or_all_def [of byOne ms]]
  show ?thesis using assms(7) rm mp
    by (cases r) (auto simp: run_body_def returns_def result_versions_def)
qed

lemma up_body_moves:
  assumes "p_store p = st" and "host_ok view p" and "\<not> disableVersioning (p_cfg p)"
    and "\<forall>m\<in>set (migrations s). spares_prepared view p m True"
    and "txn (pw s) = None" and "view (committed (pw s)) = Some vs" and "migrations s \<noteq> []"
    and "up_body p byOne v s = ((res, e), s')"
    and sel: "sel = UpVersions (map Version (migrations s)) vs v (allowMissing (p_cfg p))"
  shows "\<exists>vs'. view (committed (pw s')) = Some vs' \<and>
     (if e = None
      then \<exists>out. sel = Inr out \<and> vs \<noteq> [] \<and> result_versions res = one_or_all byOne out \<and>
        moved added True (one_or_all byOne out) vs vs'
      else vs' = vs \<or> (\<exists>out k. sel = Inr out \<and> moved added True (take k (one_or_all byOne out)) vs vs'))"
proof -
  obtain l w1 where l: "ListMigrations st HConn (pw s) = (l, w1)" by fastforce
  have w1: "committed w1 = committed (pw s)" "txn w1 = None"
    using list_frame [OF l] frame_calm [of HConn "pw s" w1] assms(5) by (auto simp: calm_def)
  show ?thesis
  proof (cases l)
    case (Inl x)
    with assms l w1 show ?thesis by (auto simp: up_body_def)
  next
    case (Inr rows)
    have rows: "map LVersion rows = vs" using list_ok l Inr assms(6) by fastforce
    let ?s1 = "s\<lparr>pw := w1\<rparr>"
    show ?thesis
    proof (cases "rows = []")
      case True
      with Inr assms l w1 show ?thesis by (auto simp: up_body_def)
    next
      case False
      then have vs: "vs \<noteq> []" using rows by auto
      have step: "((res, e), s') = (case sel of Inl e \<Rightarrow> (([], Some e), ?s1)
         | Inr versions \<Rightarrow> (case getMigrations versions (migrations s) of Inl e \<Rightarrow> (([], Some e), ?s1)
             | Inr app \<Rightarrow> run_body p app DirectionUp byOne ?s1))"
        unfolding assms(8) [symmetric] using Inr False assms(1,3,7) l
        by (simp add: sel rows [symmetric] up_body_def getVersionsFromMigrations_def getVersionsFromListMigrations_def)
      have same: "view (committed (pw ?s1)) = Some vs" using w1 assms(6) by simp
      show ?thesis
      proof (cases sel)
        case (Inl x)
        with step same show ?thesis by simp
      next
        case out: (Inr out)
        show ?thesis
        proof (cases "getMigrations out (migrations s)")
          case (Inl x)
          with step same out show ?thesis by simp
        next
          case app: (Inr app)
          note ga = getMigrations_ok [OF app]
          have rb: "run_body p app DirectionUp byOne ?s1 = ((res, e), s')"
            using step out app by simp
          have sp: "\<forall>m\<in>set app. spares_prepared view p m (ToBool DirectionUp)"
            using assms(4) ga by (auto simp: ToBool_def)
          have "txn (pw ?s1) = None" "view (committed (pw ?s1)) = Some vs" using w1 assms(6) by simp_all
          from run_body_moves [OF assms(1-3) sp this rb] show ?thesis
            using ga vs out by (auto simp: ToBool_def split: if_splits)
        qed
      qed
    qed
  qed
qed

lemma down_body_moves:
  assumes "p_store p = st" and "host_ok view p" and "\<not> disableVersioning (p_cfg p)"
    and "\<forall>m\<in>set (migrations s). spares_prepared view p m False"
    and "txn (pw s) = None" and "view (committed (pw s)) = Some vs" and "migrations s \<noteq> []"
    and "down_body p byOne v s = ((res, e), s')"
    and sel: "sel = one_or_all byOne (if hd vs = 0 then [] else takeWhile (\<lambda>x. x > v) vs)"
  shows "\<exists>vs'. view (committed (pw s')) = Some vs' \<and>
     (if e = None then vs \<noteq> [] \<and> result_versions res = sel \<and> moved added False sel vs vs'
      else \<exists>k. moved added False (take k sel) vs vs')"
proof -
  obtain l w1 where l: "ListMigrations st HConn (pw s) = (l, w1)" by fastforce
  have w1: "committed w1 = committed (pw s)" "txn w1 = None"
    using list_frame [OF l] frame_calm [of HConn "pw s" w1] assms(5) by (auto simp: calm_def)
  have none: ?thesis if "e \<noteq> None" and "s' = s\<lparr>pw := w1\<rparr>"
    using that w1 assms(6) by (auto intro!: exI [of _ 0])
  show ?thesis
  proof (cases l)
    case (Inl x)
    with assms(1,3,7,8) l none show ?thesis by (auto simp: down_body_def)
  next
    case (Inr rows)
    have rows: "map LVersion rows = vs" using list_ok l Inr assms(6) by fastforce
    show ?thesis
    proof (cases rows)
      case Nil
      with Inr assms(1,3,7,8) l none show ?thesis by (auto simp: down_body_def)
    next
      case (Cons d ds)
      then have vs: "vs = LVersion d # map LVersion ds" using rows by simp
      show ?thesis
      proof (cases "LVersion d = 0")
        case True
        with Inr Cons assms l w1 vs show ?thesis
          by (auto simp: down_body_def one_or_all_def result_versions_def)
      next
        case False
        show ?thesis
        proof (cases "down_migrations v vs (migrations s)")
          case (Inl x)
          with False Inr Cons assms(1,3,7,8) l vs none show ?thesis by (auto simp: down_body_def)
        next
          case app: (Inr app)
          note da = down_migrations_ok [OF app]
          have rb: "run_body p app DirectionDown byOne (s\<lparr>pw := w1\<rparr>) = ((res, e), s')"
            using False Inr Cons assms(1,3,7,8) l vs app by (auto simp: down_body_def)
          have sp: "\<forall>m\<in>set app. spares_prepared view p m (ToBool DirectionDown)"
            using assms(4) da by (auto simp: ToBool_def)
          have "txn (pw (s\<lparr>pw := w1\<rparr>)) = None" "view (committed (pw (s\<lparr>pw := w1\<rparr>))) = Some vs"
            using w1 assms(6) by simp_all
          from run_body_moves [OF assms(1-3) sp this rb] show ?thesis
            using da vs False sel by (auto simp: ToBool_def split: if_splits)
        qed
      qed
    qed
  qed
qed

end

end
