(* ===== verification/Provider_Props.thy ===== *)
theory Provider_Props
  imports Provider_Ops_Lemmas
begin

text \<open>
  The properties of a provider's operations, for every store that meets the contract, every host that
  behaves as documented and every behaviour of the driver. A migration is assumed not to write to
  goose's own version table.
\<close>

definition recorded :: "('d \<Rightarrow> version list option) \<Rightarrow> 'd pstate \<Rightarrow> version set" where
  "recorded view s = (case view (committed (pw s)) of None \<Rightarrow> {} | Some vs \<Rightarrow> set vs)"

definition versions :: "'d pstate \<Rightarrow> version list" where
  "versions s = map Version (migrations s)"

text \<open>What is assumed of a provider at rest, for one direction.\<close>

definition well_formed :: "('d \<Rightarrow> version list option) \<Rightarrow> 'd provider \<Rightarrow> bool \<Rightarrow> 'd pstate \<Rightarrow> bool" where
  "well_formed view p dir s \<longleftrightarrow> host_ok view p \<and> idle s \<and> \<not> disableVersioning (p_cfg p) \<and>
     migrations s \<noteq> [] \<and> distinct (versions s) \<and> (\<forall>v\<in>set (versions s). 1 \<le> v \<and> v \<le> MaxInt64) \<and>
     (\<forall>m\<in>set (migrations s). spares_prepared view p m dir)"

lemma grows_recorded:
  "grows (view (committed (pw s))) (view (committed (pw s'))) \<Longrightarrow>
     recorded view s \<subseteq> recorded view s' \<and> recorded view s' \<subseteq> insert 0 (recorded view s)"
  by (auto simp: grows_def recorded_def split: option.splits)

lemma idle_released: "idle s \<Longrightarrow> released s s' \<Longrightarrow> idle s'"
  by (simp add: idle_def released_def)

context version_store
begin

lemma hasPending_result:
  assumes "p_store p = st" and "host_ok view p" and "idle s" and "\<not> disableVersioning (p_cfg p)"
    and "hasPending p s = ((b, None), s')"
  shows "released s s' \<and> migrations s' = migrations s \<and> (\<exists>vs out. view (committed (pw s')) = Some vs \<and>
     grows (view (committed (pw s))) (Some vs) \<and>
     UpVersions (versions s) vs MaxInt64 (allowMissing (p_cfg p)) = Inr out \<and> b = (out \<noteq> []))"
proof (rule with_init_cases [OF assms(1-3), of False init_failed False "hasPending_body p" b None s'])
  show "with_init p False init_failed False (hasPending_body p) s = ((b, None), s')"
    using assms(5) by (simp add: hasPending_def)
next
  fix s1 y s2 assume "started view p s s1" "hasPending_body p s1 = (y, s2)"
  then show "steady s1 s2" using hasPending_body_steady [OF assms(1)] by (auto simp: started_def)
next
  fix s1 s2 e0
  assume st1: "started view p s s1" and b1: "hasPending_body p s1 = ((b, e0), s2)" and rel: "released s s'"
    and ms: "migrations s' = migrations s2" and v': "view (committed (pw s')) = view (committed (pw s2))"
    and e0: "e0 \<noteq> None \<longrightarrow> None \<noteq> (None :: err option)"
  obtain l w1 where l: "ListMigrations st HConn (pw s1) = (l, w1)" by fastforce
  note lf = list_frame [OF l]
  from e0 have "e0 = None" by simp
  with b1 assms(1,4) l obtain rows out where rows: "l = Inr rows" and s2: "s2 = s1\<lparr>pw := w1\<rparr>"
    and out: "UpVersions (map Version (migrations s1)) (map LVersion rows) MaxInt64 (allowMissing (p_cfg p)) = Inr out"
    and b: "b = (out \<noteq> [])"
    by (auto simp: hasPending_body_def getVersionsFromMigrations_def getVersionsFromListMigrations_def split: sum.splits)
  have "view (committed (pw s1)) = Some (map LVersion rows)" using list_ok l rows by fastforce
  with st1 rel ms v' lf s2 out b show ?thesis
    by (auto simp: started_def versions_def)
qed auto

lemma hasPending_keeps:
  assumes "p_store p = st" and "host_ok view p" and "idle s" and "versionTableOnce s"
    and "hasPending p s = ((b, None), s')"
  shows "view (committed (pw s')) = view (committed (pw s))"
proof (rule with_init_cases [OF assms(1-3), of False init_failed False "hasPending_body p" b None s'])
  show "with_init p False init_failed False (hasPending_body p) s = ((b, None), s')"
    using assms(5) by (simp add: hasPending_def)
next
  fix s1 y s2 assume "started view p s s1" "hasPending_body p s1 = (y, s2)"
  then show "steady s1 s2" using hasPending_body_steady [OF assms(1)] by (auto simp: started_def)
next
  fix s1 s2 e0
  assume st1: "started view p s s1" and b1: "hasPending_body p s1 = ((b, e0), s2)"
    and v': "view (committed (pw s')) = view (committed (pw s2))"
  obtain l w1 where l: "ListMigrations st HConn (pw s1) = (l, w1)" by fastforce
  have "committed (pw s2) = committed (pw s1)"
    using b1 assms(1) l list_frame [OF l]
    by (auto simp: hasPending_body_def split: if_splits sum.splits)
  with st1 assms(4) v' show ?thesis by (auto simp: started_def)
qed auto

lemma with_init_released:
  assumes "p_store p = st" and "host_ok view p" and "idle s" and "with_init p ul wrapE zero body s = (y, s')"
    and "\<And>s1 y s2. txn (pw s1) = None \<Longrightarrow> body s1 = (y, s2) \<Longrightarrow> steady s1 s2"
  shows "released s s'"
proof -
  obtain x e where y: "y = (x, e)" by fastforce
  show ?thesis
    by (rule with_init_cases [OF assms(1-3) assms(4) [unfolded y]]) (auto simp: started_def intro: assms(5))
qed

lemma hasPending_released:
  assumes "p_store p = st" and "host_ok view p" and "idle s" and "hasPending p s = (y, s')"
  shows "released s s'"
  using with_init_released [OF assms(1-3) assms(4) [unfolded hasPending_def]] hasPending_body_steady [OF assms(1)] by blast

lemma up_released:
  assumes "p_store p = st" and "host_ok view p" and "idle s" and "up p byOne v s = (y, s')"
  shows "released s s'"
proof (cases "v < 1")
  case True
  with assms(3,4) show ?thesis by (auto simp: up_def released_def idle_def)
next
  case False
  then have "with_init p True init_failed [] (up_body p byOne v) s = (y, s')" using assms(4) by (simp add: up_def)
  from with_init_released [OF assms(1-3) this] up_body_steady [OF assms(1,2)] show ?thesis by blast
qed

lemma down_released:
  assumes "p_store p = st" and "host_ok view p" and "idle s" and "down p byOne v s = (y, s')"
  shows "released s s'"
  using with_init_released [OF assms(1-3) assms(4) [unfolded down_def]] down_body_steady [OF assms(1,2)] by blast

lemma apply_version_released:
  assumes "p_store p = st" and "host_ok view p" and "idle s" and "apply_version p v dir s = (y, s')"
  shows "released s s'"
proof (cases "\<exists>m. \<not> v < 1 \<and> getMigration v (migrations s) = Inr m")
  case True
  then obtain m where "with_init p True init_failed [] (apply_body p m v dir) s = (y, s')"
    using assms(4) by (auto simp: apply_version_def)
  from with_init_released [OF assms(1-3) this] apply_body_steady [OF assms(1,2)] show ?thesis by blast
next
  case False
  with assms(3,4) show ?thesis
    by (auto simp: apply_version_def released_def idle_def split: if_splits sum.splits)
qed

lemma released_trans: "released s1 s2 \<Longrightarrow> released s2 s3 \<Longrightarrow> released s1 s3"
  by (auto simp: released_def)

lemma after_pending:
  assumes "p_store p = st" and "host_ok view p" and "idle s" and "HasPending p s = (y, s1)"
    and "\<And>y. idle s1 \<Longrightarrow> op s1 = (y, s') \<Longrightarrow> released s1 s'" and "s' = s1 \<or> (\<exists>y. op s1 = (y, s'))"
  shows "released s s'"
proof -
  have "released s s1" using hasPending_released [OF assms(1-3)] assms(4) by (simp add: HasPending_def)
  with assms(5,6) idle_released [OF assms(3)] show ?thesis by (auto intro: released_trans)
qed

lemma Up_released:
  assumes "p_store p = st" and "host_ok view p" and "idle s" and "Up p s = (y, s')"
  shows "released s s'"
proof -
  obtain y1 s1 where h: "HasPending p s = (y1, s1)" by fastforce
  show ?thesis
  proof (rule after_pending [OF assms(1-3) h, of "up p False MaxInt64"])
    show "s' = s1 \<or> (\<exists>y. up p False MaxInt64 s1 = (y, s'))"
      using assms(4) h by (auto simp: Up_def split: prod.splits option.splits if_splits)
  qed (rule up_released [OF assms(1,2)])
qed

lemma UpTo_released:
  assumes "p_store p = st" and "host_ok view p" and "idle s" and "UpTo p v s = (y, s')"
  shows "released s s'"
proof -
  obtain y1 s1 where h: "HasPending p s = (y1, s1)" by fastforce
  show ?thesis
  proof (rule after_pending [OF assms(1-3) h, of "up p False v"])
    show "s' = s1 \<or> (\<exists>y. up p False v s1 = (y, s'))"
      using assms(4) h by (auto simp: UpTo_def split: prod.splits option.splits if_splits)
  qed (rule up_released [OF assms(1,2)])
qed

lemma UpByOne_released:
  assumes "p_store p = st" and "host_ok view p" and "idle s" and "UpByOne p s = (y, s')"
  shows "released s s'"
proof -
  obtain y1 s1 where h: "HasPending p s = (y1, s1)" by fastforce
  show ?thesis
  proof (rule after_pending [OF assms(1-3) h, of "up p True MaxInt64"])
    show "s' = s1 \<or> (\<exists>y. up p True MaxInt64 s1 = (y, s'))"
      using assms(4) h by (auto simp: UpByOne_def split: prod.splits option.splits if_splits)
  qed (rule up_released [OF assms(1,2)])
qed

lemma Down_released:
  assumes "p_store p = st" and "host_ok view p" and "idle s" and "Down p s = (y, s')"
  shows "released s s'"
proof -
  obtain y1 where "down p True 0 s = (y1, s')"
    using assms(4) by (auto simp: Down_def split: prod.splits option.splits if_splits)
  with down_released [OF assms(1-3)] show ?thesis by blast
qed

lemma DownTo_released:
  assumes "p_store p = st" and "host_ok view p" and "idle s" and "DownTo p v s = (y, s')"
  shows "released s s'"
  using assms down_released [OF assms(1-3)] by (auto simp: DownTo_def released_def idle_def split: if_splits)

lemma ApplyVersion_released:
  assumes "p_store p = st" and "host_ok view p" and "idle s" and "ApplyVersion p v dir s = (y, s')"
  shows "released s s'"
proof -
  obtain y1 where "apply_version p v dir s = (y1, s')"
    using assms(4) by (auto simp: ApplyVersion_def split: prod.splits option.splits if_splits)
  with apply_version_released [OF assms(1-3)] show ?thesis by blast
qed

lemma GetVersions_released:
  assumes "p_store p = st" and "host_ok view p" and "idle s" and "GetVersions p s = (y, s')"
  shows "released s s'"
  using with_init_released [OF assms(1-3) assms(4) [unfolded GetVersions_def getVersions_def]]
    getVersions_body_steady [OF assms(1)] by blast

lemma GetDBVersion_released:
  assumes "p_store p = st" and "host_ok view p" and "idle s" and "GetDBVersion p s = (y, s')"
  shows "released s s'"
proof (cases "disableVersioning (p_cfg p)")
  case True
  with assms(3,4) show ?thesis by (auto simp: GetDBVersion_def released_def idle_def)
next
  case False
  with assms(4) have w: "with_init p True (\<lambda>e. e) 0 (max_version_body p) s = (y, s')"
    by (simp add: GetDBVersion_def getDBMaxVersion_def)
  show ?thesis using with_init_released [OF assms(1-3) w] max_version_body_steady [OF assms(1)] by blast
qed

lemma Status_released:
  assumes "p_store p = st" and "host_ok view p" and "idle s" and "Status p s = (y, s')"
  shows "released s s'"
  using with_init_released [OF assms(1-3) assms(4) [unfolded Status_def status_def]]
    status_body_steady [OF assms(1)] by blast

lemma up_body_no_table:
  assumes "p_store p = st" and "\<not> disableVersioning (p_cfg p)" and "migrations s \<noteq> []"
    and "view (committed (pw s)) = None" and "up_body p byOne v s = ((res, e), s')"
  shows "e \<noteq> None \<and> view (committed (pw s')) = None"
proof -
  obtain l w1 where l: "ListMigrations st HConn (pw s) = (l, w1)" by fastforce
  have "\<exists>x. l = Inl x" using list_ok [of HConn "pw s" _ w1] l assms(4) by (cases l) auto
  with list_frame [OF l] l assms show ?thesis by (auto simp: up_body_def)
qed

lemma up_result:
  assumes "p_store p = st" and "well_formed view p True s" and "1 \<le> v" and "up p byOne v s = ((res, e), s')"
  shows "released s s' \<and>
     (if e = None
      then \<exists>vs vs' out. grows (view (committed (pw s))) (Some vs) \<and> vs \<noteq> [] \<and>
        (versionTableOnce s \<longrightarrow> view (committed (pw s)) = Some vs) \<and>
        UpVersions (versions s) vs v (allowMissing (p_cfg p)) = Inr out \<and>
        result_versions res = one_or_all byOne out \<and> view (committed (pw s')) = Some vs' \<and>
        moved added True (one_or_all byOne out) vs vs'
      else recorded view s \<subseteq> recorded view s' \<and> recorded view s' \<subseteq> insert 0 (recorded view s) \<union> set (versions s))"
proof -
  have ho: "host_ok view p" and id: "idle s" and dv: "\<not> disableVersioning (p_cfg p)" and ne: "migrations s \<noteq> []"
    using assms(2) by (auto simp: well_formed_def)
  have wi: "with_init p True init_failed [] (up_body p byOne v) s = ((res, e), s')"
    using assms(3,4) by (simp add: up_def)
  have sd: "steady s1 s2" if "started view p s s1" "up_body p byOne v s1 = (y, s2)" for s1 y s2
    using up_body_steady [OF assms(1) ho _ that(2)] that(1) by (auto simp: started_def)
  show ?thesis
  proof (rule with_init_cases [OF assms(1) ho id wi sd])
    assume "e \<noteq> None" "released s s'" "grows (view (committed (pw s))) (view (committed (pw s')))"
    with grows_recorded [of view s s'] show ?thesis by auto
  next
    fix s1 s2 e0
    assume st1: "started view p s s1" and b: "up_body p byOne v s1 = ((res, e0), s2)" and rel: "released s s'"
      and v': "view (committed (pw s')) = view (committed (pw s2))" and e0: "e0 \<noteq> None \<longrightarrow> e \<noteq> None"
    have ms: "migrations s1 = migrations s" and t1: "txn (pw s1) = None"
      and g: "grows (view (committed (pw s))) (view (committed (pw s1)))"
      and once: "versionTableOnce s \<longrightarrow> view (committed (pw s1)) = view (committed (pw s))"
      using st1 by (auto simp: started_def)
    show ?thesis
    proof (cases "view (committed (pw s1))")
      case None
      with up_body_no_table [OF assms(1) dv _ None b] ne ms e0 have "e \<noteq> None" "view (committed (pw s2)) = None" by auto
      with g None v' rel show ?thesis by (auto simp: grows_def recorded_def split: option.splits)
    next
      case (Some vs)
      have sp: "\<forall>m\<in>set (migrations s1). spares_prepared view p m True"
        using assms(2) ms by (auto simp: well_formed_def)
      from up_body_moves [OF assms(1) ho dv sp t1 Some _ b refl] ne ms obtain vs' where
        vs': "view (committed (pw s2)) = Some vs'" and mv: "if e0 = None
          then \<exists>out. UpVersions (map Version (migrations s1)) vs v (allowMissing (p_cfg p)) = Inr out \<and> vs \<noteq> [] \<and>
            result_versions res = one_or_all byOne out \<and> moved added True (one_or_all byOne out) vs vs'
          else vs' = vs \<or> (\<exists>out k. UpVersions (map Version (migrations s1)) vs v (allowMissing (p_cfg p)) = Inr out \<and>
            moved added True (take k (one_or_all byOne out)) vs vs')" by auto
      have rec: "set vs \<subseteq> set vs' \<and> set vs' \<subseteq> set vs \<union> set (versions s)"
      proof -
        have "vs' = vs \<or> (\<exists>out ms'. UpVersions (map Version (migrations s1)) vs v (allowMissing (p_cfg p)) = Inr out \<and>
            set ms' \<subseteq> set out \<and> moved added True ms' vs vs')"
          using mv by (auto simp: one_or_all_def dest: in_set_takeD split: if_splits)
        then show ?thesis using moved_up_set UpVersions_within ms by (fastforce simp: versions_def)
      qed
      show ?thesis
      proof (cases "e = None")
        case True
        with e0 mv have "\<exists>out. UpVersions (map Version (migrations s1)) vs v (allowMissing (p_cfg p)) = Inr out \<and> vs \<noteq> [] \<and>
            result_versions res = one_or_all byOne out \<and> moved added True (one_or_all byOne out) vs vs'" by simp
        with True g Some v' vs' rel once ms show ?thesis by (auto simp: versions_def)
      next
        case False
        with g Some v' vs' rel rec show ?thesis by (auto simp: grows_def recorded_def split: option.splits)
      qed
    qed
  qed
qed

lemma Up_result:
  assumes "p_store p = st" and "well_formed view p True s" and "Up p s = ((res, None), s')"
  shows "released s s' \<and> result_versions res = sorted_list_of_set (set (versions s) - recorded view s) \<and>
     (\<exists>vs'. view (committed (pw s')) = Some vs' \<and> set vs' - {0} = (recorded view s - {0}) \<union> set (versions s))"
proof -
  have ho: "host_ok view p" and id: "idle s" and dv: "\<not> disableVersioning (p_cfg p)"
    and pos: "\<forall>v\<in>set (versions s). 1 \<le> v" "\<forall>v\<in>set (versions s). v \<le> MaxInt64" and di: "distinct (versions s)"
    using assms(2) by (auto simp: well_formed_def)
  obtain b e1 s1 where hp: "hasPending p s = ((b, e1), s1)" by (metis prod.exhaust)
  have "e1 = None" using hp assms(3) by (cases e1) (auto simp: Up_def HasPending_def)
  note h = hasPending_result [OF assms(1) ho id dv hp [unfolded this]]
  obtain vs1 out1 where v1: "view (committed (pw s1)) = Some vs1" "grows (view (committed (pw s))) (Some vs1)"
    and o1: "UpVersions (versions s) vs1 MaxInt64 (allowMissing (p_cfg p)) = Inr out1" and b: "b = (out1 \<noteq> [])"
    using h by auto
  have ver: "versions s1 = versions s" using h by (simp add: versions_def)
  have n0: "0 \<notin> set (versions s)" using pos(1) by force
  have zero: "v \<in> set (versions s) \<Longrightarrow> v \<notin> set vs \<longleftrightarrow> v \<notin> recorded view s"
    if "recorded view s \<subseteq> set vs" "set vs \<subseteq> insert 0 (recorded view s)" for v vs
    using that pos(1) by (metis insertE not_one_le_zero subsetD)
  have r1: "recorded view s \<subseteq> set vs1" "set vs1 \<subseteq> insert 0 (recorded view s)"
    using v1(2) by (auto simp: grows_def recorded_def split: option.splits)
  show ?thesis
  proof (cases b)
    case False
    with assms(3) hp \<open>e1 = None\<close> have "res = []" "s' = s1" by (auto simp: Up_def HasPending_def)
    moreover have e: "set (versions s) - recorded view s = {}"
      using UpVersions_set [OF o1 pos(1)] b False pos(2) zero [OF r1] by auto
    moreover have "set vs1 - {0} = (recorded view s - {0}) \<union> set (versions s)" using e r1 n0 by auto
    ultimately show ?thesis using h v1 by (simp add: result_versions_def e del: Diff_eq_empty_iff)
  next
    case True
    with assms(3) hp \<open>e1 = None\<close> have u: "up p False MaxInt64 s1 = ((res, None), s')"
      by (simp add: Up_def HasPending_def)
    have wf1: "well_formed view p True s1"
      using assms(2) h ver idle_released [OF id] by (auto simp: well_formed_def)
    from up_result [OF assms(1) wf1 _ u] obtain vs vs' out where rel: "released s1 s'"
      and g: "grows (view (committed (pw s1))) (Some vs)"
      and o: "UpVersions (versions s1) vs MaxInt64 (allowMissing (p_cfg p)) = Inr out"
      and res: "result_versions res = out" and v': "view (committed (pw s')) = Some vs'"
      and mv: "moved added True out vs vs'"
      by (auto simp: one_or_all_def MaxInt64_def)
    have r: "recorded view s \<subseteq> set vs" "set vs \<subseteq> insert 0 (recorded view s)"
      using g v1(1) r1 by (auto simp: grows_def)
    have out: "set out = set (versions s) - recorded view s"
      using UpVersions_set [OF o] pos zero [OF r] ver by auto
    have "out = sorted_list_of_set (set out)"
      using UpVersions_sorted [OF o] di ver by (simp add: sorted_list_of_set.idem_if_sorted_distinct)
    moreover have "set vs' - {0} = (recorded view s - {0}) \<union> set (versions s)"
      unfolding moved_up_set [OF mv] out using r n0 by blast
    moreover have "released s s'" using rel h by (auto simp: released_def)
    ultimately show ?thesis using res v' out by simp
  qed
qed

end

section \<open>Properties\<close>

text \<open>
  C1: when \<open>Up\<close> returns without an error, its results are exactly the known versions that were not
  recorded before, in ascending order, and afterwards the version table holds them besides what it
  held before (and the zero version). Nothing is skipped and nothing else is recorded, whatever
  faults the driver had.
\<close>

theorem Up_applies_pending:
  assumes "version_store (p_store p) view added" and "well_formed view p True s" and "Up p s = ((res, None), s')"
  shows "result_versions res = sorted_list_of_set (set (versions s) - recorded view s) \<and>
     recorded view s' - {0} = (recorded view s - {0}) \<union> set (versions s)"
proof -
  obtain vs' where "view (committed (pw s')) = Some vs'"
    and "set vs' - {0} = (recorded view s - {0}) \<union> set (versions s)"
    and "result_versions res = sorted_list_of_set (set (versions s) - recorded view s)"
    using version_store.Up_result [OF assms(1) refl assms(2,3)] by blast
  then show ?thesis by (simp add: recorded_def [of view s'])
qed


text \<open>
  The life of a provider: its exported operations in any order, and between them any change other
  users make to the database and any new fault of the driver.
\<close>

inductive provider_step :: "'d provider \<Rightarrow> 'd pstate \<Rightarrow> 'd pstate \<Rightarrow> bool" for p where
  up: "Up p s = (r, s') \<Longrightarrow> provider_step p s s'"
| up_to: "UpTo p v s = (r, s') \<Longrightarrow> provider_step p s s'"
| up_by_one: "UpByOne p s = (r1, s') \<Longrightarrow> provider_step p s s'"
| down: "Down p s = (r1, s') \<Longrightarrow> provider_step p s s'"
| down_to: "DownTo p v s = (r, s') \<Longrightarrow> provider_step p s s'"
| apply_version: "ApplyVersion p v dir s = (r1, s') \<Longrightarrow> provider_step p s s'"
| has_pending: "HasPending p s = (rb, s') \<Longrightarrow> provider_step p s s'"
| get_versions: "GetVersions p s = (rv, s') \<Longrightarrow> provider_step p s s'"
| get_db_version: "GetDBVersion p s = (rd, s') \<Longrightarrow> provider_step p s s'"
| status: "Status p s = (rs, s') \<Longrightarrow> provider_step p s s'"
| others: "provider_step p s (s\<lparr>pw := (pw s)\<lparr>committed := d, faults := fs\<rparr>\<rparr>)"

text \<open>At rest: the mutex is free, no transaction is open and no connection is held.\<close>

definition at_rest :: "nat \<Rightarrow> version list \<Rightarrow> 'd pstate \<Rightarrow> bool" where
  "at_rest n vs s \<longleftrightarrow> \<not> mu s \<and> txn (pw s) = None \<and> conns (pw s) = n \<and> map Version (migrations s) = vs"

lemma released_at_rest: "at_rest n vs s \<Longrightarrow> released s s' \<Longrightarrow> at_rest n vs s'"
  by (auto simp: at_rest_def released_def)

lemma provider_step_at_rest:
  assumes "version_store (p_store p) view added" and "host_ok view p"
    and "provider_step p s s'" and "at_rest n vs s"
  shows "at_rest n vs s'"
proof -
  have id: "idle s" using assms(4) by (simp add: at_rest_def idle_def)
  note rel = version_store.Up_released version_store.UpTo_released version_store.UpByOne_released
    version_store.Down_released version_store.DownTo_released version_store.ApplyVersion_released
    version_store.hasPending_released version_store.GetVersions_released version_store.GetDBVersion_released
    version_store.Status_released
  from assms(3) show ?thesis
  proof cases
    case (others d fs)
    with assms(4) show ?thesis by (simp add: at_rest_def)
  qed (use released_at_rest [OF assms(4)] rel [OF assms(1) refl assms(2) id] in \<open>auto simp: HasPending_def\<close>)
qed

text \<open>
  C5: however its operations, the other users of the database and the faults of the driver are
  interleaved, a provider gives back what it takes: after every operation the mutex is free, no
  transaction is open, as many connections are in use as before, and it knows the same versions. In
  particular no operation can leave the next one blocked on the mutex.
\<close>

theorem provider_always_at_rest:
  assumes "version_store (p_store p) view added" and "host_ok view p"
    and "(provider_step p)\<^sup>*\<^sup>* s s'" and "at_rest n vs s"
  shows "at_rest n vs s'"
  using assms(3,4) by (induction rule: rtranclp_induct) (auto intro: provider_step_at_rest [OF assms(1,2)])

text \<open>
  After an \<open>Up\<close> without an error nothing is pending: if \<open>HasPending\<close> then answers without an error
  it says no.
\<close>

theorem HasPending_after_Up:
  assumes "version_store (p_store p) view added" and "well_formed view p True s"
    and "Up p s = ((res, None), s1)" and "HasPending p s1 = ((b, None), s2)"
  shows "\<not> b"
proof -
  note u = version_store.Up_result [OF assms(1) refl assms(2,3)]
  have ho: "host_ok view p" and dv: "\<not> disableVersioning (p_cfg p)" and pos: "\<forall>v\<in>set (versions s). 1 \<le> v"
    using assms(2) by (auto simp: well_formed_def)
  have ver: "versions s1 = versions s" using u by (auto simp: released_def versions_def)
  have id: "idle s1" using u by (auto simp: released_def idle_def)
  from version_store.hasPending_result [OF assms(1) refl ho id dv assms(4) [unfolded HasPending_def]]
  obtain vs out where g: "grows (view (committed (pw s1))) (Some vs)" and b: "b = (out \<noteq> [])"
    and o: "UpVersions (versions s) vs MaxInt64 (allowMissing (p_cfg p)) = Inr out"
    unfolding ver by blast
  obtain vs1 where v1: "view (committed (pw s1)) = Some vs1"
    and r: "set vs1 - {0} = (recorded view s - {0}) \<union> set (versions s)" using u by blast
  have "set (versions s) \<subseteq> set vs" using g v1 r by (auto simp: grows_def)
  with UpVersions_set [OF o pos] have "set out = {}" by auto
  with b show ?thesis by simp
qed

text \<open>
  C25: a failing \<open>up\<close> loses nothing: every version recorded before is still recorded, and any version
  recorded in addition is the zero version or that of a known migration. The provider is at rest.
\<close>

theorem up_failure_keeps_versions:
  assumes "version_store (p_store p) view added" and "well_formed view p True s" and "1 \<le> v"
    and "up p byOne v s = ((res, Some e), s')"
  shows "recorded view s \<subseteq> recorded view s' \<and> recorded view s' \<subseteq> insert 0 (recorded view s) \<union> set (versions s) \<and> idle s'"
  using version_store.up_result [OF assms(1) refl assms(2-4)] assms(2) by (auto simp: released_def idle_def)

text \<open>
  C2: a migration that uses a transaction is all or nothing. When \<open>runIndividually\<close> ends, no
  transaction is open, and the database is as before or in the state that a complete run of the
  migration together with the change of its version row left in the transaction; the first only
  with an error. This holds for failing statements, panics, failing commits and rollbacks, and for
  commits whose answer is lost.
\<close>

theorem tx_migration_atomic:
  assumes "version_store (p_store p) view added" and "append_laws (p_ext (p_host p))" and "txn w = None"
    and "useTx m dir = Inr True" and "\<not> isolateDDL (p_cfg p)" and "runIndividually p m dir w = (r, w')"
  shows "txn w' = None \<and>
     (r \<noteq> None \<and> committed w' = committed w \<or>
      (\<exists>w1 w2. txn w1 = Some (committed w) \<and> run_and_record p HTx m dir w1 = (None, w2) \<and>
         txn w2 = Some (committed w')))"
proof -
  have b: "beginTx p (run_and_record p HTx m dir) w = (r, w')" using assms(4-6) by (simp add: runIndividually_def)
  have fr: "frame HTx w1 w2" if "txn w1 \<noteq> None" "run_and_record p HTx m dir w1 = (r1, w2)" for w1 r1 w2
    using version_store.run_and_record_frame [OF assms(1) refl _ that(2)] that(1) by (simp add: usable_def)
  from b assms(3,2) show ?thesis
  proof (rule beginTx_cases)
    fix w1 w2
    assume i: "run_and_record p HTx m dir w1 = (None, w2)" "txn w1 = Some (committed w)"
      "cur HTx w2 = committed w'" "txn w' = None"
    moreover have "txn w2 \<noteq> None" using fr [OF _ i(1)] i(2) by (auto simp: frame_def)
    ultimately show ?thesis by (auto simp: cur_def)
  qed (auto intro: fr)
qed

text \<open>
  All migrations of a run are prepared before the first one runs: if one of them cannot be
  prepared, for example because its file does not parse, the database is not touched at all.
\<close>

theorem prepare_before_run:
  assumes "ms \<noteq> []" and "m \<in> set (one_or_all byOne ms)" and "prepareMigration p m (ToBool d) = Inl e"
  shows "\<exists>e' ms'. runMigrations p ms d byOne s = (Inl e', s\<lparr>migrations := ms'\<rparr>)"
proof -
  have "fst (prepare_all p (ToBool d) app) \<noteq> None" if "m \<in> set app" for app
    using that assms(3) by (induction app) (auto simp: case_prod_beta split: sum.splits)
  with assms(2) obtain e' prepared where "prepare_all p (ToBool d) (one_or_all byOne ms) = (Some e', prepared)"
    by (metis not_None_eq prod.collapse)
  with assms(1) show ?thesis by (auto simp: runMigrations_def one_or_all_def)
qed

text \<open>
  C19: when a run stops at a migration, the \<open>PartialError\<close> is exact: its applied results are those of
  the migrations before the failing one, all of which are recorded, the failed result is that
  migration's, and of the failing and the later ones at most the failing one is recorded.
\<close>

theorem partial_error_exact:
  assumes "version_store (p_store p) view added" and "\<not> disableVersioning (p_cfg p)"
    and "append_laws (p_ext (p_host p))" and "\<forall>m\<in>set ms. spares_versions view p m (ToBool d)"
    and "txn w = None" and "view (committed w) = Some vs" and "run_all p d ms [] w = (Inl e, w')"
  shows "\<exists>pre m post c vs'. ms = pre @ m # post \<and>
     e = PartialError (map (\<lambda>m. result_of m d None) pre) (result_of m d (Some c)) c \<and>
     view (committed w') = Some vs' \<and>
     (moved added (ToBool d) (map Version pre) vs vs' \<or> moved added (ToBool d) (map Version (pre @ [m])) vs vs')"
  using version_store.run_all_moves [OF assms(1) refl assms(2-7)] by fastforce

end
