(* ===== verification/Provider_Down.thy ===== *)
theory Provider_Down
  imports Provider_Props
begin

text \<open>
  Operations that run one migration, rolling back, and the branches that the code marks as
  impossible.
\<close>

section \<open>One at a time, and down\<close>

lemma run_all_length: "run_all p d ms acc w = (Inr res, w') \<Longrightarrow> length res = length acc + length ms"
  by (induction ms arbitrary: acc w) (auto split: prod.splits option.splits)

lemma runMigrations_length:
  assumes "runMigrations p ms d byOne s = (Inr res, s')"
  shows "length res = length (one_or_all byOne ms)"
proof (cases "ms = []")
  case True
  with assms show ?thesis
    by (auto simp: runMigrations_def one_or_all_def split: if_splits prod.splits sum.splits)
next
  case False
  obtain perr prepared where pa: "prepare_all p (ToBool d) (one_or_all byOne ms) = (perr, prepared)" by fastforce
  have l: "length prepared = length (one_or_all byOne ms)"
    using prepare_all_versions [of p "ToBool d" "one_or_all byOne ms"] pa by (metis length_map snd_conv)
  obtain r1 w1 where ra: "run_all p d prepared [] (pw s) = (r1, w1)" by fastforce
  have "r1 = Inr res"
    using assms False pa ra unfolding one_or_all_def
    by (auto simp: runMigrations_def Let_def split: option.splits sum.splits if_splits prod.splits)
  with run_all_length ra l show ?thesis by fastforce
qed

lemma run_body_length: "run_body p ms d byOne s = ((res, None), s') \<Longrightarrow> length res = length (one_or_all byOne ms)"
  by (auto simp: run_body_def returns_def split: prod.splits sum.splits dest: runMigrations_length)

lemma run_body_error: "run_body p ms d byOne s = ((res, Some e), s') \<Longrightarrow> res = []"
  by (auto simp: run_body_def returns_def split: prod.splits sum.splits)

lemma run_body_single: "run_body p ms d True s = ((res, e), s') \<Longrightarrow> length res \<le> Suc 0"
  using run_body_length [of p ms d True s res s'] run_body_error [of p ms d True s res _ s']
  by (cases e) (auto simp: one_or_all_def)

lemma with_init_body:
  assumes "with_init p ul wrapE zero body s = ((x, e), s')" and "append_laws (p_ext (p_host p))"
  obtains (failed) "x = zero" "e \<noteq> None"
  | (ran) s1 e0 s2 where "body s1 = ((x, e0), s2)" "e = None \<longrightarrow> e0 = None"
proof (cases "initialize p ul s")
  case (Pair r s1)
  show thesis
  proof (cases r)
    case (Inl e1)
    with Pair assms(1) show thesis by (intro failed) (auto simp: with_init_def)
  next
    case (Inr c)
    obtain x0 e0 s2 where b: "body s1 = ((x0, e0), s2)" by (metis prod.exhaust)
    obtain ce s3 where "run_cleanup p c s2 = (ce, s3)" by fastforce
    with Pair Inr assms(1) b have "x = x0" "e = multierr_append (p_ext (p_host p)) e0 ce"
      by (auto simp: with_init_def deferring_def)
    with b append_laws_Some [OF assms(2)] show thesis by (intro ran [of s1 e0 s2]) (auto, metis not_None_eq)
  qed
qed

lemma up_one: "up p True v s = ((res, e), s') \<Longrightarrow> append_laws (p_ext (p_host p)) \<Longrightarrow> length res \<le> Suc 0"
proof -
  assume u: "up p True v s = ((res, e), s')" and al: "append_laws (p_ext (p_host p))"
  have body: "length res \<le> Suc 0" if "up_body p True v s1 = ((res, e0), s2)" for s1 e0 s2
    using that run_body_single
    by (auto simp: up_body_def split: if_splits prod.splits sum.splits)
  show ?thesis
  proof (cases "v < 1")
    case True
    with u show ?thesis by (auto simp: up_def)
  next
    case False
    with u have "with_init p True init_failed [] (up_body p True v) s = ((res, e), s')" by (simp add: up_def)
    from with_init_body [OF this al] show ?thesis by (cases) (auto intro: body)
  qed
qed

lemma down_one: "down p True v s = ((res, e), s') \<Longrightarrow> append_laws (p_ext (p_host p)) \<Longrightarrow> length res \<le> Suc 0"
proof -
  assume u: "down p True v s = ((res, e), s')" and al: "append_laws (p_ext (p_host p))"
  have body: "length res \<le> Suc 0" if "down_body p True v s1 = ((res, e0), s2)" for s1 e0 s2
    using that run_body_single
    by (auto simp: down_body_def split: if_splits prod.splits sum.splits list.splits)
  from with_init_body [OF u [unfolded down_def] al] show ?thesis by (cases) (auto intro: body)
qed

lemma apply_one:
  assumes "apply_version p v dir s = ((res, None), s')" and "append_laws (p_ext (p_host p))"
  shows "length res = Suc 0"
proof -
  have body: "length res = Suc 0" if "apply_body p m v dir s1 = ((res, None), s2)" for m s1 s2
    using that run_body_length [of p "[m]" _ True]
    by (auto simp: apply_body_def Let_def one_or_all_def split: if_splits prod.splits sum.splits)
  obtain m where "with_init p True init_failed [] (apply_body p m v dir) s = ((res, None), s')"
    using assms(1) by (auto simp: apply_version_def split: if_splits sum.splits)
  from with_init_body [OF this assms(2)] show ?thesis by (cases) (auto intro: body)
qed

context version_store
begin

lemma down_result:
  assumes "p_store p = st" and "well_formed view p False s" and "versionTableOnce s"
    and "view (committed (pw s)) = Some vs" and "down p byOne v s = ((res, None), s')"
    and sel: "sel = one_or_all byOne (if hd vs = 0 then [] else takeWhile (\<lambda>x. x > v) vs)"
  shows "released s s' \<and> vs \<noteq> [] \<and> result_versions res = sel \<and>
     view (committed (pw s')) = Some (filter (\<lambda>x. x \<notin> set sel) vs)"
proof -
  have ho: "host_ok view p" and id: "idle s" and dv: "\<not> disableVersioning (p_cfg p)" and ne: "migrations s \<noteq> []"
    using assms(2) by (auto simp: well_formed_def)
  have sd: "steady s1 s2" if "started view p s s1" "down_body p byOne v s1 = (y, s2)" for s1 y s2
    using down_body_steady [OF assms(1) ho _ that(2)] that(1) by (auto simp: started_def)
  show ?thesis
  proof (rule with_init_cases [OF assms(1) ho id assms(5) [unfolded down_def] sd])
    fix s1 s2 e0
    assume st1: "started view p s s1" and b: "down_body p byOne v s1 = ((res, e0), s2)" and rel: "released s s'"
      and v': "view (committed (pw s')) = view (committed (pw s2))" and e0: "e0 \<noteq> None \<longrightarrow> None \<noteq> (None :: err option)"
    have ms: "migrations s1 = migrations s" and t1: "txn (pw s1) = None" and v1: "view (committed (pw s1)) = Some vs"
      using st1 assms(3,4) by (auto simp: started_def)
    have sp: "\<forall>m\<in>set (migrations s1). spares_prepared view p m False"
      using assms(2) ms by (auto simp: well_formed_def)
    from down_body_moves [OF assms(1) ho dv sp t1 v1 _ b sel] ne ms e0 rel v' show ?thesis
      by (auto simp: moved_down)
  qed auto
qed

lemma UpByOne_result:
  assumes "p_store p = st" and "well_formed view p True s" and "versionTableOnce s"
    and "view (committed (pw s)) = Some vs" and "UpByOne p s = ((Some r, None), s')"
  shows "released s s' \<and> SVersion (RSource r) \<in> set (versions s) - set vs \<and>
     (\<forall>v\<in>set (versions s) - set vs. SVersion (RSource r) \<le> v) \<and>
     (\<exists>vs'. view (committed (pw s')) = Some vs' \<and> added (SVersion (RSource r)) vs vs')"
proof -
  have ho: "host_ok view p" and id: "idle s" and dv: "\<not> disableVersioning (p_cfg p)"
    and pos: "\<forall>v\<in>set (versions s). 1 \<le> v" "\<forall>v\<in>set (versions s). v \<le> MaxInt64" and di: "distinct (versions s)"
    using assms(2) by (auto simp: well_formed_def)
  obtain b e1 s1 where hp: "hasPending p s = ((b, e1), s1)" by (metis prod.exhaust)
  have e1: "e1 = None" using hp assms(5) by (cases e1) (auto simp: UpByOne_def HasPending_def)
  note h = hasPending_result [OF assms(1) ho id dv hp [unfolded e1]]
  have once1: "versionTableOnce s1" using h assms(3) by (simp add: released_def)
  have v1: "view (committed (pw s1)) = Some vs"
    using hasPending_keeps [OF assms(1) ho id assms(3) hp [unfolded e1]] assms(4) by simp
  obtain res where u: "up p True MaxInt64 s1 = ((res, None), s')" and r: "res = [r]"
    using assms(5) hp e1
    by (auto simp: UpByOne_def HasPending_def exactly_one_def split: if_splits prod.splits option.splits list.splits)
  have ver: "versions s1 = versions s" using h by (simp add: versions_def)
  have wf1: "well_formed view p True s1"
    using assms(2) h ver idle_released [OF id] by (auto simp: well_formed_def)
  from up_result [OF assms(1) wf1 _ u] once1 v1 obtain vs' out where rel: "released s1 s'"
    and o: "UpVersions (versions s) vs MaxInt64 (allowMissing (p_cfg p)) = Inr out"
    and res: "result_versions res = take 1 out" and v': "view (committed (pw s')) = Some vs'"
    and mv: "moved added True (take 1 out) vs vs'"
    by (auto simp: one_or_all_def MaxInt64_def ver)
  have "take 1 out = [SVersion (RSource r)]" using res r by (simp add: result_versions_def)
  then obtain rest where out: "out = SVersion (RSource r) # rest" by (cases out) auto
  have so: "set out = set (versions s) - set vs" using UpVersions_set [OF o pos(1)] pos(2) by auto
  have "\<forall>v\<in>set out. SVersion (RSource r) \<le> v" using UpVersions_sorted(1) [OF o] out by auto
  with so out mv v' rel h show ?thesis by (auto simp: released_def moved.simps)
qed

end

lemma takeWhile_filter_descending:
  fixes vs :: "version list"
  assumes "sorted (rev vs)"
  shows "takeWhile (\<lambda>x. x > t) vs = filter (\<lambda>x. x > t) vs"
  using assms
proof (induction vs)
  case (Cons v vs)
  then have "\<not> v > t \<Longrightarrow> filter (\<lambda>x. x > t) vs = []"
    by (force simp: sorted_append filter_empty_conv)
  with Cons show ?case by (auto simp: sorted_append)
qed simp

section \<open>Properties\<close>

text \<open>
  The branches of \<open>UpByOne\<close>, \<open>Down\<close> and \<open>ApplyVersion\<close> for an unexpected number of results cannot be
  reached: running one migration at a time never gives more than one result, and applying a version
  without an error gives exactly one.
\<close>

theorem one_result_at_most:
  assumes "append_laws (p_ext (p_host p))"
  shows "length (fst (fst (up p True v s))) \<le> 1 \<and> length (fst (fst (down p True v s))) \<le> 1 \<and>
     (snd (fst (apply_version p v dir s)) = None \<longrightarrow> length (fst (fst (apply_version p v dir s))) = 1)"
proof -
  have "length (fst (fst (up p True v s))) \<le> Suc 0"
    using up_one [OF _ assms, of v s "fst (fst (up p True v s))"] by (metis prod.collapse)
  moreover have "length (fst (fst (down p True v s))) \<le> Suc 0"
    using down_one [OF _ assms, of v s "fst (fst (down p True v s))"] by (metis prod.collapse)
  moreover have "snd (fst (apply_version p v dir s)) = None \<Longrightarrow> length (fst (fst (apply_version p v dir s))) = Suc 0"
    using apply_one [OF _ assms, of v dir s "fst (fst (apply_version p v dir s))"] by (metis prod.collapse)
  ultimately show ?thesis by simp
qed

text \<open>
  \<open>Down\<close> rolls back the version recorded last: on a store that lists the newest version first, the
  result is that version, its rows are gone and all others are kept.
\<close>

theorem Down_rolls_back_newest:
  assumes "newest_first_store (p_store p) view" and "well_formed view p False s" and "versionTableOnce s"
    and "view (committed (pw s)) = Some (v # vs)" and "Down p s = ((Some r, None), s')"
  shows "SVersion (RSource r) = v \<and> 0 < v \<and> view (committed (pw s')) = Some (filter (\<lambda>x. x \<noteq> v) vs)"
proof -
  have vst: "version_store (p_store p) view (\<lambda>v vs vs'. vs' = v # vs)"
    using assms(1) by (simp add: newest_first_store_def)
  obtain res where d: "down p True 0 s = ((res, None), s')" and r: "res = [r]"
    using assms(5)
    by (auto simp: Down_def exactly_one_def split: if_splits prod.splits option.splits list.splits)
  from version_store.down_result [OF vst refl assms(2-4) d refl] r show ?thesis
    by (auto simp: one_or_all_def result_versions_def split: if_splits)
qed

text \<open>
  C9: \<open>DownTo\<close> on versions that were applied in ascending order rolls back exactly the versions above
  the target, newest first, and keeps the others.
\<close>

theorem DownTo_in_order:
  assumes "version_store (p_store p) view added" and "well_formed view p False s" and "versionTableOnce s"
    and "view (committed (pw s)) = Some vs" and "sorted (rev vs)" and "0 \<le> target"
    and "DownTo p target s = ((res, None), s')"
  shows "result_versions res = filter (\<lambda>v. v > target) vs \<and>
     view (committed (pw s')) = Some (filter (\<lambda>v. v \<le> target) vs)"
proof -
  have d: "down p False target s = ((res, None), s')" using assms(6,7) by (simp add: DownTo_def)
  have tw: "takeWhile (\<lambda>x. x > target) vs = filter (\<lambda>x. x > target) vs"
    using assms(5) by (rule takeWhile_filter_descending)
  note dr = version_store.down_result [OF assms(1) refl assms(2-4) d refl]
  have sel: "one_or_all False (if hd vs = 0 then [] else takeWhile (\<lambda>x. x > target) vs) = filter (\<lambda>x. x > target) vs"
    using dr assms(6) tw by (cases vs) (auto simp: one_or_all_def)
  have "filter (\<lambda>x. x \<notin> set (filter (\<lambda>x. x > target) vs)) vs = filter (\<lambda>v. v \<le> target) vs"
    by (rule filter_cong) auto
  with dr show ?thesis unfolding sel by simp
qed

text \<open>
  \<open>DownTo\<close> stops at the first version it lists that is within the target. When migrations were
  applied out of order, a version above the target that was applied before such a one stays applied,
  although the documentation says that all migrations down to the target are rolled back.
\<close>

theorem DownTo_out_of_order_stops:
  assumes "version_store (p_store p) view added" and "well_formed view p False s" and "versionTableOnce s"
    and "view (committed (pw s)) = Some (v # vs)" and "v \<le> target" and "0 \<le> target"
    and "DownTo p target s = ((res, None), s')"
  shows "res = [] \<and> view (committed (pw s')) = Some (v # vs)"
proof -
  have d: "down p False target s = ((res, None), s')" using assms(6,7) by (simp add: DownTo_def)
  from version_store.down_result [OF assms(1) refl assms(2-4) d refl] assms(5) show ?thesis
    by (auto simp: one_or_all_def result_versions_def split: if_splits)
qed

text \<open>
  C27: \<open>UpByOne\<close> followed by \<open>Down\<close> is a round trip: \<open>Down\<close> rolls back the version \<open>UpByOne\<close> applied, which
  was the smallest pending one, and the version table is as it was.
\<close>

theorem UpByOne_Down_roundtrip:
  assumes "newest_first_store (p_store p) view" and "well_formed view p True s" and "versionTableOnce s"
    and "view (committed (pw s)) = Some vs" and "UpByOne p s = ((Some r, None), s1)"
    and "well_formed view p False s1" and "Down p s1 = ((Some r', None), s2)"
  shows "SVersion (RSource r') = SVersion (RSource r) \<and>
     (\<forall>v\<in>set (versions s) - set vs. SVersion (RSource r) \<le> v) \<and> view (committed (pw s2)) = Some vs"
proof -
  have vst: "version_store (p_store p) view (\<lambda>v vs vs'. vs' = v # vs)"
    using assms(1) by (simp add: newest_first_store_def)
  let ?v = "SVersion (RSource r)"
  from version_store.UpByOne_result [OF vst refl assms(2-5)]
  have v1: "view (committed (pw s1)) = Some (?v # vs)" and once: "versionTableOnce s1"
    and nv: "?v \<notin> set vs" and mn: "\<forall>v\<in>set (versions s) - set vs. ?v \<le> v"
    using assms(3) by (auto simp: released_def)
  obtain res where d: "down p True 0 s1 = ((res, None), s2)" and r: "res = [r']"
    using assms(7)
    by (auto simp: Down_def exactly_one_def split: if_splits prod.splits option.splits list.splits)
  from version_store.down_result [OF vst refl assms(6) once v1 d refl] r nv
  have "SVersion (RSource r') = ?v" "view (committed (pw s2)) = Some (filter (\<lambda>x. x \<noteq> ?v) vs)"
    by (auto simp: one_or_all_def result_versions_def split: if_splits)
  moreover have "filter (\<lambda>x. x \<noteq> ?v) vs = vs" using nv by (auto simp: filter_id_conv)
  ultimately show ?thesis using mn by simp
qed

end
