(* ===== verification/Provider_Queries.thy ===== *)
theory Provider_Queries
  imports Provider_Down
begin

text \<open>
  Single versions and queries: \<open>ApplyVersion\<close>, \<open>Status\<close>, \<open>GetDBVersion\<close>; and two behaviours of
  initialisation and of isolated DDL that its callers do not expect.
\<close>

context version_store
begin

lemma apply_body_moves:
  assumes "p_store p = st" and "host_ok view p" and "\<not> disableVersioning (p_cfg p)"
    and "spares_prepared view p m dir" and "txn (pw s) = None" and "view (committed (pw s)) = Some vs"
    and "apply_body p m v dir s = ((res, e), s')" and "Version m = v"
  shows "\<exists>vs'. view (committed (pw s')) = Some vs' \<and>
     (if e = None then (dir \<longleftrightarrow> v \<notin> set vs) \<and> result_versions res = [v] \<and> moved added dir [v] vs vs'
      else vs' = vs \<or> (dir \<longleftrightarrow> v \<notin> set vs) \<and> moved added dir [v] vs vs')"
proof -
  obtain g w1 where g: "GetMigration st HConn v (pw s) = (g, w1)" by fastforce
  have w1: "committed w1 = committed (pw s)" "txn w1 = None"
    using get_frame [OF g] frame_calm [of HConn "pw s" w1] assms(5) by (auto simp: calm_def)
  let ?d = "if dir then DirectionUp else DirectionDown"
  have td: "ToBool ?d = dir" by (simp add: ToBool_def)
  show ?thesis
  proof (cases "run_body p [m] ?d True (s\<lparr>pw := w1\<rparr>) = ((res, e), s') \<and> (dir \<longleftrightarrow> v \<notin> set vs)")
    case True
    have sp: "\<forall>m\<in>set [m]. spares_prepared view p m (ToBool ?d)" using assms(4) td by simp
    have "txn (pw (s\<lparr>pw := w1\<rparr>)) = None" "view (committed (pw (s\<lparr>pw := w1\<rparr>))) = Some vs"
      using w1 assms(6) by simp_all
    from run_body_moves [OF assms(1-3) sp this conjunct1 [OF True], unfolded td one_or_all_def] obtain vs' where
      v': "view (committed (pw s')) = Some vs'" and
      r: "if e = None then result_versions res = [v] \<and> moved added dir [v] vs vs'
          else \<exists>k. moved added dir (take k [v]) vs vs'"
      using assms(8) by (cases e) auto
    moreover have "\<exists>k. moved added dir (take k [v]) vs vs' \<Longrightarrow> vs' = vs \<or> moved added dir [v] vs vs'"
      by (metis moved.simps(1) take_0 take_Suc_Cons take_Nil not0_implies_Suc)
    ultimately show ?thesis using True by (auto split: if_splits)
  next
    case False
    have "e \<noteq> None \<and> s' = s\<lparr>pw := w1\<rparr>"
    proof (cases g)
      case (Inr x)
      then have "v \<in> set vs" using get_found g assms(6) by fastforce
      with Inr g False assms(1,3,7) show ?thesis by (auto simp: apply_body_def Let_def split: if_splits)
    next
      case (Inl x)
      show ?thesis
      proof (cases "errors_Is x DBErrVersionNotFound")
        case True
        then have "v \<notin> set vs" using get_missing g Inl assms(6) by fastforce
        with Inl True g False assms(1,3,7) show ?thesis by (auto simp: apply_body_def Let_def split: if_splits)
      next
        case f: False
        with Inl g assms(1,3,7) show ?thesis by (auto simp: apply_body_def Let_def split: if_splits)
      qed
    qed
    with w1 assms(6) show ?thesis by auto
  qed
qed

lemma apply_version_result:
  assumes "p_store p = st" and "well_formed view p dir s" and "versionTableOnce s"
    and "view (committed (pw s)) = Some vs" and "apply_version p v dir s = ((res, e), s')"
  shows "\<exists>vs'. view (committed (pw s')) = Some vs' \<and>
     (if e = None then (dir \<longleftrightarrow> v \<notin> set vs) \<and> v \<in> set (versions s) \<and> result_versions res = [v] \<and> moved added dir [v] vs vs'
      else vs' = vs \<or> (dir \<longleftrightarrow> v \<notin> set vs) \<and> moved added dir [v] vs vs')"
proof (cases "\<exists>m. \<not> v < 1 \<and> getMigration v (migrations s) = Inr m")
  case False
  with assms(4,5) show ?thesis by (auto simp: apply_version_def split: if_splits sum.splits)
next
  case True
  then obtain m where gm: "getMigration v (migrations s) = Inr m" and
    wi: "with_init p True init_failed [] (apply_body p m v dir) s = ((res, e), s')"
    using assms(5) by (auto simp: apply_version_def)
  have mv: "m \<in> set (migrations s)" "Version m = v" using getMigration_ok [OF gm] by auto
  have ho: "host_ok view p" and id: "idle s" and dv: "\<not> disableVersioning (p_cfg p)"
    and sp: "spares_prepared view p m dir" using assms(2) mv by (auto simp: well_formed_def)
  have sd: "steady s1 s2" if "started view p s s1" "apply_body p m v dir s1 = (y, s2)" for s1 y s2
    using apply_body_steady [OF assms(1) ho _ that(2)] that(1) by (auto simp: started_def)
  show ?thesis
  proof (rule with_init_cases [OF assms(1) ho id wi sd])
    assume "e \<noteq> None" "versionTableOnce s \<longrightarrow> view (committed (pw s')) = view (committed (pw s))"
    with assms(3,4) show ?thesis by auto
  next
    fix s1 s2 e0
    assume st1: "started view p s s1" and b: "apply_body p m v dir s1 = ((res, e0), s2)"
      and v': "view (committed (pw s')) = view (committed (pw s2))" and e0: "e0 \<noteq> None \<longrightarrow> e \<noteq> None"
    have t1: "txn (pw s1) = None" and v1: "view (committed (pw s1)) = Some vs"
      using st1 assms(3,4) by (auto simp: started_def)
    have "v \<in> set (versions s)" using mv by (auto simp: versions_def)
    with apply_body_moves [OF assms(1) ho dv sp t1 v1 b mv(2)] v' e0 show ?thesis
      by (cases e; cases e0) auto
  qed
qed

lemma status_loop_result:
  assumes "p_store p = st" and "\<not> disableVersioning (p_cfg p)" and "txn w = None"
    and "view (committed w) = Some vs" and "status_loop p ms acc w = (Inr out, w')"
  shows "out = acc @ map (\<lambda>m. \<lparr>MSource = source_of m,
     MState = (if Version m \<in> set vs then StateApplied else StatePending)\<rparr>) ms"
  using assms(3-5)
proof (induction ms arbitrary: acc w)
  case (Cons m ms)
  obtain g w1 where g: "GetMigration st HConn (Version m) w = (g, w1)" by fastforce
  have w1: "committed w1 = committed w" "txn w1 = None"
    using get_frame [OF g] frame_calm [of HConn w w1] Cons.prems(1) by (auto simp: calm_def)
  show ?case
  proof (cases g)
    case (Inr x)
    then have "Version m \<in> set vs" using get_found g Cons.prems(2) by fastforce
    with Inr g Cons.prems(3) assms(1,2) Cons.IH [OF w1(2)] w1(1) Cons.prems(2) show ?thesis by fastforce
  next
    case (Inl x)
    then have f: "errors_Is x DBErrVersionNotFound" using g Cons.prems(3) assms(1,2) by (auto split: if_splits)
    then have "Version m \<notin> set vs" using get_missing g Inl Cons.prems(2) by fastforce
    with f Inl g Cons.prems(3) assms(1,2) Cons.IH [OF w1(2)] w1(1) Cons.prems(2) show ?thesis by fastforce
  qed
qed simp

end

section \<open>Properties\<close>

text \<open>
  C29: \<open>ApplyVersion\<close> applies a version exactly when it is known and not recorded, and rolls it back
  exactly when it is recorded. If it returns without an error the result is that version and its row
  has been added or its rows removed; with an error the version table is unchanged, or, when the
  driver lost an answer, changed in just that way. Applying twice is never possible.
\<close>

theorem ApplyVersion_toggles:
  assumes "version_store (p_store p) view added" and "well_formed view p dir s" and "versionTableOnce s"
    and "view (committed (pw s)) = Some vs" and "ApplyVersion p v dir s = ((r, e), s')"
  shows "\<exists>vs'. view (committed (pw s')) = Some vs' \<and>
     (if e = None
      then (dir \<longleftrightarrow> v \<notin> set vs) \<and> v \<in> set (versions s) \<and> moved added dir [v] vs vs' \<and>
        (\<exists>x. r = Some x \<and> SVersion (RSource x) = v)
      else r = None \<and> (vs' = vs \<or> (dir \<longleftrightarrow> v \<notin> set vs) \<and> moved added dir [v] vs vs'))"
proof -
  obtain res e0 s1 where a: "apply_version p v dir s = ((res, e0), s1)" by (metis prod.exhaust)
  have s1: "s1 = s'" using a assms(5) by (cases e0) (auto simp: ApplyVersion_def)
  from version_store.apply_version_result [OF assms(1) refl assms(2-4) a] s1 show ?thesis
    using a assms(5)
    by (cases e0) (auto simp: ApplyVersion_def exactly_one_def result_versions_def)
qed

text \<open>
  \<open>Status\<close> lists the known migrations in the provider's order, each as applied exactly when its
  version is recorded.
\<close>

theorem Status_exact:
  assumes "version_store (p_store p) view added" and "host_ok view p" and "idle s" and "\<not> disableVersioning (p_cfg p)"
    and "versionTableOnce s" and "view (committed (pw s)) = Some vs" and "Status p s = ((out, None), s')"
  shows "out = map (\<lambda>m. \<lparr>MSource = source_of m,
     MState = (if Version m \<in> set vs then StateApplied else StatePending)\<rparr>) (migrations s)"
proof (rule version_store.with_init_cases [OF assms(1) refl assms(2,3), of True init_failed "[]" "status_body p" out None s'])
  show "with_init p True init_failed [] (status_body p) s = ((out, None), s')"
    using assms(7) by (simp add: Status_def status_def)
next
  fix s1 y s2 assume "started view p s s1" "status_body p s1 = (y, s2)"
  then show "steady s1 s2" using version_store.status_body_steady [OF assms(1) refl] by (auto simp: started_def)
next
  fix s1 s2 e0
  assume st1: "started view p s s1" and b: "status_body p s1 = ((out, e0), s2)"
    and e0: "e0 \<noteq> None \<longrightarrow> None \<noteq> (None :: err option)"
  have v1: "view (committed (pw s1)) = Some vs" "txn (pw s1) = None" "migrations s1 = migrations s"
    using st1 assms(5,6) by (auto simp: started_def)
  obtain w1 where "status_loop p (migrations s1) [] (pw s1) = (Inr out, w1)"
    using b e0 by (auto simp: status_body_def returns_def split: prod.splits sum.splits)
  from version_store.status_loop_result [OF assms(1) refl assms(4) v1(2,1) this] v1(3) show ?thesis by simp
qed auto

text \<open>
  \<open>GetDBVersion\<close> returns the highest recorded version, in whatever order the versions were
  recorded.
\<close>

theorem GetDBVersion_max:
  assumes "version_store (p_store p) view added" and "host_ok view p" and "idle s"
    and "versionTableOnce s" and "view (committed (pw s)) = Some vs" and "GetDBVersion p s = ((v, None), s')"
  shows "vs \<noteq> [] \<and> v = Max (set vs)"
proof (rule version_store.with_init_cases [OF assms(1) refl assms(2,3), of True "\<lambda>e. e" 0 "max_version_body p" v None s'])
  show "with_init p True (\<lambda>e. e) 0 (max_version_body p) s = ((v, None), s')"
    using assms(6) by (simp add: GetDBVersion_def getDBMaxVersion_def split: if_splits)
next
  fix s1 y s2 assume "started view p s s1" "max_version_body p s1 = (y, s2)"
  then show "steady s1 s2" using version_store.max_version_body_steady [OF assms(1) refl] by (auto simp: started_def)
next
  fix s1 s2 e0
  assume st1: "started view p s s1" and b: "max_version_body p s1 = ((v, e0), s2)"
    and e0: "e0 \<noteq> None \<longrightarrow> None \<noteq> (None :: err option)"
  have v1: "view (committed (pw s1)) = Some vs" using st1 assms(4,5) by (auto simp: started_def)
  have "fst (GetLatestVersion (p_store p) HConn (pw s1)) = Inr v"
    using b e0 by (auto simp: max_version_body_def max_version_def split: prod.splits sum.splits if_splits)
  with version_store.latest_ok [OF assms(1)] v1 show ?thesis by (metis cur_committed(1) prod.collapse)
qed auto

text \<open>
  C38: with isolated DDL a Go migration that uses a transaction is recorded without having run:
  \<open>runIndividually\<close> calls it with the database instead of a transaction, finds no function for that and
  goes on to insert the version.
\<close>

theorem isolated_go_migration_not_run:
  assumes "isolateDDL (p_cfg p)" and "Type m = TypeGo" and "goUp m = \<lparr>RunTx = Some f, RunDB = None, Mode = TransactionEnabled\<rparr>"
    and "Mode (goDown m) \<noteq> ModeUnset" and "\<not> disableVersioning (p_cfg p)"
  shows "runIndividually p m True w = Insert (p_store p) HDB (Version m) w"
  using assms
  by (simp add: runIndividually_def useTx_def run_and_record_def runMigration_def runGo_def call_go_def
      maybeInsertOrDelete_def)

text \<open>
  The version table is created at most once per provider, even if that failed: the \<open>sync.Once\<close> is
  spent by the first attempt. From then on, while the table does not exist, every \<open>Up\<close> fails and none
  of them creates it.
\<close>

theorem failed_creation_never_retried:
  assumes "version_store (p_store p) view added" and "well_formed view p True s"
    and "versionTableOnce s" and "view (committed (pw s)) = None" and "Up p s = ((res, e), s')"
  shows "e \<noteq> None \<and> view (committed (pw s')) = None \<and> versionTableOnce s'"
proof -
  have ho: "host_ok view p" and id: "idle s" and dv: "\<not> disableVersioning (p_cfg p)"
    using assms(2) by (auto simp: well_formed_def)
  obtain b e1 s1 where hp: "hasPending p s = ((b, e1), s1)" by (metis prod.exhaust)
  have "e1 \<noteq> None \<and> view (committed (pw s1)) = None"
  proof (rule version_store.with_init_cases [OF assms(1) refl ho id hp [unfolded hasPending_def]])
    fix t1 y t2 assume "started view p s t1" "hasPending_body p t1 = (y, t2)"
    then show "steady t1 t2" using version_store.hasPending_body_steady [OF assms(1) refl] by (auto simp: started_def)
  next
    fix t1 t2 e0
    assume st1: "started view p s t1" and b1: "hasPending_body p t1 = ((b, e0), t2)"
      and v': "view (committed (pw s1)) = view (committed (pw t2))" and e0: "e0 \<noteq> None \<longrightarrow> e1 \<noteq> None"
    obtain l w1 where l: "ListMigrations (p_store p) HConn (pw t1) = (l, w1)" by fastforce
    have v1: "view (committed (pw t1)) = None" using st1 assms(3,4) by (auto simp: started_def)
    then have "\<exists>x. l = Inl x" using version_store.list_ok [OF assms(1), of HConn "pw t1" _ w1] l by (cases l) auto
    then show ?thesis
      using b1 l dv v' v1 e0 version_store.list_frame [OF assms(1) l] by (auto simp: hasPending_body_def)
  qed (use assms(3,4) in auto)
  moreover have "released s s1" using version_store.hasPending_released [OF assms(1) refl ho id hp] .
  ultimately show ?thesis
    using assms(3,5) hp by (auto simp: Up_def HasPending_def released_def)
qed

end
