(* ===== verification/Provider_Witness.thy ===== *)
theory Provider_Witness
  imports Provider_Queries
begin

text \<open>
  A provider over the reference server: PostgreSQL statements, a SQL file and a Go migration. Each
  property of the provider is applied to it, with every hypothesis discharged and every run
  evaluated from the definitions.
\<close>

section \<open>The reference provider\<close>

definition ref_files :: fs where
  "ref_files = [(''1_a.sql'', sql_file [lineUp, ''CREATE a;'', lineDown, ''DROP a;''])]"

definition ref_provider :: "ref_db provider" where
  "ref_provider = \<lparr>p_host = ref_host, p_store = ref_store, p_fsys = ref_files, p_cfg = zero_config\<rparr>"

definition ref_file_migration :: Migration where
  "ref_file_migration = newSQLMigration \<lparr>SType = TypeSQL, SPath = ''1_a.sql'', SVersion = 1\<rparr>"

definition ref_sql_migration :: Migration where
  "ref_sql_migration = ref_file_migration
     \<lparr>sql := \<lparr>Parsed = True, SqlUseTx = True, SqlUp = [''CREATE a;''], SqlDown = [''DROP a;'']\<rparr>\<rparr>"

definition ref_go_migration :: Migration where
  "ref_go_migration = NewGoMigration 2 (Some \<lparr>RunTx = Some (Fn ''ok''), RunDB = None, Mode = TransactionEnabled\<rparr>)
     (Some \<lparr>RunTx = Some (Fn ''ok''), RunDB = None, Mode = TransactionEnabled\<rparr>)"

definition ref_state :: "Migration list \<Rightarrow> version list option \<Rightarrow> bool \<Rightarrow> ref_db pstate" where
  "ref_state ms tbl once =
     \<lparr>pw = ref_world\<lparr>committed := (tbl, [])\<rparr>, mu = False, versionTableOnce = once, migrations = ms\<rparr>"

abbreviation ref_migrations :: "Migration list" where
  "ref_migrations \<equiv> [ref_sql_migration, ref_go_migration]"

lemma ref_version_store: "version_store (p_store ref_provider) fst (\<lambda>v vs vs'. vs' = v # vs)"
  using postgres_ref.default_store_version_store by (simp add: ref_provider_def ref_store_def)

lemma ref_newest_first: "newest_first_store (p_store ref_provider) fst"
  using postgres_ref.default_store_newest_first by (simp add: ref_provider_def ref_store_def)

lemma ref_host_ok: "host_ok fst ref_provider"
  by (simp add: host_ok_def ref_provider_def ref_host_retry lockers_ok_def locker_laws_def zero_config_def)
    (simp add: ref_host_def ref_ext_laws)

lemma ref_versioned: "\<not> disableVersioning (p_cfg ref_provider)" "\<not> isolateDDL (p_cfg ref_provider)"
  by (simp_all add: ref_provider_def zero_config_def)

lemma ref_append: "append_laws (p_ext (p_host ref_provider))"
  using ref_host_ok by (simp add: host_ok_def)

text \<open>Statements other than those of the version table leave it alone, and so do the Go functions.\<close>

definition foreign :: "string \<Rightarrow> bool" where
  "foreign stmt \<longleftrightarrow> stmt \<notin> {Q_CreateTable NewPostgres ''goose_db_version'', Q_InsertVersion NewPostgres ''goose_db_version'',
     Q_DeleteVersion NewPostgres ''goose_db_version''}"

lemma exec_foreign:
  assumes "\<forall>s\<in>set stmts. foreign s"
    and "exec_statements (ref_engine NewPostgres ''goose_db_version'') h stmts w = (r, w')"
  shows "fst (cur h w') = fst (cur h w)"
  using assms
proof (induction stmts arbitrary: w)
  case (Cons s stmts)
  obtain r1 w1 where e: "ExecContext (ref_engine NewPostgres ''goose_db_version'') h s [] w = (r1, w1)" by fastforce
  have "fst (snd (ref_exec NewPostgres ''goose_db_version'' s [] d)) = fst d" for d
    using Cons.prems(1) by (simp add: ref_exec_def foreign_def)
  then have "fst (cur h w1) = fst (cur h w)" using ExecContext_state [OF e] by (cases "cur h w") (auto simp: ref_engine_def)
  with e Cons show ?case by (cases r1) auto
qed simp

lemma ref_spares:
  assumes "Type m = TypeSQL \<longrightarrow> (\<forall>s\<in>set (if dir then SqlUp (sql m) else SqlDown (sql m)). foreign s)"
    and "p_host p = ref_host"
  shows "spares_versions fst p m dir"
proof (unfold spares_versions_def, intro allI impI)
  fix h w r w' assume a: "usable h w \<and> runMigration p h m dir w = (r, w')"
  have go: "fst (cur h w') = fst (cur h w)" if "call_go p h f w = (r, w')" for f
    using that a assms(2) ref_go_result [of "the f" "cur h w"]
    by (auto simp: call_go_def ref_host_def ref_engine_def split: option.splits)
  show "fst (cur h w') = fst (cur h w)"
  proof (cases "Type m")
    case TypeSQL
    with a assms show ?thesis
      by (auto simp: runMigration_def runSQL_def ref_host_def dest: exec_foreign split: if_splits)
  qed (use a go in \<open>auto simp: runMigration_def runGo_def split: handle.splits if_splits\<close>)
qed

lemma ref_parsed:
  "prepareMigration ref_provider ref_file_migration dir = Inr ref_sql_migration"
proof -
  have "ParseAllFromFS ref_ext ref_files ''1_a.sql'' =
      Inr \<lparr>P_UseTx = True, P_Up = [''CREATE a;''], P_Down = [''DROP a;'']\<rparr>" by code_simp
  then show ?thesis
    by (simp add: prepareMigration_def ref_provider_def ref_host_def ref_file_migration_def ref_sql_migration_def
        newSQLMigration_def)
qed

lemma ref_spares_prepared:
  assumes "m \<in> {ref_file_migration, ref_sql_migration, ref_go_migration}"
  shows "spares_prepared fst ref_provider m dir"
proof -
  have "spares_versions fst ref_provider ref_sql_migration dir"
    by (rule ref_spares) (simp_all add: ref_sql_migration_def ref_provider_def foreign_def NewPostgres_def
      postgres_CreateTable_def postgres_InsertVersion_def postgres_DeleteVersion_def)
  moreover have "spares_versions fst ref_provider ref_go_migration dir"
    by (rule ref_spares)
      (simp_all add: ref_go_migration_def ref_provider_def NewGoMigration_def set_up_funcs_def set_down_funcs_def)
  moreover have "prepareMigration ref_provider ref_sql_migration dir = Inr ref_sql_migration"
    by (simp add: prepareMigration_def ref_sql_migration_def ref_file_migration_def newSQLMigration_def)
  moreover have "prepareMigration ref_provider ref_go_migration dir = Inr m \<Longrightarrow> m = ref_go_migration" for m
    by (auto simp: prepareMigration_def ref_go_migration_def NewGoMigration_def set_up_funcs_def set_down_funcs_def Let_def split: if_splits)
  ultimately show ?thesis using assms ref_parsed by (auto simp: spares_prepared_def)
qed

lemma ref_versions: "Version ref_file_migration = 1" "Version ref_sql_migration = 1" "Version ref_go_migration = 2"
  by (simp_all add: ref_file_migration_def ref_sql_migration_def ref_go_migration_def newSQLMigration_def NewGoMigration_def
      set_up_funcs_def set_down_funcs_def)

lemma ref_state_simps:
  "migrations (ref_state ms tbl once) = ms" "versionTableOnce (ref_state ms tbl once) = once"
  "committed (pw (ref_state ms tbl once)) = (tbl, [])" "txn (pw (ref_state ms tbl once)) = None"
  "idle (ref_state ms tbl once)" "conns (pw (ref_state ms tbl once)) = 0" "mu (ref_state ms tbl once) = False"
  by (simp_all add: ref_state_def ref_world_def idle_def)

lemma ref_well_formed:
  assumes "set (migrations s) \<subseteq> {ref_file_migration, ref_sql_migration, ref_go_migration}" and "migrations s \<noteq> []"
    and "distinct (map Version (migrations s))" and "\<not> mu s" and "txn (pw s) = None"
  shows "well_formed fst ref_provider dir s"
  using assms ref_spares_prepared [of _ dir] ref_versions
  by (auto simp: well_formed_def ref_host_ok idle_def ref_versioned versions_def MaxInt64_def)

lemma ref_migrations_well_formed:
  "well_formed fst ref_provider dir (ref_state ref_migrations tbl once)"
  "well_formed fst ref_provider dir (ref_state [ref_file_migration, ref_go_migration] tbl once)"
  by (rule ref_well_formed; simp add: ref_versions ref_state_simps)+

lemma no_error: "snd (fst x) = None \<Longrightarrow> \<exists>r s. x = ((r, None), s)"
  by (cases x) (metis fst_conv snd_conv surj_pair)

lemma some_error: "snd (fst x) \<noteq> None \<Longrightarrow> \<exists>r e s. x = ((r, Some e), s)"
  by (cases x) (metis fst_conv snd_conv surj_pair option.exhaust)

section \<open>Up\<close>

theorem Up_applies_pending_witness:
  "\<exists>res s'. Up ref_provider (ref_state [ref_file_migration, ref_go_migration] None False) = ((res, None), s') \<and>
     result_versions res = [1, 2] \<and> recorded fst s' - {0} = {1, 2}"
proof -
  let ?s = "ref_state [ref_file_migration, ref_go_migration] None False"
  have "snd (fst (Up ref_provider ?s)) = None" by code_simp
  then obtain res s' where u: "Up ref_provider ?s = ((res, None), s')" using no_error by metis
  have "sorted_list_of_set (set (versions ?s) - recorded fst ?s) = [1, 2]" "set (versions ?s) = {1, 2}"
    "recorded fst ?s = {}"
    by (simp_all add: versions_def ref_state_simps ref_versions recorded_def)
  with Up_applies_pending [OF ref_version_store ref_migrations_well_formed(2) u] u show ?thesis by auto
qed

text \<open>A Go function that fails, after a SQL migration that succeeds.\<close>

definition ref_failing_go :: Migration where
  "ref_failing_go = ref_go_migration\<lparr>goUp := \<lparr>RunTx = Some (Fn ''boom''), RunDB = None, Mode = TransactionEnabled\<rparr>\<rparr>"

lemma ref_failing_spares: "spares_versions fst ref_provider ref_failing_go True"
  by (rule ref_spares)
    (simp_all add: ref_failing_go_def ref_go_migration_def ref_provider_def NewGoMigration_def set_up_funcs_def set_down_funcs_def)

lemma ref_failing_version: "Version ref_failing_go = 2"
  by (simp add: ref_failing_go_def ref_versions)

lemma ref_failing_well_formed:
  "well_formed fst ref_provider True (ref_state [ref_sql_migration, ref_failing_go] tbl once)"
proof -
  have "prepareMigration ref_provider ref_failing_go True = Inr m \<Longrightarrow> m = ref_failing_go" for m
    by (auto simp: prepareMigration_def ref_failing_go_def ref_go_migration_def NewGoMigration_def set_up_funcs_def
        set_down_funcs_def Let_def split: if_splits)
  then have "spares_prepared fst ref_provider ref_failing_go True" using ref_failing_spares by (auto simp: spares_prepared_def)
  with ref_spares_prepared [of ref_sql_migration True] show ?thesis
    by (simp add: well_formed_def ref_host_ok ref_state_simps ref_versioned versions_def ref_versions ref_failing_version MaxInt64_def)
qed

theorem up_failure_keeps_versions_witness:
  "\<exists>res e s'. up ref_provider False 5 (ref_state [ref_sql_migration, ref_failing_go] (Some [0]) True) = ((res, Some e), s') \<and>
     recorded fst s' \<subseteq> {0, 1, 2} \<and> 0 \<in> recorded fst s' \<and> idle s'"
proof -
  let ?s = "ref_state [ref_sql_migration, ref_failing_go] (Some [0]) True"
  have "snd (fst (up ref_provider False 5 ?s)) \<noteq> None" by code_simp
  from some_error [OF this] obtain res e s' where u: "up ref_provider False 5 ?s = ((res, Some e), s')" by blast
  have "recorded fst ?s = {0}" "set (versions ?s) = {1, 2}"
    by (simp_all add: recorded_def ref_state_simps versions_def ref_versions ref_failing_version)
  with up_failure_keeps_versions [OF ref_version_store ref_failing_well_formed _ u]
  have "recorded fst s' \<subseteq> {0, 1, 2} \<and> 0 \<in> recorded fst s' \<and> idle s'" by auto
  with u show ?thesis by blast
qed

theorem tx_migration_atomic_witness:
  "\<exists>e w'. runIndividually ref_provider ref_failing_go True (pw (ref_state [] (Some [0]) True)) = (Some e, w') \<and>
     txn w' = None"
proof -
  let ?w = "pw (ref_state [] (Some [0]) True)"
  have "fst (runIndividually ref_provider ref_failing_go True ?w) \<noteq> None" by code_simp
  then obtain e w' where r: "runIndividually ref_provider ref_failing_go True ?w = (Some e, w')"
    by (cases "runIndividually ref_provider ref_failing_go True ?w") auto
  have "useTx ref_failing_go True = Inr True"
    by (simp add: useTx_def ref_failing_go_def ref_go_migration_def NewGoMigration_def set_up_funcs_def
        set_down_funcs_def updateMode_def)
  from tx_migration_atomic [OF ref_version_store ref_append ref_state_simps(4) this ref_versioned(2) r] r
  show ?thesis by blast
qed

theorem partial_error_exact_witness:
  "\<exists>e w'. run_all ref_provider DirectionUp [ref_sql_migration, ref_failing_go] [] (pw (ref_state [] (Some [0]) True)) = (Inl e, w') \<and>
     (\<exists>pre m post c. [ref_sql_migration, ref_failing_go] = pre @ m # post \<and>
        e = PartialError (map (\<lambda>m. result_of m DirectionUp None) pre) (result_of m DirectionUp (Some c)) c)"
proof -
  let ?w = "pw (ref_state [] (Some [0]) True)" and ?ms = "[ref_sql_migration, ref_failing_go]"
  have "isl (fst (run_all ref_provider DirectionUp ?ms [] ?w))" by code_simp
  then obtain e w' where r: "run_all ref_provider DirectionUp ?ms [] ?w = (Inl e, w')"
    by (cases "run_all ref_provider DirectionUp ?ms [] ?w"; cases "fst (run_all ref_provider DirectionUp ?ms [] ?w)") auto
  have "spares_versions fst ref_provider ref_sql_migration True"
    using ref_spares_prepared [of ref_file_migration True] ref_parsed by (auto simp: spares_prepared_def)
  then have "\<forall>m\<in>set ?ms. spares_versions fst ref_provider m (ToBool DirectionUp)"
    using ref_failing_spares by (simp add: ToBool_def)
  from partial_error_exact [OF ref_version_store ref_versioned(1) ref_append this _ _ r, of "[0]"]
  obtain pre m post c where "?ms = pre @ m # post"
    "e = PartialError (map (\<lambda>m. result_of m DirectionUp None) pre) (result_of m DirectionUp (Some c)) c"
    by (auto simp: ref_state_simps)
  with r show ?thesis by blast
qed

theorem provider_always_at_rest_witness:
  "\<exists>s'. (provider_step ref_provider)\<^sup>*\<^sup>* (ref_state ref_migrations None False) s' \<and> at_rest 0 [1, 2] s'"
proof -
  let ?s = "ref_state ref_migrations None False"
  obtain r s1 where "Up ref_provider ?s = (r, s1)" by fastforce
  moreover obtain r2 s2 where "Down ref_provider s1 = (r2, s2)" by fastforce
  ultimately have steps: "(provider_step ref_provider)\<^sup>*\<^sup>* ?s s2"
    by (meson provider_step.up provider_step.down converse_rtranclp_into_rtranclp r_into_rtranclp)
  have "at_rest 0 [1, 2] ?s" by (simp add: at_rest_def ref_state_simps ref_versions)
  from provider_always_at_rest [OF ref_version_store ref_host_ok steps this] steps show ?thesis by blast
qed


section \<open>Down\<close>

theorem DownTo_in_order_witness:
  "\<exists>res s'. DownTo ref_provider 0 (ref_state ref_migrations (Some [2, 1, 0]) True) = ((res, None), s') \<and>
     result_versions res = [2, 1] \<and> fst (committed (pw s')) = Some [0]"
proof -
  let ?s = "ref_state ref_migrations (Some [2, 1, 0]) True"
  have "snd (fst (DownTo ref_provider 0 ?s)) = None" by code_simp
  then obtain res s' where d: "DownTo ref_provider 0 ?s = ((res, None), s')"
    using no_error by metis
  from DownTo_in_order [OF ref_version_store ref_migrations_well_formed(1) _ _ _ _ d, of "[2, 1, 0]"] d show ?thesis
    by (simp add: ref_state_simps)
qed

theorem UpByOne_Down_roundtrip_witness:
  "\<exists>r s1 r' s2. UpByOne ref_provider (ref_state ref_migrations (Some [1, 0]) True) = ((Some r, None), s1) \<and>
     Down ref_provider s1 = ((Some r', None), s2) \<and> SVersion (RSource r') = SVersion (RSource r) \<and>
     fst (committed (pw s2)) = Some [1, 0]"
proof -
  let ?s = "ref_state ref_migrations (Some [1, 0]) True"
  let ?u = "UpByOne ref_provider ?s"
  have "snd (fst ?u) = None \<and> fst (fst ?u) \<noteq> None \<and> migrations (snd ?u) = ref_migrations \<and> \<not> mu (snd ?u) \<and>
      txn (pw (snd ?u)) = None \<and>
      (case Down ref_provider (snd ?u) of ((r, e), _) \<Rightarrow> r \<noteq> None \<and> e = None)" by code_simp
  then obtain r s1 r' s2 where u: "?u = ((Some r, None), s1)" and d: "Down ref_provider s1 = ((Some r', None), s2)"
    and m: "migrations s1 = ref_migrations" "\<not> mu s1" "txn (pw s1) = None"
    using no_error [of ?u] by (auto split: prod.splits)
  have "well_formed fst ref_provider False s1" by (rule ref_well_formed) (simp_all add: m ref_versions)
  from UpByOne_Down_roundtrip [OF ref_newest_first ref_migrations_well_formed(1) _ _ u this d, of "[1, 0]"] u d
  show ?thesis by (simp add: ref_state_simps)
qed

section \<open>Single versions and queries\<close>

theorem ApplyVersion_toggles_witness:
  "\<exists>r s'. ApplyVersion ref_provider 2 True (ref_state ref_migrations (Some [1, 0]) True) = ((Some r, None), s') \<and>
     SVersion (RSource r) = 2 \<and> fst (committed (pw s')) = Some [2, 1, 0]"
proof -
  let ?s = "ref_state ref_migrations (Some [1, 0]) True"
  have "snd (fst (ApplyVersion ref_provider 2 True ?s)) = None" by code_simp
  from no_error [OF this] obtain r s' where a: "ApplyVersion ref_provider 2 True ?s = ((r, None), s')" by blast
  from ApplyVersion_toggles [OF ref_version_store ref_migrations_well_formed(1) _ _ a, of "[1, 0]"] a show ?thesis
    by (auto simp: ref_state_simps moved.simps)
qed

text \<open>With isolated DDL the function \<open>ok\<close> is not among what the server executed, and version 2 is recorded.\<close>

theorem isolated_go_migration_not_run_witness:
  "runIndividually (ref_provider\<lparr>p_cfg := zero_config\<lparr>isolateDDL := True\<rparr>\<rparr>) ref_go_migration True
     (pw (ref_state [] (Some [0]) True)) =
     Insert ref_store HDB 2 (pw (ref_state [] (Some [0]) True)) \<and>
   committed (snd (Insert ref_store HDB 2 (pw (ref_state [] (Some [0]) True)))) = (Some [2, 0], [])"
proof
  let ?p = "ref_provider\<lparr>p_cfg := zero_config\<lparr>isolateDDL := True\<rparr>\<rparr>"
  have "Type ref_go_migration = TypeGo" "Mode (goDown ref_go_migration) \<noteq> ModeUnset"
    "goUp ref_go_migration = \<lparr>RunTx = Some (Fn ''ok''), RunDB = None, Mode = TransactionEnabled\<rparr>"
    by (simp_all add: ref_go_migration_def NewGoMigration_def set_up_funcs_def set_down_funcs_def updateMode_def zeroMigration_def)
  from isolated_go_migration_not_run [of ?p, OF _ this(1,3,2)]
  show "runIndividually ?p ref_go_migration True (pw (ref_state [] (Some [0]) True)) =
      Insert ref_store HDB 2 (pw (ref_state [] (Some [0]) True))"
    by (simp add: ref_versions) (simp add: ref_provider_def zero_config_def)
qed code_simp


end
