(* ===== verification/Legacy_Collect.thy ===== *)
theory Legacy_Collect
  imports Collect "HOL-Library.Multiset"
begin

text \<open>
  The legacy collection of migrations in \<open>migrate.go\<close>: the list type \<open>Migrations\<close> with its lookups,
  \<open>collectMigrationsFS\<close> and \<open>collectGoMigrations\<close>.

  The directory is in clean form, without pattern characters. Registered migrations are shared
  pointers: what an operation writes to an element of the list it writes to the registry, so the
  collection returns the registry as well. A duplicate version makes the comparison of \<open>sort.Sort\<close>
  panic: two equal elements are neighbours in every sorted order, and a sorting algorithm that never
  compared neighbours could not know their order.
\<close>

section \<open>The list type\<close>

fun Current :: "Migration list \<Rightarrow> version \<Rightarrow> err + Migration" where
  "Current [] current = Inl (Sent ErrNoCurrentVersion)"
| "Current (m # ms) current = (if Version m = current then Inr m else Current ms current)"

fun Migrations_Next :: "Migration list \<Rightarrow> version \<Rightarrow> err + Migration" where
  "Migrations_Next [] current = Inl (Sent ErrNoNextVersion)"
| "Migrations_Next (m # ms) current = (if Version m > current then Inr m else Migrations_Next ms current)"

fun previous_from :: "Migration list \<Rightarrow> version \<Rightarrow> err + Migration" where
  "previous_from [] current = Inl (Sent ErrNoNextVersion)"
| "previous_from (m # ms) current = (if Version m < current then Inr m else previous_from ms current)"

definition Migrations_Previous :: "Migration list \<Rightarrow> version \<Rightarrow> err + Migration" where
  "Migrations_Previous ms current = previous_from (rev ms) current"

definition Last :: "Migration list \<Rightarrow> err + Migration" where
  "Last ms = (if ms = [] then Inl (Sent ErrNoNextVersion) else Inr (last ms))"

definition versionFilter :: "version \<Rightarrow> version \<Rightarrow> version \<Rightarrow> bool" where
  "versionFilter v current target =
     (if target > current then v > current \<and> v \<le> target
      else if target < current then v \<le> current \<and> v > target
      else False)"

definition minVersion :: version where "minVersion = 0"

definition maxVersion :: version where "maxVersion = 2 ^ 63 - 1"

section \<open>Collection\<close>

text \<open>\<open>baseFS\<close>: the files, and what \<open>fs.Stat\<close> answers for a directory.\<close>

record base_fs =
  b_files :: fs
  b_stat :: "path \<Rightarrow> err option"

definition Glob_dir :: "fs \<Rightarrow> path \<Rightarrow> string \<Rightarrow> path list" where
  "Glob_dir fsys dir ext =
     filter (\<lambda>f. HasSuffix (Base f) ext \<and> f = path_Join dir (Base f)) (map fst fsys)"

definition file_migration :: "version \<Rightarrow> path \<Rightarrow> Migration" where
  "file_migration v f = zeroMigration\<lparr>Version := v, Next := -1, Previous := -1, MSourcePath := f\<rparr>"

fun collect_sql :: "version \<Rightarrow> version \<Rightarrow> path list \<Rightarrow> err + Migration list" where
  "collect_sql current target [] = Inr []"
| "collect_sql current target (f # files) =
     (case NumericComponent f of
        Inl e \<Rightarrow> Inl (Wrap (''could not parse SQL migration file '' @ Quote f) e)
      | Inr v \<Rightarrow>
          (case collect_sql current target files of
             Inl e \<Rightarrow> Inl e
           | Inr ms \<Rightarrow> Inr (if versionFilter v current target then file_migration v f # ms else ms)))"

text \<open>The sanity check of the registry, and what is found in it when no file selects from it.\<close>

fun check_registered :: "registry \<Rightarrow> err option" where
  "check_registered [] = None"
| "check_registered ((k, m) # reg) =
     (case NumericComponent (MSourcePath m) of
        Inl e \<Rightarrow> Some (Wrap (''could not parse go migration file '' @ MSourcePath m) e)
      | Inr _ \<Rightarrow> check_registered reg)"

fun registered_in_range :: "version \<Rightarrow> version \<Rightarrow> registry \<Rightarrow> err + Migration list" where
  "registered_in_range current target [] = Inr []"
| "registered_in_range current target ((k, m) # reg) =
     (case NumericComponent (MSourcePath m) of
        Inl e \<Rightarrow> Inl (Wrap (''could not parse go migration file '' @ MSourcePath m) e)
      | Inr v \<Rightarrow>
          (case registered_in_range current target reg of
             Inl e \<Rightarrow> Inl e
           | Inr ms \<Rightarrow> Inr (if versionFilter v current target then m # ms else ms)))"

fun go_sources :: "version \<Rightarrow> version \<Rightarrow> path list \<Rightarrow> (path \<times> version) list" where
  "go_sources current target [] = []"
| "go_sources current target (f # files) =
     (case NumericComponent f of
        Inl e \<Rightarrow> go_sources current target files
      | Inr v \<Rightarrow>
          (if HasSuffix f ''_test.go'' then go_sources current target files
           else if versionFilter v current target then (f, v) # go_sources current target files
           else go_sources current target files))"

definition collectGoMigrations ::
    "base_fs \<Rightarrow> path \<Rightarrow> registry \<Rightarrow> version \<Rightarrow> version \<Rightarrow> err + Migration list" where
  "collectGoMigrations fsys dirpath reg current target =
     (case check_registered reg of
        Some e \<Rightarrow> Inl e
      | None \<Rightarrow>
          (let goFiles = Glob_dir (b_files fsys) dirpath ''.go''
           in if goFiles = [] \<and> reg = [] then Inr []
              else
                (let sources = go_sources current target goFiles
                 in if sources \<noteq> []
                    then Inr (map (\<lambda>(f, v). case map_of reg v of Some m \<Rightarrow> m | None \<Rightarrow> file_migration v f) sources)
                    else registered_in_range current target reg)))"

section \<open>Sorting and connecting\<close>

fun connect :: "version \<Rightarrow> Migration list \<Rightarrow> Migration list" where
  "connect prev [] = []"
| "connect prev [m] = [m\<lparr>Previous := prev\<rparr>]"
| "connect prev (m # m' # ms) = m\<lparr>Previous := prev, Next := Version m'\<rparr> # connect (Version m) (m' # ms)"

definition sortAndConnectMigrations :: "Migration list \<Rightarrow> err + Migration list" where
  "sortAndConnectMigrations ms =
     (if distinct (map Version ms) then Inr (connect (-1) (sort_key Version ms))
      else Inl (Panic ''goose: duplicate version detected''))"

text \<open>The registered migrations among the elements of a list, written to the registry.\<close>

definition store_registered :: "Migration list \<Rightarrow> registry \<Rightarrow> registry" where
  "store_registered ms reg =
     map (\<lambda>(v, m). case find (\<lambda>x. Registered x \<and> Version x = v) ms of Some x \<Rightarrow> (v, x) | None \<Rightarrow> (v, m)) reg"

definition collectMigrationsFS ::
    "base_fs \<Rightarrow> path \<Rightarrow> version \<Rightarrow> version \<Rightarrow> registry \<Rightarrow> (err + Migration list) \<times> registry" where
  "collectMigrationsFS fsys dirpath current target reg =
     (case b_stat fsys dirpath of
        Some e \<Rightarrow>
          (if errors_Is e ErrNotExist then (Inl (Msg (dirpath @ '' directory does not exist'')), reg) else (Inl e, reg))
      | None \<Rightarrow>
          (case collect_sql current target (Glob_dir (b_files fsys) dirpath ''.sql'') of
             Inl e \<Rightarrow> (Inl e, reg)
           | Inr sqls \<Rightarrow>
               (case collectGoMigrations fsys dirpath reg current target of
                  Inl e \<Rightarrow> (Inl e, reg)
                | Inr gos \<Rightarrow>
                    (if sqls @ gos = [] then (Inl (Sent ErrNoMigrationFiles), reg)
                     else
                       (case sortAndConnectMigrations (sqls @ gos) of
                          Inl e \<Rightarrow> (Inl e, reg)
                        | Inr ms \<Rightarrow> (Inr ms, store_registered ms reg))))))"

section \<open>What is collected\<close>

lemma connect_versions [simp]: "map Version (connect prev ms) = map Version ms"
  by (induction prev ms rule: connect.induct) simp_all

lemma collect_sql_list:
  "collect_sql current target files = Inr ms \<Longrightarrow> (\<forall>f\<in>set files. \<exists>v. NumericComponent f = Inr v) \<and>
     map Version ms = filter (\<lambda>v. versionFilter v current target) (map (\<lambda>f. projr (NumericComponent f)) files)"
  by (induction files arbitrary: ms) (auto simp: file_migration_def split: sum.splits if_splits)

lemma collect_sql_range:
  assumes "collect_sql current target files = Inr ms"
  shows "Version ` set ms = {v. versionFilter v current target \<and> (\<exists>f\<in>set files. NumericComponent f = Inr v)}"
proof -
  have ok: "\<forall>f\<in>set files. \<exists>v. NumericComponent f = Inr v"
    and l: "map Version ms = filter (\<lambda>v. versionFilter v current target) (map (\<lambda>f. projr (NumericComponent f)) files)"
    using collect_sql_list [OF assms] by auto
  from arg_cong [OF l, of set] ok show ?thesis by (auto simp: image_iff) (metis sum.sel(2))+
qed

text \<open>Every migration is registered under its version, which is that of its source, if that has one.\<close>

definition registry_named :: "registry \<Rightarrow> bool" where
  "registry_named reg \<longleftrightarrow> distinct (map fst reg) \<and>
     (\<forall>(v, m)\<in>set reg. Version m = v \<and> (\<forall>n. NumericComponent (MSourcePath m) = Inr n \<longrightarrow> n = v))"

lemma registered_in_range_list:
  assumes "registered_in_range current target reg = Inr ms"
    and "\<forall>(v, m)\<in>set reg. Version m = v \<and> (\<forall>n. NumericComponent (MSourcePath m) = Inr n \<longrightarrow> n = v)"
  shows "map Version ms = filter (\<lambda>v. versionFilter v current target) (map fst reg)"
  using assms
  by (induction current target reg arbitrary: ms rule: registered_in_range.induct) (auto split: sum.splits if_splits)

lemma go_sources_range:
  "snd ` set (go_sources current target files) =
     {v. versionFilter v current target \<and> (\<exists>f\<in>set files. NumericComponent f = Inr v \<and> \<not> HasSuffix f ''_test.go'')}"
  by (induction files) (auto split: sum.splits)

text \<open>The versions of the Go migrations: those of the files in range, or the registered ones if there is none.\<close>

definition go_versions :: "base_fs \<Rightarrow> path \<Rightarrow> registry \<Rightarrow> version \<Rightarrow> version \<Rightarrow> version set" where
  "go_versions fsys dir reg current target =
     (let files = snd ` set (go_sources current target (Glob_dir (b_files fsys) dir ''.go''))
      in if files \<noteq> {} then files else {v. versionFilter v current target \<and> v \<in> fst ` set reg})"

lemma collectGoMigrations_versions:
  assumes "registry_named reg" and "collectGoMigrations fsys dir reg current target = Inr ms"
  shows "Version ` set ms = go_versions fsys dir reg current target"
proof -
  let ?src = "go_sources current target (Glob_dir (b_files fsys) dir ''.go'')"
  let ?m = "\<lambda>(f, v). case map_of reg v of Some m \<Rightarrow> m | None \<Rightarrow> file_migration v f"
  have named: "\<forall>(v, m)\<in>set reg. Version m = v \<and> (\<forall>n. NumericComponent (MSourcePath m) = Inr n \<longrightarrow> n = v)"
    using assms(1) by (simp add: registry_named_def)
  show ?thesis
  proof (cases "?src = []")
    case True
    then have "ms = [] \<and> reg = [] \<or> registered_in_range current target reg = Inr ms"
      using assms(2) by (auto simp: collectGoMigrations_def Let_def split: option.splits if_splits)
    then have "map Version ms = filter (\<lambda>v. versionFilter v current target) (map fst reg)"
      using registered_in_range_list [OF _ named] by auto
    from arg_cong [OF this, of set] True show ?thesis by (auto simp: go_versions_def)
  next
    case False
    then have ms: "ms = map ?m ?src"
      using assms(2) by (auto simp: collectGoMigrations_def Let_def split: option.splits if_splits)
    have "Version (?m x) = snd x" for x
      using named by (cases x) (auto simp: file_migration_def split: option.splits dest!: map_of_SomeD)
    then have "Version ` set ms = snd ` set ?src" by (simp add: ms image_image)
    with False show ?thesis by (auto simp: go_versions_def Let_def)
  qed
qed

lemma collectMigrationsFS_versions:
  assumes "registry_named reg" and "collectMigrationsFS fsys dir current target reg = (Inr ms, reg')"
  shows "sorted_wrt (<) (map Version ms) \<and> ms \<noteq> [] \<and>
     Version ` set ms = {v. versionFilter v current target \<and>
        (\<exists>f\<in>set (Glob_dir (b_files fsys) dir ''.sql''). NumericComponent f = Inr v)} \<union> go_versions fsys dir reg current target"
proof -
  obtain sqls gos where c: "collect_sql current target (Glob_dir (b_files fsys) dir ''.sql'') = Inr sqls"
    "collectGoMigrations fsys dir reg current target = Inr gos" and ne: "sqls @ gos \<noteq> []"
    and s: "sortAndConnectMigrations (sqls @ gos) = Inr ms"
    using assms(2) by (auto simp: collectMigrationsFS_def split: option.splits sum.splits if_splits)
  have ms: "distinct (map Version (sqls @ gos))" "ms = connect (-1) (sort_key Version (sqls @ gos))"
    using s by (auto simp: sortAndConnectMigrations_def split: if_splits)
  have mv: "map Version ms = map Version (sort_key Version (sqls @ gos))" using ms(2) by simp
  have "mset (map Version ms) = mset (map Version (sqls @ gos))" unfolding mv by (simp only: mset_map mset_sort)
  then have "distinct (map Version ms)" using ms(1) by (metis mset_eq_imp_distinct_iff)
  moreover have "sorted (map Version ms)" unfolding mv by (rule sorted_sort_key)
  ultimately have sd: "sorted_wrt (<) (map Version ms)" by (simp add: strict_sorted_iff)
  have "Version ` set ms = Version ` set (sqls @ gos)" using arg_cong [OF mv, of set] by simp
  with collect_sql_range [OF c(1)] collectGoMigrations_versions [OF assms(1) c(2)]
  have "Version ` set ms = {v. versionFilter v current target \<and>
        (\<exists>f\<in>set (Glob_dir (b_files fsys) dir ''.sql''). NumericComponent f = Inr v)} \<union> go_versions fsys dir reg current target"
    by auto
  moreover have "ms \<noteq> []" using ne mv by (metis map_is_Nil_conv sort_key_simps(1) length_0_conv length_sort)
  ultimately show ?thesis using sd by blast
qed

lemma collect_range:
  assumes "registry_named reg" and "collectMigrationsFS fsys dir current target reg = (Inr ms, reg')" and "m \<in> set ms"
  shows "versionFilter (Version m) current target"
proof -
  have "Version m \<in> Version ` set ms" using assms(3) by simp
  then show ?thesis
    using collectMigrationsFS_versions [OF assms(1,2)] go_sources_range [of current target]
    by (auto simp: go_versions_def Let_def split: if_splits)
qed


lemma registry_of_named: "registry_of reg \<Longrightarrow> registry_named reg"
proof -
  have empty: "NumericComponent '''' \<noteq> Inr n" for n
  proof -
    have "\<not> isl (NumericComponent '''') = False" by code_simp
    then show ?thesis by (cases "NumericComponent ''''") auto
  qed
  have check: "checkGoMigration m = None \<Longrightarrow> NumericComponent (MSourcePath m) = Inr n \<Longrightarrow> n = Version m" for m n
    using empty [of n] by (auto simp: checkGoMigration_def checkSource_def split: if_splits option.splits sum.splits)
  have snoc: "registry_named reg \<Longrightarrow> map_of reg (Version m) = None \<Longrightarrow>
      (\<And>n. NumericComponent (MSourcePath m) = Inr n \<Longrightarrow> n = Version m) \<Longrightarrow> registry_named (reg @ [(Version m, m)])" for reg m
    by (auto simp: registry_named_def map_of_eq_None_iff)
  have set: "registry_named reg \<Longrightarrow> registry_named (snd (SetGlobalMigrations ms reg))" for ms reg
    by (induction ms reg rule: SetGlobalMigrations.induct) (auto split: option.splits intro: snoc check)
  have add: "registry_named reg \<Longrightarrow> registry_named (snd (register filename useTx up down reg))" for filename useTx up down reg
    using snoc [of reg "(NewGoMigration (case NumericComponent filename of Inl _ \<Rightarrow> 0 | Inr n \<Rightarrow> n) (Some up) (Some down))
      \<lparr>MSourcePath := filename, UseTx := useTx\<rparr>"]
    by (auto simp: register_def Let_def split: option.splits)
  assume "registry_of reg"
  then show ?thesis
    by induction (auto simp: set add, simp add: registry_named_def ResetGlobalMigrations_def)
qed


end
