(* ===== verification/Legacy_Run.thy ===== *)
theory Legacy_Run
  imports Legacy_Collect Provider_Init_Lemmas Resolve
begin

text \<open>
  The legacy run of one migration: \<open>internal/legacystore\<close>, \<open>migration_sql.go\<close>, the run functions of
  \<open>migration.go\<close> and the version functions of \<open>migrate.go\<close>. The variables of the package are a record;
  the database and the registry are passed along. Log output is left out.
\<close>

record 'd package =
  g_engine :: "'d engine"
  g_querier :: querier
  g_table :: string
  g_fs :: base_fs
  g_ext :: ext

definition TableName :: "'d package \<Rightarrow> string" where
  "TableName g = g_table g"

definition SetTableName :: "string \<Rightarrow> 'd package \<Rightarrow> 'd package" where
  "SetTableName n g = g\<lparr>g_table := n\<rparr>"

definition SetBaseFS :: "base_fs \<Rightarrow> base_fs option \<Rightarrow> 'd package \<Rightarrow> 'd package" where
  "SetBaseFS osFS fsys g = g\<lparr>g_fs := (case fsys of None \<Rightarrow> osFS | Some f \<Rightarrow> f)\<rparr>"

section \<open>The legacy store\<close>

definition legacy_CreateVersionTable :: "'d package \<Rightarrow> 'd world \<Rightarrow> err option \<times> 'd world" where
  "legacy_CreateVersionTable g w = ExecContext (g_engine g) HTx (Q_CreateTable (g_querier g) (TableName g)) [] w"

definition legacy_InsertVersion :: "'d package \<Rightarrow> version \<Rightarrow> 'd world \<Rightarrow> err option \<times> 'd world" where
  "legacy_InsertVersion g version w =
     ExecContext (g_engine g) HTx (Q_InsertVersion (g_querier g) (TableName g)) [IntArg version, BoolArg True] w"

definition legacy_InsertVersionNoTx :: "'d package \<Rightarrow> version \<Rightarrow> 'd world \<Rightarrow> err option \<times> 'd world" where
  "legacy_InsertVersionNoTx g version w =
     ExecContext (g_engine g) HDB (Q_InsertVersion (g_querier g) (TableName g)) [IntArg version, BoolArg True] w"

definition legacy_DeleteVersion :: "'d package \<Rightarrow> version \<Rightarrow> 'd world \<Rightarrow> err option \<times> 'd world" where
  "legacy_DeleteVersion g version w =
     ExecContext (g_engine g) HTx (Q_DeleteVersion (g_querier g) (TableName g)) [IntArg version] w"

definition legacy_DeleteVersionNoTx :: "'d package \<Rightarrow> version \<Rightarrow> 'd world \<Rightarrow> err option \<times> 'd world" where
  "legacy_DeleteVersionNoTx g version w =
     ExecContext (g_engine g) HDB (Q_DeleteVersion (g_querier g) (TableName g)) [IntArg version] w"

definition legacy_GetMigration :: "'d package \<Rightarrow> version \<Rightarrow> 'd world \<Rightarrow> (err + GetMigrationResult) \<times> 'd world" where
  "legacy_GetMigration g version w =
     (case QueryRow (g_engine g) HDB (Q_GetMigrationByVersion (g_querier g) (TableName g)) [IntArg version] w of
        (Inl e, w') \<Rightarrow> (Inl e, w')
      | (Inr row, w') \<Rightarrow> (scan_migration row, w'))"

fun legacy_scan_list :: "cell list list \<Rightarrow> err + ListMigrationsResult list" where
  "legacy_scan_list [] = Inr []"
| "legacy_scan_list (row # rows) =
     (case row of
        [v, a] \<Rightarrow>
          (case (scan_int v, scan_bool a) of
             (Inr n, Inr b) \<Rightarrow>
               (case legacy_scan_list rows of
                  Inl e \<Rightarrow> Inl e
                | Inr ms \<Rightarrow> Inr (\<lparr>LVersion = n, LIsApplied = b\<rparr> # ms))
           | _ \<Rightarrow> Inl scan_error)
      | _ \<Rightarrow> Inl scan_error)"

definition legacy_ListMigrations :: "'d package \<Rightarrow> 'd world \<Rightarrow> (err + ListMigrationsResult list) \<times> 'd world" where
  "legacy_ListMigrations g w =
     (case QueryContext (g_engine g) HDB (Q_ListMigrations (g_querier g) (TableName g)) [] w of
        (Inl e, w') \<Rightarrow> (Inl e, w')
      | (Inr (rows, it), w') \<Rightarrow>
          (case legacy_scan_list rows of
             Inl e \<Rightarrow> (Inl e, w')
           | Inr ms \<Rightarrow> (case it of Some e \<Rightarrow> (Inl (Msg e), w') | None \<Rightarrow> (Inr ms, w'))))"

definition insertOrDeleteVersion :: "'d package \<Rightarrow> version \<Rightarrow> bool \<Rightarrow> 'd world \<Rightarrow> err option \<times> 'd world" where
  "insertOrDeleteVersion g version direction w =
     (if direction then legacy_InsertVersion g version w else legacy_DeleteVersion g version w)"

definition insertOrDeleteVersionNoTx :: "'d package \<Rightarrow> version \<Rightarrow> bool \<Rightarrow> 'd world \<Rightarrow> err option \<times> 'd world" where
  "insertOrDeleteVersionNoTx g version direction w =
     (if direction then legacy_InsertVersionNoTx g version w else legacy_DeleteVersionNoTx g version w)"

section \<open>SQL migrations\<close>

text \<open>After an error in a transaction it is rolled back, and the error of the rollback is dropped.\<close>

definition rolled_back :: "string \<Rightarrow> err \<Rightarrow> 'd world \<Rightarrow> err option \<times> 'd world" where
  "rolled_back msg e w = (Some (Wrap msg e), snd (Rollback w))"

definition commit_or :: "'d world \<Rightarrow> err option \<times> 'd world" where
  "commit_or w = wrap_err ''failed to commit transaction'' (Commit w)"

text \<open>
  \<open>clearStatement\<close> drops comment lines and then empty lines, each with all the ends of line after it. A
  line starts at the beginning (\<open>bol\<close>) and after a line feed.
\<close>

function clear_lines :: "(string \<Rightarrow> bool) \<Rightarrow> bool \<Rightarrow> string \<Rightarrow> string" where
  "clear_lines match bol [] = []"
| "clear_lines match bol (c # s) =
     (if bol \<and> match (c # s)
      then
        (let rest = dropWhile (\<lambda>d. d \<noteq> CHR 0x0A) (c # s); ends = takeWhile (\<lambda>d. d \<in> {CHR 0x0D, CHR 0x0A}) rest
         in clear_lines match (ends \<noteq> [] \<and> last ends = CHR 0x0A) (dropWhile (\<lambda>d. d \<in> {CHR 0x0D, CHR 0x0A}) rest))
      else c # clear_lines match (c = CHR 0x0A) s)"
  by pat_completeness auto

lemma after_line: "length (dropWhile (\<lambda>d. d \<in> {CHR 0x0D, CHR 0x0A}) (dropWhile (\<lambda>d. d \<noteq> CHR 0x0A) (c # s))) < length (c # s)"
  by (auto simp: less_Suc_eq_le intro: order.trans [OF length_dropWhile_le])

termination clear_lines
  by (relation "measure (\<lambda>(m, b, s). length s)") (use after_line in auto)

definition clearStatement :: "string \<Rightarrow> string" where
  "clearStatement s = clear_lines (\<lambda>l. l \<noteq> [] \<and> hd l = CHR 0x0A) True (clear_lines (\<lambda>l. HasPrefix l ''--'') True s)"

text \<open>The statements one by one; the error has the text of the one that failed.\<close>

fun exec_queries :: "'d engine \<Rightarrow> handle \<Rightarrow> string list \<Rightarrow> 'd world \<Rightarrow> err option \<times> 'd world" where
  "exec_queries eng h [] w = (None, w)"
| "exec_queries eng h (query # statements) w =
     (case ExecContext eng h query [] w of
        (Some e, w') \<Rightarrow> (Some (Wrap (''failed to execute SQL query '' @ Quote (clearStatement query)) e), w')
      | (None, w') \<Rightarrow> exec_queries eng h statements w')"

definition runSQLMigration ::
    "'d package \<Rightarrow> string list \<Rightarrow> bool \<Rightarrow> version \<Rightarrow> bool \<Rightarrow> bool \<Rightarrow> 'd world \<Rightarrow> err option \<times> 'd world" where
  "runSQLMigration g statements tx v direction noVersions w =
     (if tx
      then
        (case BeginTx w of
           (Some e, w1) \<Rightarrow> (Some (Wrap ''failed to begin transaction'' e), w1)
         | (None, w1) \<Rightarrow>
             (case exec_queries (g_engine g) HTx statements w1 of
                (Some e, w2) \<Rightarrow> (Some e, snd (Rollback w2))
              | (None, w2) \<Rightarrow>
                  (if \<not> noVersions
                   then
                     (if direction
                      then
                        (case legacy_InsertVersion g v w2 of
                           (Some e, w3) \<Rightarrow> rolled_back ''failed to insert new goose version'' e w3
                         | (None, w3) \<Rightarrow> commit_or w3)
                      else
                        (case legacy_DeleteVersion g v w2 of
                           (Some e, w3) \<Rightarrow> rolled_back ''failed to delete goose version'' e w3
                         | (None, w3) \<Rightarrow> commit_or w3))
                   else commit_or w2)))
      else
        (case exec_queries (g_engine g) HDB statements w of
           (Some e, w1) \<Rightarrow> (Some e, w1)
         | (None, w1) \<Rightarrow>
             (if \<not> noVersions
              then
                (if direction
                 then wrap_err ''failed to insert new goose version'' (legacy_InsertVersionNoTx g v w1)
                 else wrap_err ''failed to delete goose version'' (legacy_DeleteVersionNoTx g v w1))
              else (None, w1))))"

section \<open>Go migrations\<close>

text \<open>The function of the user: a panic is not recovered here.\<close>

definition call_fn :: "'d package \<Rightarrow> handle \<Rightarrow> gofn \<Rightarrow> 'd world \<Rightarrow> err option \<times> 'd world" where
  "call_fn g h f w =
     (case e_go (g_engine g) f (cur h w) of
        (Returns r, d) \<Rightarrow> (r, put h d w)
      | (Panics msg, d) \<Rightarrow> (Some (Panic msg), put h d w))"

definition panicked :: "err \<Rightarrow> bool" where
  "panicked e = (case e of Panic _ \<Rightarrow> True | _ \<Rightarrow> False)"

definition runGoMigrationNoTx ::
    "'d package \<Rightarrow> gofn option \<Rightarrow> version \<Rightarrow> bool \<Rightarrow> bool \<Rightarrow> 'd world \<Rightarrow> err option \<times> 'd world" where
  "runGoMigrationNoTx g fn version direction recordVersion w =
     (case (case fn of None \<Rightarrow> (None, w) | Some f \<Rightarrow> call_fn g HDB f w) of
        (Some e, w1) \<Rightarrow> (Some (if panicked e then e else Wrap ''failed to run go migration'' e), w1)
      | (None, w1) \<Rightarrow> (if recordVersion then insertOrDeleteVersionNoTx g version direction w1 else (None, w1)))"

definition runGoMigration ::
    "'d package \<Rightarrow> gofn option \<Rightarrow> version \<Rightarrow> bool \<Rightarrow> bool \<Rightarrow> 'd world \<Rightarrow> err option \<times> 'd world" where
  "runGoMigration g fn version direction recordVersion w =
     (if fn = None \<and> \<not> recordVersion then (None, w)
      else
        (case BeginTx w of
           (Some e, w1) \<Rightarrow> (Some (Wrap ''failed to begin transaction'' e), w1)
         | (None, w1) \<Rightarrow>
             (case (case fn of None \<Rightarrow> (None, w1) | Some f \<Rightarrow> call_fn g HTx f w1) of
                (Some e, w2) \<Rightarrow>
                  (if panicked e then (Some e, w2) else rolled_back ''failed to run go migration'' e w2)
              | (None, w2) \<Rightarrow>
                  (if recordVersion
                   then
                     (case insertOrDeleteVersion g version direction w2 of
                        (Some e, w3) \<Rightarrow> rolled_back ''failed to update version'' e w3
                      | (None, w3) \<Rightarrow> commit_or w3)
                   else commit_or w2))))"

section \<open>One migration\<close>

definition fail_with :: "string \<Rightarrow> err option \<times> 'w \<Rightarrow> err option \<times> 'w" where
  "fail_with msg r =
     (case r of (Some e, w) \<Rightarrow> (Some (if panicked e then e else Wrap msg e), w) | (None, w) \<Rightarrow> (None, w))"

definition Migration_run :: "'d package \<Rightarrow> Migration \<Rightarrow> bool \<Rightarrow> 'd world \<Rightarrow> err option \<times> 'd world" where
  "Migration_run g m direction w =
     (if Ext (MSourcePath m) = ''.sql''
      then
        (case fs_Open (b_files (g_fs g)) (MSourcePath m) of
           Inl e \<Rightarrow> (Some (Wrap (''ERROR '' @ Base (MSourcePath m) @ '': failed to open SQL migration file'') e), w)
         | Inr f \<Rightarrow>
             (case ParseSQLMigration (g_ext g) (f_reader f) (FromBool direction) of
                Inl e \<Rightarrow> (Some (Wrap (''ERROR '' @ Base (MSourcePath m) @ '': failed to parse SQL migration file'') e), w)
              | Inr (statements, tx) \<Rightarrow>
                  fail_with (''ERROR '' @ Base (MSourcePath m) @ '': failed to run SQL migration'')
                    (runSQLMigration g statements tx (Version m) direction (noVersioning m) w)))
      else if Ext (MSourcePath m) = ''.go''
      then
        (if \<not> Registered m
         then (Some (Msg (''ERROR '' @ MSourcePath m @
                 '': failed to run Go migration: Go functions must be registered and built into a custom binary (see https://github.com/pressly/goose/tree/master/examples/go-migrations)'')), w)
         else if UseTx m
         then fail_with (''ERROR go migration: '' @ Quote (Base (MSourcePath m)))
                (runGoMigration g (if direction then UpFnContext m else DownFnContext m) (Version m) direction
                   (\<not> noVersioning m) w)
         else fail_with (''ERROR go migration no tx: '' @ Quote (Base (MSourcePath m)))
                (runGoMigrationNoTx g (if direction then UpFnNoTxContext m else DownFnNoTxContext m) (Version m) direction
                   (\<not> noVersioning m) w))
      else (None, w))"

definition Migration_UpContext :: "'d package \<Rightarrow> Migration \<Rightarrow> 'd world \<Rightarrow> err option \<times> 'd world" where
  "Migration_UpContext g m w = Migration_run g m True w"

definition Migration_DownContext :: "'d package \<Rightarrow> Migration \<Rightarrow> 'd world \<Rightarrow> err option \<times> 'd world" where
  "Migration_DownContext g m w = Migration_run g m False w"

section \<open>The version of the database\<close>

definition createVersionTable :: "'d package \<Rightarrow> 'd world \<Rightarrow> err option \<times> 'd world" where
  "createVersionTable g w =
     (case BeginTx w of
        (Some e, w1) \<Rightarrow> (Some e, w1)
      | (None, w1) \<Rightarrow>
          (case legacy_CreateVersionTable g w1 of
             (Some e, w2) \<Rightarrow> (Some e, snd (Rollback w2))
           | (None, w2) \<Rightarrow>
               (case legacy_InsertVersion g 0 w2 of
                  (Some e, w3) \<Rightarrow> (Some e, snd (Rollback w3))
                | (None, w3) \<Rightarrow> Commit w3)))"

fun newest_applied :: "version list \<Rightarrow> ListMigrationsResult list \<Rightarrow> err + version" where
  "newest_applied skipLookup [] = Inl (Sent ErrNoNextVersion)"
| "newest_applied skipLookup (m # ms) =
     (if LVersion m \<in> set skipLookup then newest_applied skipLookup ms
      else if LIsApplied m then Inr (LVersion m)
      else newest_applied (LVersion m # skipLookup) ms)"

definition EnsureDBVersion :: "'d package \<Rightarrow> 'd world \<Rightarrow> (err + version) \<times> 'd world" where
  "EnsureDBVersion g w =
     (case legacy_ListMigrations g w of
        (Inl e, w1) \<Rightarrow>
          (case createVersionTable g w1 of
             (Some createErr, w2) \<Rightarrow> (Inl (the (multierr_append (g_ext g) (Some e) (Some createErr))), w2)
           | (None, w2) \<Rightarrow> (Inr 0, w2))
      | (Inr dbMigrations, w1) \<Rightarrow> (newest_applied [] dbMigrations, w1))"

definition legacy_GetDBVersion :: "'d package \<Rightarrow> 'd world \<Rightarrow> (err + version) \<times> 'd world" where
  "legacy_GetDBVersion g w = EnsureDBVersion g w"

end
