(* ===== verification/Legacy_Ops.thy ===== *)
theory Legacy_Ops
  imports Legacy_Run
begin

text \<open>
  The legacy operations: \<open>up.go\<close>, \<open>down.go\<close>, \<open>redo.go\<close>, \<open>reset.go\<close>, \<open>status.go\<close> and \<open>version.go\<close>, one
  definition per function. The operations without a context are the same with the background
  context. What they print is returned where it is their only result.
\<close>

record 'd lstate =
  lw :: "'d world"
  lreg :: registry

record options =
  o_allowMissing :: bool
  o_applyUpByOne :: bool
  o_noVersioning :: bool

text \<open>\<open>WithNoColor\<close> sets a variable of the logger only.\<close>

datatype OptionsFunc = WithAllowMissing | WithNoVersioning | WithNoColor bool | withApplyUpByOne

fun apply_OptionsFunc :: "OptionsFunc \<Rightarrow> options \<Rightarrow> options" where
  "apply_OptionsFunc WithAllowMissing o1 = o1\<lparr>o_allowMissing := True\<rparr>"
| "apply_OptionsFunc WithNoVersioning o1 = o1\<lparr>o_noVersioning := True\<rparr>"
| "apply_OptionsFunc (WithNoColor b) o1 = o1"
| "apply_OptionsFunc withApplyUpByOne o1 = o1\<lparr>o_applyUpByOne := True\<rparr>"

definition options_of :: "OptionsFunc list \<Rightarrow> options" where
  "options_of opts =
     fold apply_OptionsFunc opts \<lparr>o_allowMissing = False, o_applyUpByOne = False, o_noVersioning = False\<rparr>"

definition CollectMigrations ::
    "'d package \<Rightarrow> path \<Rightarrow> version \<Rightarrow> version \<Rightarrow> 'd lstate \<Rightarrow> (err + Migration list) \<times> 'd lstate" where
  "CollectMigrations g dir current target s =
     (case collectMigrationsFS (g_fs g) dir current target (lreg s) of (r, reg) \<Rightarrow> (r, s\<lparr>lreg := reg\<rparr>))"

text \<open>Running a migration of the list, after its field \<open>noVersioning\<close> may have been written.\<close>

definition run_in :: "'d package \<Rightarrow> Migration \<Rightarrow> bool \<Rightarrow> 'd lstate \<Rightarrow> err option \<times> 'd lstate" where
  "run_in g m direction s = (case Migration_run g m direction (lw s) of (r, w) \<Rightarrow> (r, s\<lparr>lw := w\<rparr>))"

definition set_noVersioning :: "bool \<Rightarrow> Migration \<Rightarrow> 'd lstate \<Rightarrow> Migration \<times> 'd lstate" where
  "set_noVersioning b m s =
     (m\<lparr>noVersioning := b\<rparr>, s\<lparr>lreg := store_registered [m\<lparr>noVersioning := b\<rparr>] (lreg s)\<rparr>)"

section \<open>Up\<close>

fun upToNoVersioning :: "'d package \<Rightarrow> Migration list \<Rightarrow> version \<Rightarrow> 'd lstate \<Rightarrow> err option \<times> 'd lstate" where
  "upToNoVersioning g [] version s = (None, s)"
| "upToNoVersioning g (m # ms) version s =
     (if Version m > version then (None, s)
      else
        (case set_noVersioning True m s of
           (m', s1) \<Rightarrow>
             (case run_in g m' True s1 of
                (Some e, s2) \<Rightarrow> (Some e, s2)
              | (None, s2) \<Rightarrow> upToNoVersioning g ms version s2)))"

definition listAllDBVersions :: "'d package \<Rightarrow> 'd world \<Rightarrow> (err + Migration list) \<times> 'd world" where
  "listAllDBVersions g w =
     (case legacy_ListMigrations g w of
        (Inl e, w1) \<Rightarrow> (Inl e, w1)
      | (Inr dbMigrations, w1) \<Rightarrow>
          (Inr (sort_key Version (map (\<lambda>m. zeroMigration\<lparr>Version := LVersion m\<rparr>) dbMigrations)), w1))"

definition findMissingMigrations :: "Migration list \<Rightarrow> Migration list \<Rightarrow> version \<Rightarrow> Migration list" where
  "findMissingMigrations known new dbMaxVersion =
     sort_key Version (filter (\<lambda>m. Version m \<notin> Version ` set known \<and> Version m < dbMaxVersion) new)"

definition missing_error :: "Migration list \<Rightarrow> version \<Rightarrow> err" where
  "missing_error missing dbMaxVersion =
     Msg (''error: found '' @ FormatNat (length missing) @ '' missing migrations before current version '' @
          FormatInt dbMaxVersion @ '':'' @ nl @ tab @
          Join (map (\<lambda>m. ''version '' @ FormatInt (Version m) @ '': '' @ MSourcePath m) missing) (nl @ tab))"

definition migrationsToApply ::
    "Migration list \<Rightarrow> Migration list \<Rightarrow> version \<Rightarrow> bool \<Rightarrow> err + Migration list" where
  "migrationsToApply dbMigrations foundMigrations version allowed =
     (if dbMigrations = [] then Inl (Panic ''index out of range [-1]'')
      else
        (let dbMaxVersion = Version (last dbMigrations);
             missing = findMissingMigrations dbMigrations foundMigrations dbMaxVersion
         in if missing \<noteq> [] \<and> \<not> allowed then Inl (missing_error missing dbMaxVersion)
            else Inr ((if allowed then missing else []) @
                   filter (\<lambda>m. Version m \<notin> Version ` set dbMigrations \<and> Version m > dbMaxVersion \<and> Version m \<le> version)
                     foundMigrations)))"

fun apply_each :: "'d package \<Rightarrow> bool \<Rightarrow> Migration list \<Rightarrow> 'd lstate \<Rightarrow> err option \<times> 'd lstate" where
  "apply_each g byOne [] s = (None, s)"
| "apply_each g byOne (m # ms) s =
     (case run_in g m True s of
        (Some e, s1) \<Rightarrow> (Some e, s1)
      | (None, s1) \<Rightarrow> (if byOne then (None, s1) else apply_each g byOne ms s1))"

definition up_versioned ::
    "'d package \<Rightarrow> Migration list \<Rightarrow> version \<Rightarrow> options \<Rightarrow> 'd lstate \<Rightarrow> err option \<times> 'd lstate" where
  "up_versioned g foundMigrations version option s =
     (case EnsureDBVersion g (lw s) of
        (Inl e, w1) \<Rightarrow> (Some e, s\<lparr>lw := w1\<rparr>)
      | (Inr _, w1) \<Rightarrow>
          (case listAllDBVersions g w1 of
             (Inl e, w2) \<Rightarrow> (Some e, s\<lparr>lw := w2\<rparr>)
           | (Inr dbMigrations, w2) \<Rightarrow>
               (case migrationsToApply dbMigrations foundMigrations version (o_allowMissing option) of
                  Inl e \<Rightarrow> (Some e, s\<lparr>lw := w2\<rparr>)
                | Inr ms \<Rightarrow>
                    (case apply_each g (o_applyUpByOne option) ms (s\<lparr>lw := w2\<rparr>) of
                       (Some e, s3) \<Rightarrow> (Some e, s3)
                     | (None, s3) \<Rightarrow>
                         (if ms \<noteq> [] then (None, s3)
                          else
                            (case legacy_GetDBVersion g (lw s3) of
                               (Inl e, w4) \<Rightarrow> (Some e, s3\<lparr>lw := w4\<rparr>)
                             | (Inr _, w4) \<Rightarrow>
                                 (if o_applyUpByOne option then Some (Sent ErrNoNextVersion) else None, s3\<lparr>lw := w4\<rparr>)))))))"

definition legacy_UpTo ::
    "'d package \<Rightarrow> path \<Rightarrow> version \<Rightarrow> OptionsFunc list \<Rightarrow> 'd lstate \<Rightarrow> err option \<times> 'd lstate" where
  "legacy_UpTo g dir version opts s =
     (let option = options_of opts
      in case CollectMigrations g dir minVersion version s of
           (Inl e, s1) \<Rightarrow> (Some e, s1)
         | (Inr foundMigrations, s1) \<Rightarrow>
             (if o_noVersioning option
              then
                (if foundMigrations = [] then (None, s1)
                 else upToNoVersioning g foundMigrations (if o_applyUpByOne option then Version (hd foundMigrations) else version) s1)
              else up_versioned g foundMigrations version option s1))"

definition legacy_Up :: "'d package \<Rightarrow> path \<Rightarrow> OptionsFunc list \<Rightarrow> 'd lstate \<Rightarrow> err option \<times> 'd lstate" where
  "legacy_Up g dir opts s = legacy_UpTo g dir maxVersion opts s"

definition legacy_UpByOne :: "'d package \<Rightarrow> path \<Rightarrow> OptionsFunc list \<Rightarrow> 'd lstate \<Rightarrow> err option \<times> 'd lstate" where
  "legacy_UpByOne g dir opts s = legacy_UpTo g dir maxVersion (opts @ [withApplyUpByOne]) s"

section \<open>Down\<close>

fun downToNoVersioning_from :: "'d package \<Rightarrow> Migration list \<Rightarrow> version \<Rightarrow> 'd lstate \<Rightarrow> err option \<times> 'd lstate" where
  "downToNoVersioning_from g [] version s = (None, s)"
| "downToNoVersioning_from g (m # ms) version s =
     (if version \<ge> Version m then (None, s)
      else
        (case set_noVersioning True m s of
           (m', s1) \<Rightarrow>
             (case run_in g m' False s1 of
                (Some e, s2) \<Rightarrow> (Some e, s2)
              | (None, s2) \<Rightarrow> downToNoVersioning_from g ms version s2)))"

definition downToNoVersioning :: "'d package \<Rightarrow> Migration list \<Rightarrow> version \<Rightarrow> 'd lstate \<Rightarrow> err option \<times> 'd lstate" where
  "downToNoVersioning g ms version s = downToNoVersioning_from g (rev ms) version s"

definition legacy_Down :: "'d package \<Rightarrow> path \<Rightarrow> OptionsFunc list \<Rightarrow> 'd lstate \<Rightarrow> err option \<times> 'd lstate" where
  "legacy_Down g dir opts s =
     (case CollectMigrations g dir minVersion maxVersion s of
        (Inl e, s1) \<Rightarrow> (Some e, s1)
      | (Inr ms, s1) \<Rightarrow>
          (if o_noVersioning (options_of opts)
           then (if ms = [] then (None, s1) else downToNoVersioning g ms (Version (last ms) - 1) s1)
           else
             (case legacy_GetDBVersion g (lw s1) of
                (Inl e, w) \<Rightarrow> (Some e, s1\<lparr>lw := w\<rparr>)
              | (Inr currentVersion, w) \<Rightarrow>
                  (case Current ms currentVersion of
                     Inl e \<Rightarrow> (Some (Wrap (''migration '' @ FormatInt currentVersion) e), s1\<lparr>lw := w\<rparr>)
                   | Inr current \<Rightarrow> run_in g current False (s1\<lparr>lw := w\<rparr>)))))"

text \<open>The loop of \<open>DownTo\<close>. It has no bound of its own: not returning is the value \<open>None\<close>.\<close>

partial_function (option) downTo_loop ::
    "'d package \<Rightarrow> Migration list \<Rightarrow> version \<Rightarrow> 'd lstate \<Rightarrow> (err option \<times> 'd lstate) option" where
  "downTo_loop g ms version s =
     (case legacy_GetDBVersion g (lw s) of
        (Inl e, w) \<Rightarrow> Some (Some e, s\<lparr>lw := w\<rparr>)
      | (Inr currentVersion, w) \<Rightarrow>
          (if currentVersion = 0 then Some (None, s\<lparr>lw := w\<rparr>)
           else
             (case Current ms currentVersion of
                Inl e \<Rightarrow> Some (Some e, s\<lparr>lw := w\<rparr>)
              | Inr current \<Rightarrow>
                  (if Version current \<le> version then Some (None, s\<lparr>lw := w\<rparr>)
                   else
                     (case run_in g current False (s\<lparr>lw := w\<rparr>) of
                        (Some e, s1) \<Rightarrow> Some (Some e, s1)
                      | (None, s1) \<Rightarrow> downTo_loop g ms version s1)))))"

definition legacy_DownTo ::
    "'d package \<Rightarrow> path \<Rightarrow> version \<Rightarrow> OptionsFunc list \<Rightarrow> 'd lstate \<Rightarrow> (err option \<times> 'd lstate) option" where
  "legacy_DownTo g dir version opts s =
     (case CollectMigrations g dir minVersion maxVersion s of
        (Inl e, s1) \<Rightarrow> Some (Some e, s1)
      | (Inr ms, s1) \<Rightarrow>
          (if o_noVersioning (options_of opts) then Some (downToNoVersioning g ms version s1)
           else downTo_loop g ms version s1))"

section \<open>Redo and reset\<close>

definition redo_current :: "'d package \<Rightarrow> Migration list \<Rightarrow> version \<Rightarrow> bool \<Rightarrow> 'd lstate \<Rightarrow> err option \<times> 'd lstate" where
  "redo_current g ms currentVersion b s =
     (case Current ms currentVersion of
        Inl e \<Rightarrow> (Some e, s)
      | Inr current \<Rightarrow>
          (case set_noVersioning b current s of
             (m, s1) \<Rightarrow>
               (case run_in g m False s1 of
                  (Some e, s2) \<Rightarrow> (Some e, s2)
                | (None, s2) \<Rightarrow> run_in g m True s2)))"

definition legacy_Redo :: "'d package \<Rightarrow> path \<Rightarrow> OptionsFunc list \<Rightarrow> 'd lstate \<Rightarrow> err option \<times> 'd lstate" where
  "legacy_Redo g dir opts s =
     (case CollectMigrations g dir minVersion maxVersion s of
        (Inl e, s1) \<Rightarrow> (Some e, s1)
      | (Inr ms, s1) \<Rightarrow>
          (if o_noVersioning (options_of opts)
           then (if ms = [] then (None, s1) else redo_current g ms (Version (last ms)) True s1)
           else
             (case legacy_GetDBVersion g (lw s1) of
                (Inl e, w) \<Rightarrow> (Some e, s1\<lparr>lw := w\<rparr>)
              | (Inr currentVersion, w) \<Rightarrow> redo_current g ms currentVersion False (s1\<lparr>lw := w\<rparr>))))"

fun status_map :: "ListMigrationsResult list \<Rightarrow> (version \<times> bool) list \<Rightarrow> (version \<times> bool) list" where
  "status_map [] results = results"
| "status_map (m # ms) results =
     (if map_of results (LVersion m) \<noteq> None then status_map ms results
      else status_map ms ((LVersion m, LIsApplied m) # results))"

definition dbMigrationsStatus :: "'d package \<Rightarrow> 'd world \<Rightarrow> (err + (version \<times> bool) list) \<times> 'd world" where
  "dbMigrationsStatus g w =
     (case legacy_ListMigrations g w of
        (Inl e, w1) \<Rightarrow> (Inl e, w1)
      | (Inr dbMigrations, w1) \<Rightarrow> (Inr (status_map dbMigrations []), w1))"

fun reset_each :: "'d package \<Rightarrow> (version \<times> bool) list \<Rightarrow> Migration list \<Rightarrow> 'd lstate \<Rightarrow> err option \<times> 'd lstate" where
  "reset_each g statuses [] s = (None, s)"
| "reset_each g statuses (m # ms) s =
     (if map_of statuses (Version m) \<noteq> Some True then reset_each g statuses ms s
      else
        (case run_in g m False s of
           (Some e, s1) \<Rightarrow> (Some (if panicked e then e else Wrap ''failed to db-down'' e), s1)
         | (None, s1) \<Rightarrow> reset_each g statuses ms s1))"

definition legacy_Reset ::
    "'d package \<Rightarrow> path \<Rightarrow> OptionsFunc list \<Rightarrow> 'd lstate \<Rightarrow> (err option \<times> 'd lstate) option" where
  "legacy_Reset g dir opts s =
     (case CollectMigrations g dir minVersion maxVersion s of
        (Inl e, s1) \<Rightarrow> Some (Some (if panicked e then e else Wrap ''failed to collect migrations'' e), s1)
      | (Inr ms, s1) \<Rightarrow>
          (if o_noVersioning (options_of opts) then legacy_DownTo g dir minVersion opts s1
           else
             (case dbMigrationsStatus g (lw s1) of
                (Inl e, w) \<Rightarrow> Some (Some (Wrap ''failed to get status of migrations'' e), s1\<lparr>lw := w\<rparr>)
              | (Inr statuses, w) \<Rightarrow> Some (reset_each g statuses (rev ms) (s1\<lparr>lw := w\<rparr>)))))"

section \<open>Status and version\<close>

text \<open>A line of the status: the time of application, if any, and the file name.\<close>

definition printMigrationStatus ::
    "'d package \<Rightarrow> version \<Rightarrow> string \<Rightarrow> 'd world \<Rightarrow> (err + (nat option \<times> string)) \<times> 'd world" where
  "printMigrationStatus g version script w =
     (case legacy_GetMigration g version w of
        (Inl e, w1) \<Rightarrow>
          (if \<not> errors_Is e ErrNoRows then (Inl (Wrap ''failed to query the latest migration'' e), w1)
           else (Inr (None, script), w1))
      | (Inr m, w1) \<Rightarrow> (Inr (if IsApplied m then Some (Timestamp m) else None, script), w1))"

fun print_each ::
    "'d package \<Rightarrow> Migration list \<Rightarrow> 'd world \<Rightarrow> (err option \<times> (nat option \<times> string) list) \<times> 'd world" where
  "print_each g [] w = ((None, []), w)"
| "print_each g (m # ms) w =
     (case printMigrationStatus g (Version m) (Base (MSourcePath m)) w of
        (Inl e, w1) \<Rightarrow> ((Some (Wrap ''failed to print status'' e), []), w1)
      | (Inr l, w1) \<Rightarrow> (case print_each g ms w1 of ((r, ls), w2) \<Rightarrow> ((r, l # ls), w2)))"

definition legacy_Status ::
    "'d package \<Rightarrow> path \<Rightarrow> OptionsFunc list \<Rightarrow> 'd lstate \<Rightarrow>
     (err option \<times> (nat option \<times> string) list) \<times> 'd lstate" where
  "legacy_Status g dir opts s =
     (case CollectMigrations g dir minVersion maxVersion s of
        (Inl e, s1) \<Rightarrow> ((Some (if panicked e then e else Wrap ''failed to collect migrations'' e), []), s1)
      | (Inr ms, s1) \<Rightarrow>
          (if o_noVersioning (options_of opts) then ((None, map (\<lambda>m. (None, Base (MSourcePath m))) ms), s1)
           else
             (case EnsureDBVersion g (lw s1) of
                (Inl e, w) \<Rightarrow> ((Some (Wrap ''failed to ensure DB version'' e), []), s1\<lparr>lw := w\<rparr>)
              | (Inr _, w) \<Rightarrow> (case print_each g ms w of (out, w1) \<Rightarrow> (out, s1\<lparr>lw := w1\<rparr>)))))"

definition legacy_Version :: "'d package \<Rightarrow> path \<Rightarrow> OptionsFunc list \<Rightarrow> 'd lstate \<Rightarrow> (err + version) \<times> 'd lstate" where
  "legacy_Version g dir opts s =
     (if o_noVersioning (options_of opts)
      then
        (case CollectMigrations g dir minVersion maxVersion s of
           (Inl e, s1) \<Rightarrow> (Inl (if panicked e then e else Wrap ''failed to collect migrations'' e), s1)
         | (Inr ms, s1) \<Rightarrow> (Inr (if ms = [] then 0 else Version (last ms)), s1))
      else (case legacy_GetDBVersion g (lw s) of (r, w) \<Rightarrow> (r, s\<lparr>lw := w\<rparr>)))"

end
