(* ===== verification/Legacy_Lemmas.thy ===== *)
theory Legacy_Lemmas
  imports Legacy_Ops
begin

text \<open>
  The legacy functions against the provider's: the legacy store gives the same answers as the
  default store up to the wrapping of errors, and a migration run by the legacy functions has the
  effect of \<open>runIndividually\<close>, unless a Go function panics. The effect on the version table then
  follows from the lemmas on the provider.
\<close>

definition agree :: "err option \<times> 'd world \<Rightarrow> err option \<times> 'd world \<Rightarrow> bool" where
  "agree a b \<longleftrightarrow> snd a = snd b \<and> (fst a = None \<longleftrightarrow> fst b = None)"

lemma agree_refl [simp]: "agree a a"
  by (simp add: agree_def)

lemma agree_wrap [simp]: "agree (wrap_err msg a) b \<longleftrightarrow> agree a b" "agree a (wrap_err msg b) \<longleftrightarrow> agree a b"
  by (auto simp: agree_def wrap_err_def split: prod.splits option.splits)

lemma agree_fail_with [simp]: "agree (fail_with msg a) b \<longleftrightarrow> agree a b"
  by (auto simp: agree_def fail_with_def split: prod.splits option.splits)

section \<open>The stores\<close>

definition store_of :: "'d package \<Rightarrow> 'd store_ops" where
  "store_of g = default_store (g_engine g) (g_table g) (g_querier g)"

lemma legacy_store_agrees:
  "agree (legacy_CreateVersionTable g w) (CreateVersionTable (store_of g) HTx w)"
  "agree (legacy_InsertVersion g v w) (Insert (store_of g) HTx v w)"
  "agree (legacy_InsertVersionNoTx g v w) (Insert (store_of g) HDB v w)"
  "agree (legacy_DeleteVersion g v w) (Delete (store_of g) HTx v w)"
  "agree (legacy_DeleteVersionNoTx g v w) (Delete (store_of g) HDB v w)"
  by (simp_all add: store_of_def default_store_def store_CreateVersionTable_def store_Insert_def store_Delete_def
      legacy_CreateVersionTable_def legacy_InsertVersion_def legacy_InsertVersionNoTx_def
      legacy_DeleteVersion_def legacy_DeleteVersionNoTx_def TableName_def)

lemma legacy_scan_list_agrees: "legacy_scan_list rows = Inr ms \<longleftrightarrow> scan_list rows = Inr ms"
  by (induction rows arbitrary: ms) (auto split: list.splits sum.splits, blast)

lemma legacy_list_agrees:
  "legacy_ListMigrations g w = (r, w') \<Longrightarrow>
     \<exists>r'. ListMigrations (store_of g) HDB w = (r', w') \<and> (\<forall>rows. r = Inr rows \<longleftrightarrow> r' = Inr rows)"
  using legacy_scan_list_agrees
  by (auto simp: legacy_ListMigrations_def store_of_def default_store_def store_ListMigrations_def TableName_def
      split: prod.splits sum.splits option.splits)

lemma insertOrDelete_agrees:
  "agree (insertOrDeleteVersion g v dir w) ((if dir then Insert (store_of g) HTx v else Delete (store_of g) HTx v) w)"
  "agree (insertOrDeleteVersionNoTx g v dir w) ((if dir then Insert (store_of g) HDB v else Delete (store_of g) HDB v) w)"
  using legacy_store_agrees [of g] by (auto simp: insertOrDeleteVersion_def insertOrDeleteVersionNoTx_def)

section \<open>Transactions\<close>

text \<open>The shape of the legacy transactions: the error of a rollback is dropped.\<close>

definition in_tx :: "('d world \<Rightarrow> err option \<times> 'd world) \<Rightarrow> 'd world \<Rightarrow> err option \<times> 'd world" where
  "in_tx fn w =
     (case BeginTx w of
        (Some e, w1) \<Rightarrow> (Some e, w1)
      | (None, w1) \<Rightarrow> (case fn w1 of (Some e, w2) \<Rightarrow> (Some e, snd (Rollback w2)) | (None, w2) \<Rightarrow> Commit w2))"

lemma Commit_done: "Commit w = (Some e, w1) \<Longrightarrow> snd (Rollback w1) = w1"
  by (auto simp: Commit_def Rollback_def split: option.splits prod.splits fault.splits)

lemma in_tx_agrees:
  assumes "append_laws (p_ext (p_host p))" and "\<And>w. agree (fn w) (fn' w)"
  shows "agree (in_tx fn w) (beginTx p fn' w)"
proof (cases "BeginTx w")
  case (Pair rb w1)
  show ?thesis
  proof (cases rb)
    case (Some e)
    with Pair show ?thesis by (simp add: in_tx_def beginTx_def)
  next
    case None
    obtain r2 w2 r2' where f: "fn w1 = (r2, w2)" "fn' w1 = (r2', w2)" "(r2 = None) = (r2' = None)"
      using assms(2) [of w1] by (cases "fn w1"; cases "fn' w1") (auto simp: agree_def)
    obtain rc wc where c: "Commit w2 = (rc, wc)" by fastforce
    from Pair None f c append_laws_Some [OF assms(1)] Commit_done [of w2] show ?thesis
      by (cases r2; cases r2'; cases rc)
        (auto simp: in_tx_def beginTx_def agree_def Let_def case_prod_beta)
  qed
qed

text \<open>The statements and the version row, as the provider runs them.\<close>

definition sql_and_record ::
    "'d package \<Rightarrow> handle \<Rightarrow> string list \<Rightarrow> version \<Rightarrow> bool \<Rightarrow> bool \<Rightarrow> 'd world \<Rightarrow> err option \<times> 'd world" where
  "sql_and_record g h stmts v dir noVersions w =
     (case exec_statements (g_engine g) h stmts w of
        (Some e, w1) \<Rightarrow> (Some e, w1)
      | (None, w1) \<Rightarrow>
          (if noVersions then (None, w1)
           else if dir then Insert (store_of g) h v w1 else Delete (store_of g) h v w1))"

lemma agreeE:
  assumes "agree a (r, w)"
  obtains r' where "a = (r', w)" "(r' = None) = (r = None)"
  using assms by (cases a) (auto simp: agree_def)

lemma exec_queries_agrees: "agree (exec_queries eng h stmts w) (exec_statements eng h stmts w)"
  by (induction stmts arbitrary: w) (auto simp: agree_def split: prod.splits option.splits)

lemma runSQLMigration_tx: "agree (runSQLMigration g stmts True v dir nv w) (in_tx (sql_and_record g HTx stmts v dir nv) w)"
proof (cases "BeginTx w")
  case (Pair rb w1)
  obtain r2 w2 where x: "exec_statements (g_engine g) HTx stmts w1 = (r2, w2)" by fastforce
  obtain r2' where x': "exec_queries (g_engine g) HTx stmts w1 = (r2', w2)" "(r2' = None) = (r2 = None)"
    using exec_queries_agrees [of "g_engine g" HTx stmts w1] x by (auto elim: agreeE)
  obtain ri wi where i: "Insert (store_of g) HTx v w2 = (ri, wi)" by fastforce
  obtain ri' where i': "legacy_InsertVersion g v w2 = (ri', wi)" "(ri' = None) = (ri = None)"
    using legacy_store_agrees(2) [of g v w2] i by (auto elim: agreeE)
  obtain rd wd where d: "Delete (store_of g) HTx v w2 = (rd, wd)" by fastforce
  obtain rd' where d': "legacy_DeleteVersion g v w2 = (rd', wd)" "(rd' = None) = (rd = None)"
    using legacy_store_agrees(4) [of g v w2] d by (auto elim: agreeE)
  show ?thesis
    using Pair x x' i i' d d'
    by (cases rb; cases r2; cases r2'; cases ri; cases ri'; cases rd; cases rd')
      (auto simp: runSQLMigration_def in_tx_def sql_and_record_def rolled_back_def commit_or_def, simp_all add: agree_def)
qed

lemma runSQLMigration_no_tx: "agree (runSQLMigration g stmts False v dir nv w) (sql_and_record g HDB stmts v dir nv w)"
proof (cases "exec_statements (g_engine g) HDB stmts w")
  case (Pair r2 w2)
  obtain r2' where "exec_queries (g_engine g) HDB stmts w = (r2', w2)" "(r2' = None) = (r2 = None)"
    using exec_queries_agrees [of "g_engine g" HDB stmts w] Pair by (auto elim: agreeE)
  then show ?thesis
    using legacy_store_agrees(3,5) [of g v] Pair
    by (cases r2; cases r2') (auto simp: runSQLMigration_def sql_and_record_def, simp_all add: agree_def)
qed

section \<open>One migration\<close>

text \<open>A provider on the same database and table, for the flag \<open>noVersioning\<close>.\<close>

definition mirrors :: "'d package \<Rightarrow> bool \<Rightarrow> 'd provider \<Rightarrow> bool" where
  "mirrors g nv p \<longleftrightarrow> p_engine (p_host p) = g_engine g \<and> p_store p = store_of g \<and>
     append_laws (p_ext (p_host p)) \<and> \<not> isolateDDL (p_cfg p) \<and> disableVersioning (p_cfg p) = nv"

text \<open>The provider's form of a legacy migration, for one direction.\<close>

definition sql_form :: "'d package \<Rightarrow> Migration \<Rightarrow> bool \<Rightarrow> Migration \<Rightarrow> bool" where
  "sql_form g m dir m' \<longleftrightarrow> Ext (MSourcePath m) = ''.sql'' \<and> Type m' = TypeSQL \<and> Parsed (sql m') \<and>
     (\<exists>f. fs_Open (b_files (g_fs g)) (MSourcePath m) = Inr f \<and>
        ParseSQLMigration (g_ext g) (f_reader f) (FromBool dir) =
          Inr (if dir then SqlUp (sql m') else SqlDown (sql m'), SqlUseTx (sql m')))"

definition go_form :: "Migration \<Rightarrow> bool \<Rightarrow> Migration \<Rightarrow> bool" where
  "go_form m dir m' \<longleftrightarrow> Ext (MSourcePath m) = ''.go'' \<and> Registered m \<and> Type m' = TypeGo \<and>
     Mode (goUp m') \<noteq> ModeUnset \<and> Mode (goDown m') \<noteq> ModeUnset \<and>
     (Mode (if dir then goUp m' else goDown m') = TransactionEnabled \<longleftrightarrow> UseTx m) \<and>
     RunTx (if dir then goUp m' else goDown m') = (if dir then UpFnContext m else DownFnContext m) \<and>
     RunDB (if dir then goUp m' else goDown m') = (if dir then UpFnNoTxContext m else DownFnNoTxContext m)"

definition provider_form :: "'d package \<Rightarrow> Migration \<Rightarrow> bool \<Rightarrow> Migration \<Rightarrow> bool" where
  "provider_form g m dir m' \<longleftrightarrow> Version m' = Version m \<and> (sql_form g m dir m' \<or> go_form m dir m')"

definition never_panics :: "'d engine \<Rightarrow> bool" where
  "never_panics eng \<longleftrightarrow> (\<forall>f d. \<exists>r d'. e_go eng f d = (Returns r, d') \<and> (\<forall>e. r = Some e \<longrightarrow> \<not> panicked e))"

lemma call_conn: "call HDB f w = call HConn f w"
  by (simp add: call_def usable_def cur_def put_def split: prod.splits fault.splits)

lemma exec_conn: "exec_statements eng HDB stmts w = exec_statements eng HConn stmts w"
  by (induction stmts arbitrary: w) (simp_all add: ExecContext_def call_conn split: prod.splits option.splits)

lemma store_conn:
  "Insert (store_of g) HDB v w = Insert (store_of g) HConn v w" "Delete (store_of g) HDB v w = Delete (store_of g) HConn v w"
  by (simp_all add: store_of_def default_store_def store_Insert_def store_Delete_def ExecContext_def call_conn)

lemma run_and_record_sql:
  assumes "mirrors g nv p" and "Type m' = TypeSQL" and "Parsed (sql m')"
  shows "run_and_record p h m' dir w =
     sql_and_record g h (if dir then SqlUp (sql m') else SqlDown (sql m')) (Version m') dir nv w"
  using assms
  by (auto simp: mirrors_def run_and_record_def sql_and_record_def runMigration_def runSQL_def maybeInsertOrDelete_def
      split: prod.splits option.splits)

lemma sql_run_agrees:
  assumes "mirrors g (noVersioning m) p" and "Version m' = Version m" and "sql_form g m dir m'"
  shows "agree (Migration_run g m dir w) (runIndividually p m' dir w)"
proof -
  let ?st = "if dir then SqlUp (sql m') else SqlDown (sql m')"
  have t: "Type m' = TypeSQL" "Parsed (sql m')" using assms(3) by (auto simp: sql_form_def)
  have rr: "run_and_record p h m' dir = sql_and_record g h ?st (Version m) dir (noVersioning m)" for h
    using run_and_record_sql [OF assms(1) t] assms(2) by auto
  have mr: "agree (Migration_run g m dir w) b \<longleftrightarrow>
      agree (runSQLMigration g ?st (SqlUseTx (sql m')) (Version m) dir (noVersioning m) w) b" for b
    using assms(3) by (auto simp: sql_form_def Migration_run_def)
  have ri: "runIndividually p m' dir w =
      (if SqlUseTx (sql m') then beginTx p (run_and_record p HTx m' dir) w else run_and_record p HConn m' dir w)"
    using assms(1) t by (simp add: mirrors_def runIndividually_def useTx_def)
  show ?thesis
  proof (cases "SqlUseTx (sql m')")
    case True
    have "agree (in_tx (sql_and_record g HTx ?st (Version m) dir (noVersioning m)) w) (runIndividually p m' dir w)"
      using assms(1) True unfolding ri rr by (simp add: mirrors_def in_tx_agrees)
    with runSQLMigration_tx [of g ?st "Version m" dir "noVersioning m" w] True show ?thesis
      unfolding mr by (auto simp: agree_def)
  next
    case False
    have "sql_and_record g HDB ?st (Version m) dir (noVersioning m) w =
        sql_and_record g HConn ?st (Version m) dir (noVersioning m) w"
      by (simp add: sql_and_record_def exec_conn store_conn split: prod.splits option.splits)
    with runSQLMigration_no_tx [of g ?st "Version m" dir "noVersioning m" w] False show ?thesis
      unfolding mr ri rr by simp
  qed
qed


definition go_and_record ::
    "'d package \<Rightarrow> handle \<Rightarrow> gofn option \<Rightarrow> version \<Rightarrow> bool \<Rightarrow> 'd world \<Rightarrow> err option \<times> 'd world" where
  "go_and_record g h fn v dir w =
     (case (case fn of None \<Rightarrow> (None, w) | Some f \<Rightarrow> call_fn g h f w) of
        (Some e, w1) \<Rightarrow> (Some e, w1)
      | (None, w1) \<Rightarrow> if dir then Insert (store_of g) h v w1 else Delete (store_of g) h v w1)"

lemma never_panics_cases:
  assumes "never_panics (g_engine g)"
  obtains r d where "e_go (g_engine g) f (cur h w) = (Returns r, d)" "call_fn g h f w = (r, put h d w)"
    "\<forall>e. r = Some e \<longrightarrow> \<not> panicked e"
proof -
  obtain r d where "e_go (g_engine g) f (cur h w) = (Returns r, d)" "\<forall>e. r = Some e \<longrightarrow> \<not> panicked e"
    using assms by (auto simp: never_panics_def) metis
  then show ?thesis using that by (simp add: call_fn_def)
qed

lemma call_fn_no_panic: "never_panics (g_engine g) \<Longrightarrow> call_fn g h f w = (Some e, w1) \<Longrightarrow> \<not> panicked e"
  by (erule never_panics_cases [of g f h w]) simp

lemma call_fn_agrees:
  assumes "never_panics (g_engine g)" and "p_engine (p_host p) = g_engine g"
  shows "call_go p h (Some f) w = call_fn g h f w"
  by (rule never_panics_cases [OF assms(1), of f h w]) (simp add: call_go_def assms(2))

lemma runGoMigration_tx:
  assumes "never_panics (g_engine g)"
  shows "agree (runGoMigration g fn v dir True w) (in_tx (go_and_record g HTx fn v dir) w)"
proof (cases "BeginTx w")
  case (Pair rb w1)
  obtain r2 w2 where x: "(case fn of None \<Rightarrow> (None, w1) | Some f \<Rightarrow> call_fn g HTx f w1) = (r2, w2)" by fastforce
  have np: "\<not> panicked e" if "r2 = Some e" for e
    using x that by (cases fn) (auto dest: call_fn_no_panic [OF assms])
  obtain ri wi where i: "(if dir then Insert (store_of g) HTx v else Delete (store_of g) HTx v) w2 = (ri, wi)" by fastforce
  obtain ri' where i': "insertOrDeleteVersion g v dir w2 = (ri', wi)" "(ri' = None) = (ri = None)"
    using insertOrDelete_agrees(1) [of g v dir w2] i by (auto elim: agreeE)
  show ?thesis
    using Pair x i i' np
    by (cases rb; cases r2; cases ri; cases ri'; cases dir)
      (auto simp: runGoMigration_def in_tx_def go_and_record_def rolled_back_def commit_or_def, simp_all add: agree_def)
qed

lemma runGoMigration_no_tx: "agree (runGoMigrationNoTx g fn v dir True w) (go_and_record g HDB fn v dir w)"
  using insertOrDelete_agrees(2) [of g v dir]
  by (auto simp: runGoMigrationNoTx_def go_and_record_def split: prod.splits option.splits) (simp_all add: agree_def)

lemma run_and_record_go:
  assumes "mirrors g False p" and "never_panics (g_engine g)" and "Type m' = TypeGo" and "h \<noteq> HConn"
  shows "run_and_record p h m' dir w =
     go_and_record g h (if h = HTx then RunTx (if dir then goUp m' else goDown m') else RunDB (if dir then goUp m' else goDown m'))
       (Version m') dir w"
proof -
  have "call_go p h fn w = (case fn of None \<Rightarrow> (None, w) | Some f \<Rightarrow> call_fn g h f w)" for fn
    using call_fn_agrees [OF assms(2)] assms(1) by (auto simp: mirrors_def call_go_def split: option.splits)
  then show ?thesis
    using assms
    by (cases h) (auto simp: mirrors_def run_and_record_def go_and_record_def runMigration_def runGo_def
        maybeInsertOrDelete_def split: prod.splits option.splits)
qed

lemma go_run_agrees:
  assumes "mirrors g False p" and "Version m' = Version m" and "go_form m dir m'"
    and "never_panics (g_engine g)" and "\<not> noVersioning m"
  shows "agree (Migration_run g m dir w) (runIndividually p m' dir w)"
proof -
  let ?tx = "if dir then UpFnContext m else DownFnContext m" and ?db = "if dir then UpFnNoTxContext m else DownFnNoTxContext m"
  have t: "Type m' = TypeGo" using assms(3) by (auto simp: go_form_def)
  have rr: "run_and_record p HTx m' dir = go_and_record g HTx ?tx (Version m) dir"
    "run_and_record p HDB m' dir = go_and_record g HDB ?db (Version m) dir"
    using run_and_record_go [OF assms(1,4) t] assms(2,3) by (auto simp: go_form_def)
  have ri: "runIndividually p m' dir w =
      (if UseTx m then beginTx p (run_and_record p HTx m' dir) w else run_and_record p HDB m' dir w)"
    using assms(1,3) by (cases dir) (auto simp: mirrors_def go_form_def runIndividually_def useTx_def)
  have mr: "agree (Migration_run g m dir w) b \<longleftrightarrow>
      agree (if UseTx m then runGoMigration g ?tx (Version m) dir True w else runGoMigrationNoTx g ?db (Version m) dir True w) b" for b
    using assms(3,5) by (auto simp: go_form_def Migration_run_def)
  show ?thesis
  proof (cases "UseTx m")
    case True
    have "agree (in_tx (go_and_record g HTx ?tx (Version m) dir) w) (runIndividually p m' dir w)"
      using assms(1) True unfolding ri rr by (simp add: mirrors_def in_tx_agrees)
    with runGoMigration_tx [OF assms(4), of ?tx "Version m" dir w] True show ?thesis
      unfolding mr by (auto simp: agree_def)
  next
    case False
    with runGoMigration_no_tx [of g ?db "Version m" dir w] show ?thesis unfolding mr ri rr by simp
  qed
qed


section \<open>The effect on the version table\<close>

definition mirror :: "'d package \<Rightarrow> 'd provider" where
  "mirror g = \<lparr>p_host = \<lparr>p_engine = g_engine g, p_ext = g_ext g, p_retry = attempts 3, p_maxOpen = 0\<rparr>,
     p_store = store_of g, p_fsys = b_files (g_fs g), p_cfg = zero_config\<rparr>"

lemma mirror_mirrors: "append_laws (g_ext g) \<Longrightarrow> mirrors g False (mirror g)"
  by (simp add: mirrors_def mirror_def zero_config_def)

lemma run_agrees:
  assumes "mirrors g False p" and "provider_form g m dir m'" and "never_panics (g_engine g)" and "\<not> noVersioning m"
  shows "agree (Migration_run g m dir w) (runIndividually p m' dir w)"
  using assms sql_run_agrees [of g m p m' dir w] go_run_agrees [of g p m' m dir w] by (auto simp: provider_form_def)

lemma run_form:
  assumes "Ext (MSourcePath m) \<in> {''.sql'', ''.go''}"
  shows "(\<exists>m'. provider_form g m dir m') \<or> (\<exists>e. Migration_run g m dir w = (Some e, w))"
proof (cases "Ext (MSourcePath m) = ''.sql''")
  case True
  show ?thesis
  proof (cases "\<exists>f stmts tx. fs_Open (b_files (g_fs g)) (MSourcePath m) = Inr f \<and>
      ParseSQLMigration (g_ext g) (f_reader f) (FromBool dir) = Inr (stmts, tx)")
    case yes: True
    then obtain f stmts tx where f: "fs_Open (b_files (g_fs g)) (MSourcePath m) = Inr f"
      "ParseSQLMigration (g_ext g) (f_reader f) (FromBool dir) = Inr (stmts, tx)" by blast
    let ?m = "m\<lparr>Type := TypeSQL, sql := \<lparr>Parsed = True, SqlUseTx = tx, SqlUp = stmts, SqlDown = stmts\<rparr>\<rparr>"
    have "provider_form g m dir ?m" using True f by (simp add: provider_form_def sql_form_def)
    then show ?thesis by blast
  next
    case False
    with True show ?thesis
      by (auto simp: Migration_run_def split: sum.splits)
  qed
next
  case False
  let ?mode = "if UseTx m then TransactionEnabled else TransactionDisabled"
  let ?m = "m\<lparr>Type := TypeGo, goUp := \<lparr>RunTx = UpFnContext m, RunDB = UpFnNoTxContext m, Mode = ?mode\<rparr>,
      goDown := \<lparr>RunTx = DownFnContext m, RunDB = DownFnNoTxContext m, Mode = ?mode\<rparr>\<rparr>"
  have ext: "Ext (MSourcePath m) = ''.go''" using assms False by simp
  show ?thesis
  proof (cases "Registered m")
    case True
    with ext have "provider_form g m dir ?m" by (simp add: provider_form_def go_form_def)
    then show ?thesis by blast
  next
    case unreg: False
    with ext show ?thesis by (simp add: Migration_run_def)
  qed
qed

definition spares_legacy :: "('d \<Rightarrow> version list option) \<Rightarrow> 'd package \<Rightarrow> Migration \<Rightarrow> bool \<Rightarrow> bool" where
  "spares_legacy view g m dir \<longleftrightarrow> (\<forall>m'. provider_form g m dir m' \<longrightarrow> spares_versions view (mirror g) m' dir)"

text \<open>What is assumed of a migration of the list: a file of either kind that records its version.\<close>

definition regular :: "('d \<Rightarrow> version list option) \<Rightarrow> 'd package \<Rightarrow> Migration \<Rightarrow> bool \<Rightarrow> bool" where
  "regular view g m dir \<longleftrightarrow> Ext (MSourcePath m) \<in> {''.sql'', ''.go''} \<and> \<not> noVersioning m \<and> spares_legacy view g m dir"

text \<open>And of the package.\<close>

definition package_ok :: "('d \<Rightarrow> version list option) \<Rightarrow> (version \<Rightarrow> version list \<Rightarrow> version list \<Rightarrow> bool) \<Rightarrow> 'd package \<Rightarrow> bool" where
  "package_ok view added g \<longleftrightarrow> version_store (store_of g) view added \<and> append_laws (g_ext g) \<and> never_panics (g_engine g) \<and>
     (\<forall>w rows w'. legacy_ListMigrations g w = (Inr rows, w') \<longrightarrow> (\<forall>r\<in>set rows. LIsApplied r))"

lemma package_okD:
  assumes "package_ok view added g"
  shows "version_store (store_of g) view added" "append_laws (g_ext g)" "never_panics (g_engine g)"
    "legacy_ListMigrations g w = (Inr rows, w') \<Longrightarrow> r \<in> set rows \<Longrightarrow> LIsApplied r"
  using assms unfolding package_ok_def by blast+

text \<open>A server that gives the statements their meaning is enough.\<close>

lemma package_ok_engine:
  assumes "sql_engine (g_engine g) (g_table g) (g_querier g) view added" and "append_laws (g_ext g)"
    and "never_panics (g_engine g)"
  shows "package_ok view added g"
proof -
  have "LIsApplied r" if l: "legacy_ListMigrations g w = (Inr rows, w')" and r: "r \<in> set rows" for w rows w' r
  proof -
    obtain rs it where q: "e_query (g_engine g) (Q_ListMigrations (g_querier g) (g_table g)) [] (committed w) = Inr (rs, it)"
      and rs: "scan_list rs = Inr rows"
      using l legacy_scan_list_agrees
      by (auto simp: legacy_ListMigrations_def TableName_def split: prod.splits sum.splits option.splits
          dest!: QueryContext_ok)
    obtain vs where "rs = map (\<lambda>v. [IntCell v, BoolCell True]) vs"
      using sql_engine.query_list [OF assms(1), of "committed w"] q by (auto split: option.splits)
    with rs r sql_engine.scan_list_versions [OF assms(1)] show ?thesis by auto
  qed
  then show ?thesis
    using assms sql_engine.default_store_version_store [OF assms(1)] by (auto simp: package_ok_def store_of_def)
qed

lemma run_moves:
  assumes "package_ok view added g" and "regular view g m dir" and "txn w = None" and "view (committed w) = Some vs"
    and "Migration_run g m dir w = (r, w')"
  shows "calm w w' \<and> (\<exists>vs'. view (committed w') = Some vs' \<and>
     (moved added dir [Version m] vs vs' \<or> r \<noteq> None \<and> vs' = vs))"
proof (cases "\<exists>m'. provider_form g m dir m'")
  case True
  then obtain m' where m': "provider_form g m dir m'" by blast
  have vs: "version_store (store_of g) view added" and al: "append_laws (g_ext g)" and np: "never_panics (g_engine g)"
    using package_okD [OF assms(1)] by auto
  have nv: "\<not> noVersioning m" and sp: "spares_versions view (mirror g) m' dir"
    using assms(2) m' by (auto simp: regular_def spares_legacy_def)
  obtain r' where r': "runIndividually (mirror g) m' dir w = (r', w')" "(r' = None) = (r = None)"
    using run_agrees [OF mirror_mirrors [OF al] m' np nv, of w] assms(5)
    by (cases "runIndividually (mirror g) m' dir w") (auto simp: agree_def)
  have p: "p_store (mirror g) = store_of g" "\<not> disableVersioning (p_cfg (mirror g))" "append_laws (p_ext (p_host (mirror g)))"
    using al by (auto simp: mirror_def zero_config_def)
  have "Version m' = Version m" using m' by (simp add: provider_form_def)
  with version_store.runIndividually_moves [OF vs p sp assms(3,4) r'(1)] r'(2) show ?thesis by auto
next
  case False
  then have "Migration_run g m dir w = (r, w) \<and> r \<noteq> None"
    using run_form [of m g dir w] assms(2,5) by (auto simp: regular_def)
  with assms(3-5) show ?thesis by (simp add: calm_refl)
qed


end
