(* ===== verification/Legacy_Up.thy ===== *)
theory Legacy_Up
  imports Legacy_Lemmas
begin

text \<open>
  The legacy version of the database and \<open>Up\<close>: the version table is created when it cannot be
  listed, the migrations selected are those the provider selects, and a successful \<open>Up\<close> records
  exactly what it found.
\<close>

section \<open>The version of the database\<close>

lemma createVersionTable_agrees:
  assumes "append_laws (g_ext g)"
  shows "agree (createVersionTable g w) (beginTx (mirror g) (create_in_tx (mirror g)) w)"
proof -
  let ?fn = "\<lambda>w. case legacy_CreateVersionTable g w of (Some e, w2) \<Rightarrow> (Some e, w2) | (None, w2) \<Rightarrow> legacy_InsertVersion g 0 w2"
  have "agree (?fn w1) (create_in_tx (mirror g) w1)" for w1
  proof -
    obtain r2 w2 r2' where c: "legacy_CreateVersionTable g w1 = (r2, w2)" "CreateVersionTable (store_of g) HTx w1 = (r2', w2)"
      "(r2 = None) = (r2' = None)"
      using legacy_store_agrees(1) [of g w1]
      by (cases "legacy_CreateVersionTable g w1"; cases "CreateVersionTable (store_of g) HTx w1") (auto simp: agree_def)
    with legacy_store_agrees(2) [of g 0 w2] show ?thesis
      by (cases r2; cases r2') (auto simp: create_in_tx_def mirror_def agree_def)
  qed
  then have "agree (in_tx ?fn w) (beginTx (mirror g) (create_in_tx (mirror g)) w)"
    by (intro in_tx_agrees) (use assms in \<open>auto simp: mirror_def\<close>)
  moreover have "createVersionTable g w = in_tx ?fn w"
    by (auto simp: createVersionTable_def in_tx_def split: prod.splits option.splits)
  ultimately show ?thesis by simp
qed

lemma createVersionTable_grows:
  assumes "package_ok view added g" and "txn w = None" and "createVersionTable g w = (r, w')"
  shows "calm w w' \<and> grows (view (committed w)) (view (committed w')) \<and> (r = None \<longrightarrow> view (committed w') \<noteq> None) \<and>
     (zero_ok (view (committed w)) \<longrightarrow> zero_ok (view (committed w')))"
proof -
  have p: "p_store (mirror g) = store_of g" "append_laws (p_ext (p_host (mirror g)))" "\<not> isolateDDL (p_cfg (mirror g))"
    using package_okD(2) [OF assms(1)] by (auto simp: mirror_def zero_config_def)
  obtain r1 where "beginTx (mirror g) (create_in_tx (mirror g)) w = (r1, w')" "(r = None) = (r1 = None)"
    using createVersionTable_agrees [OF package_okD(2) [OF assms(1)], of w] assms(3)
    by (cases "beginTx (mirror g) (create_in_tx (mirror g)) w") (auto simp: agree_def)
  then have "\<exists>a. create_version_table (mirror g) w = (a, w') \<and> (r = None \<longrightarrow> a = Ended)"
    using p(3) by (auto simp: create_version_table_def split: option.splits)
  with version_store.create_version_table_grows [OF package_okD(1) [OF assms(1)] p(1,2) assms(2)] p(3) show ?thesis
    by metis
qed

lemma newest_applied_hd:
  "\<forall>r\<in>set rows. LIsApplied r \<Longrightarrow>
     newest_applied [] rows = (case rows of [] \<Rightarrow> Inl (Sent ErrNoNextVersion) | r # _ \<Rightarrow> Inr (LVersion r))"
  by (cases rows) auto

lemma list_view:
  assumes "package_ok view added g" and "legacy_ListMigrations g w = (r, w')"
  shows "frame HDB w w' \<and> committed w' = committed w \<and> (\<forall>rows. r = Inr rows \<longrightarrow> view (committed w) = Some (map LVersion rows))"
proof -
  obtain r' where "ListMigrations (store_of g) HDB w = (r', w')" "\<forall>rows. r = Inr rows \<longleftrightarrow> r' = Inr rows"
    using legacy_list_agrees [OF assms(2)] by blast
  with version_store.list_frame [OF package_okD(1) [OF assms(1)]] version_store.list_ok [OF package_okD(1) [OF assms(1)]]
  show ?thesis by (metis cur_committed(2))
qed

lemma EnsureDBVersion_result:
  assumes "package_ok view added g" and "txn w = None" and "EnsureDBVersion g w = (r, w')"
  shows "calm w w' \<and> grows (view (committed w)) (view (committed w')) \<and>
     (zero_ok (view (committed w)) \<longrightarrow> zero_ok (view (committed w'))) \<and>
     (\<forall>v. r = Inr v \<longrightarrow> (\<exists>vs. view (committed w) = Some (v # vs) \<and> committed w' = committed w) \<or>
        v = 0 \<and> view (committed w') \<noteq> None)"
proof -
  obtain l w1 where l: "legacy_ListMigrations g w = (l, w1)" by fastforce
  note lv = list_view [OF assms(1) l]
  have c1: "calm w w1" "txn w1 = None" using lv frame_calm [of HDB w w1] assms(2) by (auto simp: calm_def)
  show ?thesis
  proof (cases l)
    case (Inl e)
    obtain rc w2 where c: "createVersionTable g w1 = (rc, w2)" by fastforce
    with Inl l assms(3) have "w' = w2" "\<forall>v. r = Inr v \<longrightarrow> rc = None \<and> v = 0"
      by (auto simp: EnsureDBVersion_def split: option.splits)
    with createVersionTable_grows [OF assms(1) c1(2) c] lv c1(1) calm_trans show ?thesis by auto
  next
    case (Inr rows)
    have "newest_applied [] rows = (case rows of [] \<Rightarrow> Inl (Sent ErrNoNextVersion) | r # _ \<Rightarrow> Inr (LVersion r))"
      using package_okD(4) [OF assms(1) l [unfolded Inr]] by (blast intro: newest_applied_hd)
    with Inr l assms(3) lv c1 show ?thesis by (auto simp: EnsureDBVersion_def split: list.splits)
  qed
qed

section \<open>The selection\<close>

lemma sorted_last_max: "sorted xs \<Longrightarrow> xs \<noteq> [] \<Longrightarrow> last xs = Max (set (xs :: version list))"
proof (rule Max_eqI [symmetric])
  fix y assume "sorted xs" "xs \<noteq> []" "y \<in> set xs"
  then show "y \<le> last xs" by (auto simp: in_set_conv_nth last_conv_nth intro!: sorted_nth_mono)
qed simp_all

lemma dbMaxVersion_Max: "vs \<noteq> [] \<Longrightarrow> \<forall>v\<in>set vs. 0 \<le> v \<Longrightarrow> dbMaxVersion_loop 0 vs = Max (set vs)"
proof -
  assume a: "vs \<noteq> []" "\<forall>v\<in>set vs. 0 \<le> v"
  have "fold max vs 0 = Max (insert 0 (set vs))" by (simp add: Max.set_eq_fold [symmetric])
  then show ?thesis using a by (simp add: dbMaxVersion_loop_max)
qed

lemma migrationsToApply_UpVersions:
  assumes "dbMigrations \<noteq> []" and "sorted (map Version dbMigrations)" and "\<forall>m\<in>set dbMigrations. 0 \<le> Version m"
    and "sorted (map Version ms)" and "\<forall>m\<in>set ms. Version m \<le> version"
  shows "case migrationsToApply dbMigrations ms version allowed of
       Inl e \<Rightarrow> \<exists>e'. UpVersions (map Version ms) (map Version dbMigrations) version allowed = Inl e'
     | Inr out \<Rightarrow> UpVersions (map Version ms) (map Version dbMigrations) version allowed = Inr (map Version out) \<and>
         set out \<subseteq> set ms"
proof -
  let ?M = "Max (Version ` set dbMigrations)"
  define mis where "mis = filter (\<lambda>m. Version m \<notin> Version ` set dbMigrations \<and> Version m < ?M) ms"
  define new where "new = filter (\<lambda>m. Version m \<notin> Version ` set dbMigrations \<and> Version m > ?M \<and> Version m \<le> version) ms"
  have M: "Version (last dbMigrations) = ?M" "dbMaxVersion_loop 0 (map Version dbMigrations) = ?M"
    using sorted_last_max [OF assms(2)] dbMaxVersion_Max [of "map Version dbMigrations"] assms(1,3) by (auto simp: last_map)
  have leg: "findMissingMigrations dbMigrations ms ?M = mis"
    using assms(4) by (simp add: findMissingMigrations_def mis_def sort_key_id_if_sorted sorted_filter)
  have mv: "filter (\<lambda>v. v \<notin> set (map Version dbMigrations) \<and> v < ?M \<and> v \<le> version) (map Version ms) = map Version mis"
    using assms(5) by (auto simp: mis_def filter_map o_def intro!: arg_cong [of _ _ "map Version"] filter_cong)
  have nv: "filter (\<lambda>v. v \<notin> set (map Version dbMigrations) \<and> v > ?M \<and> v \<le> version) (map Version ms) = map Version new"
    by (simp add: new_def filter_map o_def)
  have "sorted (map Version mis @ map Version new)"
    using assms(4) by (auto simp: sorted_append mis_def new_def sorted_filter)
  then have st: "sort (map Version mis @ map Version new) = map Version (mis @ new)" by (simp add: sorted_sort_id)
  have up: "UpVersions (map Version ms) (map Version dbMigrations) version allowed =
      (if mis \<noteq> [] \<and> \<not> allowed then Inl (newMissingError (map Version mis) ?M version) else Inr (map Version (mis @ new)))"
    unfolding UpVersions_def Let_def M sorted_sort_id [OF assms(4)] mv nv st by simp
  have "migrationsToApply dbMigrations ms version allowed =
      (if mis \<noteq> [] \<and> \<not> allowed then Inl (missing_error mis ?M) else Inr (mis @ new))"
    using assms(1) leg by (auto simp: migrationsToApply_def M Let_def new_def)
  with up show ?thesis by (auto simp: mis_def new_def)
qed

section \<open>Applying\<close>

lemma run_in_cases: "run_in g m dir s = (r, s') \<Longrightarrow> Migration_run g m dir (lw s) = (r, lw s') \<and> lreg s' = lreg s"
  by (auto simp: run_in_def split: prod.splits)

lemma apply_each_moves:
  assumes "package_ok view added g" and "\<forall>m\<in>set ms. regular view g m True" and "txn (lw s) = None"
    and "view (committed (lw s)) = Some vs" and "apply_each g byOne ms s = (r, s')"
  shows "calm (lw s) (lw s') \<and> lreg s' = lreg s \<and> (\<exists>k vs'. view (committed (lw s')) = Some vs' \<and>
     moved added True (map Version (take k ms)) vs vs' \<and>
     (r = None \<longrightarrow> k = (if byOne then min 1 (length ms) else length ms)))"
  using assms(2-5)
proof (induction ms arbitrary: s vs)
  case Nil
  then show ?case by (auto simp: calm_refl intro: exI [of _ 0])
next
  case (Cons m ms)
  obtain r1 s1 where r1: "run_in g m True s = (r1, s1)" by fastforce
  note rc = run_in_cases [OF r1]
  obtain vs1 where c1: "calm (lw s) (lw s1)" and v1: "view (committed (lw s1)) = Some vs1"
    and m1: "moved added True [Version m] vs vs1 \<or> r1 \<noteq> None \<and> vs1 = vs"
    using run_moves [OF assms(1), of m True "lw s" vs r1 "lw s1"] Cons.prems rc by auto
  show ?case
  proof (cases "r1 = None \<and> \<not> byOne")
    case True
    then have ae: "apply_each g byOne ms s1 = (r, s')" using Cons.prems(4) r1 by simp
    have "txn (lw s1) = None" using c1 by (simp add: calm_def)
    from Cons.IH [OF _ this v1 ae] Cons.prems(1) obtain k vs' where c2: "calm (lw s1) (lw s')" "lreg s' = lreg s1"
      and v': "view (committed (lw s')) = Some vs'" "moved added True (map Version (take k ms)) vs1 vs'"
      and k: "r = None \<longrightarrow> k = length ms" using True by auto
    from m1 True have "moved added True [Version m] vs vs1" by simp
    from moved_append [OF this v'(2)] have "moved added True (map Version (take (Suc k) (m # ms))) vs vs'" by simp
    with calm_trans [OF c1 c2(1)] c2(2) rc v'(1) k True show ?thesis
      by (intro conjI exI [of _ "Suc k"] exI [of _ vs']) auto
  next
    case False
    then have "r = r1" "s' = s1" using Cons.prems(4) r1 by (auto split: option.splits)
    show ?thesis
    proof (cases "moved added True [Version m] vs vs1")
      case True
      with \<open>r = r1\<close> \<open>s' = s1\<close> c1 v1 rc False show ?thesis
        by (intro conjI exI [of _ "Suc 0"] exI [of _ vs1]) (auto split: if_splits)
    next
      case unmoved: False
      with m1 \<open>r = r1\<close> \<open>s' = s1\<close> c1 v1 rc show ?thesis by (intro conjI exI [of _ 0] exI [of _ vs1]) auto
    qed
  qed
qed


definition lrecorded :: "('d \<Rightarrow> version list option) \<Rightarrow> 'd lstate \<Rightarrow> version set" where
  "lrecorded view s = (case view (committed (lw s)) of None \<Rightarrow> {} | Some vs \<Rightarrow> set vs)"

definition db_versions :: "ListMigrationsResult list \<Rightarrow> Migration list" where
  "db_versions rows = sort_key Version (map (\<lambda>m. zeroMigration\<lparr>Version := LVersion m\<rparr>) rows)"

lemma db_versions_set: "Version ` set (db_versions rows) = LVersion ` set rows"
  by (simp add: db_versions_def image_image)

lemma apply_selected:
  assumes "package_ok view added g" and "txn (lw s) = None" and "view (committed (lw s)) = Some (map LVersion rows)"
    and "0 \<in> LVersion ` set rows" and "\<forall>r\<in>set rows. 0 \<le> LVersion r" and "sorted (map Version ms)"
    and "\<forall>m\<in>set ms. Version m \<le> version" and "\<forall>m\<in>set ms. regular view g m True"
    and "migrationsToApply (db_versions rows) ms version allowed = Inr todo" and "apply_each g byOne todo s = (r, s')"
  shows "calm (lw s) (lw s') \<and> lreg s' = lreg s \<and> (\<exists>vs. view (committed (lw s')) = Some vs \<and>
     LVersion ` set rows \<subseteq> set vs \<and> set vs \<subseteq> LVersion ` set rows \<union> Version ` set ms \<and>
     (r = None \<and> \<not> byOne \<and> (\<forall>m\<in>set ms. 1 \<le> Version m) \<longrightarrow> Version ` set ms \<subseteq> set vs))"
proof -
  let ?db = "db_versions rows"
  have "?db \<noteq> []" using assms(4) db_versions_set [of rows] by auto
  moreover have "\<forall>m\<in>set ?db. 0 \<le> Version m" using assms(5) by (auto simp: db_versions_def)
  moreover have "sorted (map Version ?db)" by (simp add: db_versions_def)
  ultimately have up: "UpVersions (map Version ms) (map Version ?db) version allowed = Inr (map Version todo)"
    and sub: "set todo \<subseteq> set ms"
    using migrationsToApply_UpVersions [of ?db ms version allowed] assms(6,7,9) by auto
  have reg: "\<forall>m\<in>set todo. regular view g m True" using sub assms(8) by auto
  obtain k vs where a: "calm (lw s) (lw s')" "lreg s' = lreg s" "view (committed (lw s')) = Some vs"
    "moved added True (map Version (take k todo)) (map LVersion rows) vs"
    and k: "r = None \<longrightarrow> k = (if byOne then min 1 (length todo) else length todo)"
    using apply_each_moves [OF assms(1) reg assms(2,3,10)] by metis
  have vs: "set vs = Version ` set (take k todo) \<union> LVersion ` set rows"
    using version_store.moved_up_set [OF package_okD(1) [OF assms(1)] a(4)] by auto
  have all: "Version ` set ms \<subseteq> Version ` set todo \<union> LVersion ` set rows" if "\<forall>m\<in>set ms. 1 \<le> Version m"
  proof -
    have "set (map Version todo) = {u \<in> set (map Version ms). u \<notin> set (map Version ?db) \<and> u \<le> version}"
      using UpVersions_set [OF up] that by auto
    then show ?thesis using assms(7) db_versions_set [of rows] by auto
  qed
  have "Version ` set ms \<subseteq> set vs" if a: "r = None \<and> \<not> byOne \<and> (\<forall>m\<in>set ms. 1 \<le> Version m)"
  proof -
    have "take k todo = todo" using a k by simp
    moreover have "Version ` set ms \<subseteq> Version ` set todo \<union> LVersion ` set rows" using all a by blast
    ultimately show ?thesis by (simp only: vs)
  qed
  moreover have "set vs \<subseteq> LVersion ` set rows \<union> Version ` set ms" using vs sub set_take_subset [of k todo] by auto
  moreover have "LVersion ` set rows \<subseteq> set vs" unfolding vs by (rule Un_upper2)
  ultimately show ?thesis using a(1-3) by (intro conjI exI [of _ vs] impI) auto
qed

text \<open>The states before and after an operation that only adds versions of \<open>ms\<close>, and the zero version.\<close>

definition gained :: "('d \<Rightarrow> version list option) \<Rightarrow> version set \<Rightarrow> 'd lstate \<Rightarrow> 'd lstate \<Rightarrow> bool" where
  "gained view V s s' \<longleftrightarrow> calm (lw s) (lw s') \<and> lreg s' = lreg s \<and> zero_ok (view (committed (lw s'))) \<and>
     lrecorded view s \<subseteq> lrecorded view s' \<and> lrecorded view s' \<subseteq> insert 0 (lrecorded view s) \<union> V"

lemma gained_trans: "gained view V s s1 \<Longrightarrow> gained view V s1 s2 \<Longrightarrow> gained view V s s2"
  unfolding gained_def by (elim conjE) (intro conjI; (erule (1) calm_trans)?; auto)

lemma gained_grows:
  assumes "calm (lw s) w" and "grows (view (committed (lw s))) (view (committed w))" and "zero_ok (view (committed w))"
  shows "gained view V s (s\<lparr>lw := w\<rparr>)"
  using assms by (auto simp: gained_def grows_def lrecorded_def split: option.splits)

lemma gained_read:
  assumes "gained view V s s1" and "frame HDB (lw s1) w" and "committed w = committed (lw s1)"
  shows "gained view V s (s1\<lparr>lw := w\<rparr>)"
proof -
  have "calm (lw s1) w" using assms(1,2) by (auto simp: gained_def calm_def frame_def)
  with assms(1,3) calm_trans show ?thesis unfolding gained_def lrecorded_def by auto
qed

lemma EnsureDBVersion_gained:
  assumes "package_ok view added g" and "txn (lw s) = None" and "zero_ok (view (committed (lw s)))"
    and "EnsureDBVersion g (lw s) = (v, w)"
  shows "gained view V s (s\<lparr>lw := w\<rparr>)"
  using EnsureDBVersion_result [OF assms(1,2,4)] assms(3) by (intro gained_grows) auto

lemma up_versioned_result:
  assumes "package_ok view added g" and "txn (lw s) = None" and "zero_ok (view (committed (lw s)))"
    and "\<forall>v\<in>lrecorded view s. 0 \<le> v" and "sorted (map Version ms)" and "\<forall>m\<in>set ms. Version m \<le> version"
    and "\<forall>m\<in>set ms. regular view g m True" and "up_versioned g ms version option s = (r, s')"
  shows "gained view (Version ` set ms) s s' \<and>
     (r = None \<and> \<not> o_applyUpByOne option \<and> (\<forall>m\<in>set ms. 1 \<le> Version m) \<longrightarrow> Version ` set ms \<subseteq> lrecorded view s')"
proof -
  let ?V = "Version ` set ms"
  obtain v w1 where e: "EnsureDBVersion g (lw s) = (v, w1)" by fastforce
  have g1: "gained view V s (s\<lparr>lw := w1\<rparr>)" for V by (rule EnsureDBVersion_gained [OF assms(1-3) e])
  obtain l w2 where l: "legacy_ListMigrations g w1 = (l, w2)" by fastforce
  note lv = list_view [OF assms(1) l]
  have g2: "gained view V s (s\<lparr>lw := w2\<rparr>)" for V using gained_read [OF g1, of w2] lv by simp
  show ?thesis
  proof (cases "\<exists>x rows todo. v = Inr x \<and> l = Inr rows \<and>
      migrationsToApply (db_versions rows) ms version (o_allowMissing option) = Inr todo")
    case False
    then have "r \<noteq> None \<and> (s' = s\<lparr>lw := w1\<rparr> \<or> s' = s\<lparr>lw := w2\<rparr>)"
      using assms(8) e l by (auto simp: up_versioned_def listAllDBVersions_def db_versions_def split: sum.splits)
    with g1 g2 show ?thesis by auto
  next
    case True
    then obtain x rows todo where v: "v = Inr x" and rows: "l = Inr rows"
      and todo: "migrationsToApply (db_versions rows) ms version (o_allowMissing option) = Inr todo" by blast
    have view: "view (committed w2) = Some (map LVersion rows)" using lv rows by simp
    then have z: "0 \<in> LVersion ` set rows" "\<forall>r\<in>set rows. 0 \<le> LVersion r"
      using g2 [of "{}"] assms(4) by (auto simp: gained_def zero_ok_def lrecorded_def)
    obtain ra s3 where ae: "apply_each g (o_applyUpByOne option) todo (s\<lparr>lw := w2\<rparr>) = (ra, s3)" by fastforce
    have s2: "txn (lw (s\<lparr>lw := w2\<rparr>)) = None" "view (committed (lw (s\<lparr>lw := w2\<rparr>))) = Some (map LVersion rows)"
      using g2 [of "{}"] view by (auto simp: gained_def calm_def)
    note sel = apply_selected [OF assms(1) s2 z assms(5-7) todo ae]
    have "gained view ?V (s\<lparr>lw := w2\<rparr>) s3" using sel z(1) view by (auto simp: gained_def lrecorded_def zero_ok_def)
    with g2 have g3: "gained view ?V s s3" by (rule gained_trans)
    have all: "ra = None \<and> \<not> o_applyUpByOne option \<and> (\<forall>m\<in>set ms. 1 \<le> Version m) \<longrightarrow> ?V \<subseteq> lrecorded view s3"
      using sel by (auto simp: lrecorded_def)
    obtain v4 w4 where e4: "EnsureDBVersion g (lw s3) = (v4, w4)" by fastforce
    have g4: "gained view ?V s3 (s3\<lparr>lw := w4\<rparr>)"
      by (rule EnsureDBVersion_gained [OF assms(1) _ _ e4]) (use g3 in \<open>auto simp: gained_def calm_def\<close>)
    have "(s' = s3 \<or> s' = s3\<lparr>lw := w4\<rparr>) \<and> (r = None \<longrightarrow> ra = None)"
      using assms(8) e l v rows todo ae e4
      by (auto simp: up_versioned_def listAllDBVersions_def db_versions_def legacy_GetDBVersion_def
          split: option.splits if_splits sum.splits)
    with g3 g4 all gained_trans [OF g3 g4] show ?thesis by (auto simp: gained_def)
  qed
qed

lemma CollectMigrations_facts:
  assumes "registry_named (lreg s)" and "CollectMigrations g dir current target s = (Inr ms, s1)"
  shows "lw s1 = lw s" "sorted_wrt (<) (map Version ms)" "ms \<noteq> []" "m \<in> set ms \<Longrightarrow> versionFilter (Version m) current target"
proof -
  have c: "collectMigrationsFS (g_fs g) dir current target (lreg s) = (Inr ms, lreg s1)" and "lw s1 = lw s"
    using assms(2) by (auto simp: CollectMigrations_def split: prod.splits)
  then show "lw s1 = lw s" "sorted_wrt (<) (map Version ms)" "ms \<noteq> []" "m \<in> set ms \<Longrightarrow> versionFilter (Version m) current target"
    using collectMigrationsFS_versions [OF assms(1) c] collect_range [OF assms(1) c] by auto
qed

lemma versionFilter_up: "versionFilter v minVersion target \<Longrightarrow> 0 \<le> target \<Longrightarrow> 1 \<le> v \<and> v \<le> target"
  by (auto simp: versionFilter_def minVersion_def split: if_splits)

section \<open>Properties\<close>

text \<open>
  A successful legacy collection is strictly ascending and not empty, and its versions are those of
  the SQL files and of the Go migrations in the range: the versions of the Go files there, or, when
  there is none, the registered ones.
\<close>

theorem legacy_collect_exact:
  assumes "registry_named reg" and "collectMigrationsFS fsys dir current target reg = (Inr ms, reg')"
  shows "sorted_wrt (<) (map Version ms) \<and> ms \<noteq> [] \<and>
     Version ` set ms = {v. versionFilter v current target \<and>
        (\<exists>f\<in>set (Glob_dir (b_files fsys) dir ''.sql''). NumericComponent f = Inr v)} \<union> go_versions fsys dir reg current target"
  using assms by (rule collectMigrationsFS_versions)

lemma legacy_UpTo_result:
  assumes "package_ok view added g" and "registry_named (lreg s)" and "txn (lw s) = None"
    and "zero_ok (view (committed (lw s)))" and "\<forall>v\<in>lrecorded view s. 0 \<le> v" and "0 \<le> target"
    and "CollectMigrations g dir minVersion target s = (Inr ms, s1)" and "\<forall>m\<in>set ms. regular view g m True"
    and "\<not> o_noVersioning (options_of opts)" and "legacy_UpTo g dir target opts s = (r, s')"
  shows "txn (lw s') = None \<and> conns (lw s') = conns (lw s) \<and> lrecorded view s \<subseteq> lrecorded view s' \<and>
     lrecorded view s' \<subseteq> insert 0 (lrecorded view s) \<union> Version ` set ms \<and>
     (r = None \<and> \<not> o_applyUpByOne (options_of opts) \<longrightarrow> Version ` set ms \<subseteq> lrecorded view s')"
proof -
  note cf = CollectMigrations_facts [OF assms(2,7)]
  have up: "up_versioned g ms target (options_of opts) s1 = (r, s')"
    using assms(7,9,10) by (simp add: legacy_UpTo_def Let_def)
  have rng: "\<forall>m\<in>set ms. Version m \<le> target" "\<forall>m\<in>set ms. 1 \<le> Version m"
    using cf(4) versionFilter_up assms(6) by blast+
  have lr: "lrecorded view s1 = lrecorded view s" by (simp add: lrecorded_def cf(1))
  have st: "sorted (map Version ms)" using cf(2) by (simp add: strict_sorted_iff)
  from up_versioned_result [OF assms(1) _ _ _ st rng(1) assms(8) up] assms(3-5) cf(1) lr
  have "gained view (Version ` set ms) s1 s'" "r = None \<and> \<not> o_applyUpByOne (options_of opts) \<longrightarrow> Version ` set ms \<subseteq> lrecorded view s'"
    using rng(2) by auto
  then show ?thesis using cf(1) lr by (simp add: gained_def calm_def)
qed

text \<open>
  C10: the legacy \<open>UpTo\<close> and \<open>Up\<close>: with an error or without, every recorded version stays recorded and
  nothing is recorded besides versions that were collected (and the zero version), no transaction is
  left open and no index is out of range. Without an error, and without the by-one option, everything
  collected is recorded.
\<close>

theorem legacy_UpTo_records:
  assumes "package_ok view added g" and "registry_named (lreg s)" and "txn (lw s) = None"
    and "zero_ok (view (committed (lw s)))" and "\<forall>v\<in>lrecorded view s. 0 \<le> v" and "0 \<le> target"
    and "CollectMigrations g dir minVersion target s = (Inr ms, s1)" and "\<forall>m\<in>set ms. regular view g m True"
    and "\<not> o_noVersioning (options_of opts)" and "legacy_UpTo g dir target opts s = (r, s')"
  shows "txn (lw s') = None \<and> conns (lw s') = conns (lw s) \<and> lrecorded view s \<subseteq> lrecorded view s' \<and>
     lrecorded view s' \<subseteq> insert 0 (lrecorded view s) \<union> Version ` set ms \<and>
     (r = None \<and> \<not> o_applyUpByOne (options_of opts) \<longrightarrow> Version ` set ms \<subseteq> lrecorded view s')"
  using assms by (rule legacy_UpTo_result)

text \<open>
  C23: the legacy selection of migrations is the provider's, on the lists that \<open>UpTo\<close> makes: the recorded
  versions, in ascending order, not empty (the table has the version 0) and not negative, and the
  migrations collected up to the target, in ascending order. Then it fails exactly when \<open>UpVersions\<close>
  fails, and otherwise selects the same versions in the same order. (On an empty list of recorded
  versions the legacy code panics, which \<open>UpVersions\<close> does not.)
\<close>

theorem legacy_selection_is_UpVersions:
  assumes "dbMigrations \<noteq> []" and "sorted (map Version dbMigrations)" and "\<forall>m\<in>set dbMigrations. 0 \<le> Version m"
    and "sorted (map Version ms)" and "\<forall>m\<in>set ms. Version m \<le> target"
  shows "case migrationsToApply dbMigrations ms target allowed of
       Inl e \<Rightarrow> \<exists>e'. UpVersions (map Version ms) (map Version dbMigrations) target allowed = Inl e'
     | Inr out \<Rightarrow> UpVersions (map Version ms) (map Version dbMigrations) target allowed = Inr (map Version out)"
  using migrationsToApply_UpVersions [OF assms, of allowed] by (auto split: sum.splits)

theorem legacy_selection_is_UpVersions_witness:
  "\<exists>out. migrationsToApply (map (\<lambda>v. zeroMigration\<lparr>Version := v\<rparr>) [0, 2]) (map (\<lambda>v. zeroMigration\<lparr>Version := v\<rparr>) [1, 3]) 5 True =
     Inr out \<and> UpVersions [1, 3] [0, 2] 5 True = Inr (map Version out)"
proof -
  let ?m = "\<lambda>v. zeroMigration\<lparr>Version := v\<rparr>"
  have "\<exists>out. migrationsToApply (map ?m [0, 2]) (map ?m [1, 3]) 5 True = Inr out" by (simp add: migrationsToApply_def)
  then obtain out where out: "migrationsToApply (map ?m [0, 2]) (map ?m [1, 3]) 5 True = Inr out" ..
  have "UpVersions (map Version (map ?m [1, 3])) (map Version (map ?m [0, 2])) 5 True = Inr (map Version out)"
    using legacy_selection_is_UpVersions [of "map ?m [0, 2]" "map ?m [1, 3]" 5 True] out by simp
  with out show ?thesis by auto
qed



end
