(* ===== verification/Legacy_Down.thy ===== *)
theory Legacy_Down
  imports Legacy_Up
begin

text \<open>
  The legacy \<open>Down\<close>, \<open>DownTo\<close>, \<open>Redo\<close> and \<open>Reset\<close>. The loop of \<open>DownTo\<close> ends because every round
  removes the rows of the current version; a migration whose flag \<open>noVersioning\<close> is set does not, and
  nothing resets the flag of a registered migration.
\<close>

section \<open>The loop of DownTo\<close>

lemma Current_ok: "Current ms v = Inr m \<Longrightarrow> m \<in> set ms \<and> Version m = v"
  by (induction ms) (auto split: if_splits)

lemma EnsureDBVersion_healthy:
  assumes "package_ok view added g" and "faults w = []" and "view (committed w) = Some vs" and "EnsureDBVersion g w = (r, w')"
  shows "committed w' = committed w \<and> r = (case vs of [] \<Rightarrow> Inl (Sent ErrNoNextVersion) | v # _ \<Rightarrow> Inr v)"
proof -
  obtain l w1 where l: "legacy_ListMigrations g w = (l, w1)" by fastforce
  obtain l' where l': "ListMigrations (store_of g) HDB w = (l', w1)" "\<forall>rows. l = Inr rows \<longleftrightarrow> l' = Inr rows"
    using legacy_list_agrees [OF l] by blast
  obtain rows where rows: "l = Inr rows"
    using version_store.list_healthy [OF package_okD(1) [OF assms(1)], of HDB w vs] assms(2,3) l' by auto
  have "newest_applied [] rows = (case rows of [] \<Rightarrow> Inl (Sent ErrNoNextVersion) | r # _ \<Rightarrow> Inr (LVersion r))"
    using package_okD(4) [OF assms(1) l [unfolded rows]] by (blast intro: newest_applied_hd)
  with list_view [OF assms(1) l] rows assms(3,4) l show ?thesis
    by (auto simp: EnsureDBVersion_def split: list.splits)
qed

lemma sorted_rev_filter: "sorted (rev vs) \<Longrightarrow> sorted (rev (filter P vs))" for vs :: "version list"
  by (simp add: rev_filter sorted_wrt_filter)

lemma downTo_loop_stop:
  assumes "EnsureDBVersion g (lw s) = (cv, w)"
    and "\<nexists>v m. cv = Inr v \<and> v \<noteq> 0 \<and> Current ms v = Inr m \<and> target < Version m"
  obtains r where "downTo_loop g ms target s = Some (r, s\<lparr>lw := w\<rparr>)"
    "r = None \<Longrightarrow> \<exists>v. cv = Inr v \<and> (v = 0 \<or> v \<le> target)"
  using assms downTo_loop.simps [of g ms target s] Current_ok [of ms]
  by (cases cv) (auto simp: legacy_GetDBVersion_def split: if_splits sum.splits)

lemma downTo_loop_step:
  assumes "EnsureDBVersion g (lw s) = (Inr v, w)" and "v \<noteq> 0" and "Current ms v = Inr m" and "target < Version m"
  shows "downTo_loop g ms target s =
     (case run_in g m False (s\<lparr>lw := w\<rparr>) of
        (Some x, s1) \<Rightarrow> Some (Some x, s1)
      | (None, s1) \<Rightarrow> downTo_loop g ms target s1)"
  using assms by (subst downTo_loop.simps) (simp add: legacy_GetDBVersion_def)

lemma downTo_loop_returns:
  assumes "package_ok view added g" and "\<forall>m\<in>set ms. regular view g m False"
    and "txn (lw s) = None" and "view (committed (lw s)) = Some vs"
  shows "\<exists>r s'. downTo_loop g ms target s = Some (r, s') \<and> calm (lw s) (lw s') \<and> lreg s' = lreg s \<and>
     (r = None \<and> faults (lw s) = [] \<and> sorted (rev vs) \<and> 0 \<le> target \<longrightarrow>
        view (committed (lw s')) = Some (filter (\<lambda>v. v \<le> target) vs))"
  using assms(3,4)
proof (induction "length vs" arbitrary: s vs rule: less_induct)
  case less
  obtain cv w where e: "EnsureDBVersion g (lw s) = (cv, w)" by fastforce
  note er = EnsureDBVersion_result [OF assms(1) less.prems(1) e] EnsureDBVersion_healthy [OF assms(1) _ less.prems(2) e]
  have le: "filter (\<lambda>v. v \<le> target) vs = vs" if "sorted (rev vs)" "vs = v # vs1" "v \<le> target" for v vs1
    using that by (auto simp: sorted_append filter_id_conv)
  show ?case
  proof (cases "\<exists>v m. cv = Inr v \<and> v \<noteq> 0 \<and> Current ms v = Inr m \<and> target < Version m")
    case False
    from downTo_loop_stop [OF e False] obtain r where r: "downTo_loop g ms target s = Some (r, s\<lparr>lw := w\<rparr>)"
      "r = None \<Longrightarrow> \<exists>v. cv = Inr v \<and> (v = 0 \<or> v \<le> target)" by blast
    have "view (committed w) = Some (filter (\<lambda>v. v \<le> target) vs)"
      if h: "r = None" "faults (lw s) = []" "sorted (rev vs)" "0 \<le> target"
    proof -
      obtain v vs1 where "vs = v # vs1" "v \<le> target" using r(2) h er(2) by (auto split: list.splits)
      with le h(3) er(2) h(2) less.prems(2) show ?thesis by auto
    qed
    with r(1) er(1) show ?thesis by auto
  next
    case True
    then obtain v m where m: "cv = Inr v" "v \<noteq> 0" "Current ms v = Inr m" "target < Version m" by blast
    note cur = Current_ok [OF m(3)]
    obtain vs1 where vs1: "vs = v # vs1" "committed w = committed (lw s)" using er m less.prems(2) by auto
    obtain r1 s1 where r1: "run_in g m False (s\<lparr>lw := w\<rparr>) = (r1, s1)" by fastforce
    have t: "txn w = None" "calm (lw s) w" using er by (auto simp: calm_def)
    obtain vs2 where rm: "calm w (lw s1)" "lreg s1 = lreg s" "view (committed (lw s1)) = Some vs2"
      "moved added False [v] vs vs2 \<or> r1 \<noteq> None \<and> vs2 = vs"
      using run_moves [OF assms(1), of m False w vs r1 "lw s1"] assms(2) cur run_in_cases [OF r1] t less.prems(2) vs1(2)
      by auto
    have step: "downTo_loop g ms target s = (case r1 of Some x \<Rightarrow> Some (Some x, s1) | None \<Rightarrow> downTo_loop g ms target s1)"
      using downTo_loop_step [OF e [unfolded m(1)] m(2-4)] r1 by (simp split: option.splits)
    show ?thesis
    proof (cases r1)
      case (Some x)
      with step rm t calm_trans show ?thesis by auto
    next
      case None
      then have v2: "vs2 = filter (\<lambda>x. x \<noteq> v) vs" using rm(4) by (simp add: moved_down)
      then have "length vs2 < length vs" using vs1 by (simp add: less_Suc_eq_le)
      from less.hyps [OF this _ rm(3)] rm(1) obtain r s' where
        ih: "downTo_loop g ms target s1 = Some (r, s')" "calm (lw s1) (lw s')" "lreg s' = lreg s1"
        "r = None \<and> faults (lw s1) = [] \<and> sorted (rev vs2) \<and> 0 \<le> target \<longrightarrow>
           view (committed (lw s')) = Some (filter (\<lambda>v. v \<le> target) vs2)" by (auto simp: calm_def)
      have "filter (\<lambda>v. v \<le> target) vs2 = filter (\<lambda>v. v \<le> target) vs"
        using v2 m(4) cur by (auto intro: filter_cong)
      with ih step None rm calm_trans [OF t(2) calm_trans [OF rm(1) ih(2)]] t(2) v2 sorted_rev_filter show ?thesis
        by (auto simp: calm_def)
    qed
  qed
qed

section \<open>The flag that stays\<close>

lemma store_registered_map_of:
  "map_of (store_registered ms reg) v =
     map_option (\<lambda>m. case find (\<lambda>x. Registered x \<and> Version x = v) ms of Some x \<Rightarrow> x | None \<Rightarrow> m) (map_of reg v)"
  by (induction reg) (auto simp: store_registered_def split: option.splits)

definition marked :: "registry \<Rightarrow> version \<Rightarrow> bool" where
  "marked reg v \<longleftrightarrow> (\<exists>m. map_of reg v = Some m \<and> noVersioning m)"

lemma set_noVersioning_marks:
  assumes "set_noVersioning True m s = (m', s')"
  shows "lw s' = lw s" "m' = m\<lparr>noVersioning := True\<rparr>" "marked (lreg s) v \<Longrightarrow> marked (lreg s') v"
    "Registered m \<Longrightarrow> map_of (lreg s) (Version m) \<noteq> None \<Longrightarrow> marked (lreg s') (Version m)"
    "map_of (lreg s) v \<noteq> None \<Longrightarrow> map_of (lreg s') v \<noteq> None"
  using assms by (auto simp: set_noVersioning_def marked_def store_registered_map_of)

lemma upToNoVersioning_marks:
  assumes "upToNoVersioning g ms target s = (None, s')" and "sorted (map Version ms)"
  shows "(\<forall>v. marked (lreg s) v \<longrightarrow> marked (lreg s') v) \<and>
     (\<forall>m\<in>set ms. Registered m \<and> Version m \<le> target \<and> map_of (lreg s) (Version m) \<noteq> None \<longrightarrow> marked (lreg s') (Version m))"
  using assms
proof (induction ms arbitrary: s)
  case (Cons m ms)
  show ?case
  proof (cases "Version m > target")
    case True
    with Cons.prems show ?thesis by auto
  next
    case False
    obtain m' s1 where s1: "set_noVersioning True m s = (m', s1)" by fastforce
    obtain s2 where s2: "run_in g m' True s1 = (None, s2)" and u: "upToNoVersioning g ms target s2 = (None, s')"
      using Cons.prems(1) False s1 by (auto split: prod.splits option.splits)
    have "lreg s2 = lreg s1" using run_in_cases [OF s2] by simp
    with Cons.IH [OF u] Cons.prems(2) set_noVersioning_marks [OF s1] show ?thesis by auto
  qed
qed auto

text \<open>A migration that runs without recording leaves the loop where it is.\<close>

definition idles :: "('d \<Rightarrow> version list option) \<Rightarrow> 'd package \<Rightarrow> Migration \<Rightarrow> bool" where
  "idles view g m \<longleftrightarrow> (\<forall>w. txn w = None \<and> faults w = [] \<longrightarrow>
     (\<exists>w'. Migration_run g m False w = (None, w') \<and> txn w' = None \<and> faults w' = [] \<and> view (committed w') = view (committed w)))"

lemma downTo_loop_hangs:
  assumes "package_ok view added g" and "Current ms v = Inr m" and "v \<noteq> 0" and "target < v" and "idles view g m"
    and "txn (lw s) = None" and "faults (lw s) = []" and "view (committed (lw s)) = Some (v # vs)"
  shows "downTo_loop g ms target s = None"
proof (rule ccontr)
  let ?stuck = "\<lambda>s. txn (lw s) = None \<and> faults (lw s) = [] \<and> view (committed (lw s)) = Some (v # vs)"
  let ?P = "\<lambda>g' ms' t' s y. g' = g \<and> ms' = ms \<and> t' = target \<longrightarrow> \<not> ?stuck s"
  assume "downTo_loop g ms target s \<noteq> None"
  then obtain y where y: "downTo_loop g ms target s = Some y" by auto
  have "?P g ms target s y"
  proof (rule downTo_loop.raw_induct [OF _ y, of ?P], intro impI notI)
    fix loop g' ms' t' s y
    assume ih: "\<And>g' ms' t' s y. loop g' ms' t' s = Some y \<Longrightarrow> ?P g' ms' t' s y"
      and body: "(case legacy_GetDBVersion g' (lw s) of
        (Inl e, w) \<Rightarrow> Some (Some e, s\<lparr>lw := w\<rparr>)
      | (Inr currentVersion, w) \<Rightarrow>
          if currentVersion = 0 then Some (None, s\<lparr>lw := w\<rparr>)
          else case Current ms' currentVersion of
            Inl e \<Rightarrow> Some (Some e, s\<lparr>lw := w\<rparr>)
          | Inr current \<Rightarrow>
              if Version current \<le> t' then Some (None, s\<lparr>lw := w\<rparr>)
              else case run_in g' current False (s\<lparr>lw := w\<rparr>) of
                (None, s1) \<Rightarrow> loop g' ms' t' s1 | (Some e, s1) \<Rightarrow> Some (Some e, s1)) = Some y"
      and eq: "g' = g \<and> ms' = ms \<and> t' = target" and st: "?stuck s"
    obtain r w where r: "EnsureDBVersion g (lw s) = (r, w)" by fastforce
    then have e: "EnsureDBVersion g (lw s) = (Inr v, w)" and w: "committed w = committed (lw s)" "calm (lw s) w"
      using EnsureDBVersion_healthy [OF assms(1) _ _ r, of "v # vs"] EnsureDBVersion_result [OF assms(1) _ r] st by simp_all
    obtain w' where w': "Migration_run g m False w = (None, w')" "txn w' = None" "faults w' = []"
      "view (committed w') = view (committed w)"
      using assms(5) w(2) st by (auto simp: idles_def calm_def)
    have "loop g ms target (s\<lparr>lw := w'\<rparr>) = Some y"
      using body eq e assms(2-4) Current_ok [OF assms(2)] w'(1) by (simp add: legacy_GetDBVersion_def run_in_def)
    from ih [OF this] w' w st show False by simp
  qed
  with assms(6-8) show False by simp
qed


section \<open>Redo and reset\<close>

lemma set_noVersioning_False: "set_noVersioning b m s = (m', s') \<Longrightarrow> lw s' = lw s \<and> m' = m\<lparr>noVersioning := b\<rparr>"
  by (auto simp: set_noVersioning_def)

lemma redo_current_result:
  assumes "package_ok view added g" and "\<forall>m\<in>set ms. \<forall>dir. regular view g (m\<lparr>noVersioning := False\<rparr>) dir"
    and "txn (lw s) = None" and "view (committed (lw s)) = Some vs" and "v \<in> set vs"
    and "redo_current g ms v False s = (None, s')"
  shows "\<exists>vs'. view (committed (lw s')) = Some vs' \<and> set vs' = set vs \<and> calm (lw s) (lw s')"
proof -
  obtain m where m: "Current ms v = Inr m" using assms(6) by (auto simp: redo_current_def split: sum.splits)
  note cm = Current_ok [OF m]
  obtain m' s1 where s1: "set_noVersioning False m s = (m', s1)" by fastforce
  note sn = set_noVersioning_False [OF s1]
  obtain s2 where s2: "run_in g m' False s1 = (None, s2)" and s3: "run_in g m' True s2 = (None, s')"
    using assms(6) m s1 by (auto simp: redo_current_def split: prod.splits option.splits)
  have reg: "regular view g m' dir" "Version m' = v" for dir using assms(2) cm sn by auto
  have r1: "Migration_run g m' False (lw s) = (None, lw s2)" "Migration_run g m' True (lw s2) = (None, lw s')"
    using run_in_cases [OF s2] run_in_cases [OF s3] sn by auto
  obtain vs2 where d: "calm (lw s) (lw s2)" "view (committed (lw s2)) = Some vs2" "moved added False [v] vs vs2"
    using run_moves [OF assms(1) reg(1) assms(3,4) r1(1)] reg(2) by auto
  have t2: "txn (lw s2) = None" using d(1) by (simp add: calm_def)
  obtain vs3 where u: "calm (lw s2) (lw s')" "view (committed (lw s')) = Some vs3" "moved added True [v] vs2 vs3"
    using run_moves [OF assms(1) reg(1) t2 d(2) r1(2)] reg(2) by auto
  have "set vs3 = {v} \<union> (set vs - {v})"
    using version_store.moved_set [OF package_okD(1) [OF assms(1)] d(3)] version_store.moved_set [OF package_okD(1) [OF assms(1)] u(3)]
    by simp
  then have "set vs3 = set vs" using assms(5) by auto
  with u(2) calm_trans [OF d(1) u(1)] show ?thesis by auto
qed

lemma status_map_newest:
  "map_of (status_map rows acc) v =
     (case map_of acc v of Some b \<Rightarrow> Some b | None \<Rightarrow> map_option LIsApplied (find (\<lambda>r. LVersion r = v) rows))"
  by (induction rows acc rule: status_map.induct) (auto split: option.splits)

lemma status_map_applied:
  "\<forall>r\<in>set rows. LIsApplied r \<Longrightarrow> map_of (status_map rows []) v = Some True \<longleftrightarrow> v \<in> LVersion ` set rows"
  by (induction rows) (auto simp: status_map_newest)

lemma reset_each_moves:
  assumes "package_ok view added g" and "\<forall>m\<in>set ms. regular view g m False"
    and "txn (lw s) = None" and "view (committed (lw s)) = Some vs" and "reset_each g st ms s = (r, s')"
  shows "calm (lw s) (lw s') \<and> (\<exists>vs'. view (committed (lw s')) = Some vs' \<and> set vs' \<subseteq> set vs \<and>
     (r = None \<longrightarrow> vs' = filter (\<lambda>v. \<not> (\<exists>m\<in>set ms. Version m = v \<and> map_of st v = Some True)) vs))"
  using assms(2-5)
proof (induction ms arbitrary: s vs)
  case Nil
  then show ?case by (simp add: calm_refl)
next
  case (Cons m ms)
  show ?case
  proof (cases "map_of st (Version m) = Some True")
    case False
    with Cons.prems have "reset_each g st ms s = (r, s')" by simp
    from Cons.IH [OF _ Cons.prems(2,3) this] Cons.prems(1) False show ?thesis by (auto intro!: filter_cong)
  next
    case True
    obtain r1 s1 where r1: "run_in g m False s = (r1, s1)" by fastforce
    obtain vs1 where rm: "calm (lw s) (lw s1)" "view (committed (lw s1)) = Some vs1"
      "moved added False [Version m] vs vs1 \<or> r1 \<noteq> None \<and> vs1 = vs"
      using run_moves [OF assms(1), of m False "lw s" vs r1 "lw s1"] Cons.prems run_in_cases [OF r1] by auto
    show ?thesis
    proof (cases r1)
      case (Some e)
      with Cons.prems(4) True r1 have "r \<noteq> None" "s' = s1" by auto
      with rm show ?thesis by (auto simp: moved_down)
    next
      case None
      with rm have v1: "vs1 = filter (\<lambda>x. x \<noteq> Version m) vs" by (simp add: moved_down)
      have "txn (lw s1) = None" "reset_each g st ms s1 = (r, s')" using rm(1) None Cons.prems(4) True r1 by (auto simp: calm_def)
      from Cons.IH [OF _ this(1) rm(2) this(2)] Cons.prems(1) obtain vs' where
        ih: "calm (lw s1) (lw s')" "view (committed (lw s')) = Some vs'" "set vs' \<subseteq> set vs1"
        "r = None \<longrightarrow> vs' = filter (\<lambda>v. \<not> (\<exists>m\<in>set ms. Version m = v \<and> map_of st v = Some True)) vs1" by auto
      have "filter (\<lambda>v. \<not> (\<exists>m\<in>set ms. Version m = v \<and> map_of st v = Some True)) vs1 =
          filter (\<lambda>v. \<not> (\<exists>x\<in>set (m # ms). Version x = v \<and> map_of st v = Some True)) vs"
        using v1 True by (auto intro!: filter_cong)
      with ih v1 calm_trans [OF rm(1) ih(1)] show ?thesis by auto
    qed
  qed
qed


section \<open>Properties\<close>

lemma CollectMigrations_lw: "CollectMigrations g dir current target s = (r, s1) \<Longrightarrow> lw s1 = lw s"
  by (auto simp: CollectMigrations_def split: prod.splits)

text \<open>
  C11: the loop of the legacy \<open>DownTo\<close>, with versioning, ends, whichever statements and commits fail, and
  leaves no transaction open. This is provided that every collected migration is a \<open>.sql\<close> or \<open>.go\<close> file, is
  not marked as unversioned and does not write to the version table itself. What is removed is settled
  in one case only: if \<open>DownTo\<close> returned no error, no statement failed, the target is not negative and
  the recorded versions were applied in ascending order, then the rows above the target are gone and
  the others are kept. (After an application out of order a version above the target can stay, because
  the loop stops at the first current version that is not above it.)
\<close>

theorem legacy_DownTo_terminates:
  assumes "package_ok view added g" and "txn (lw s) = None" and "view (committed (lw s)) = Some vs"
    and "CollectMigrations g dir minVersion maxVersion s = (Inr ms, s1)" and "\<forall>m\<in>set ms. regular view g m False"
    and "\<not> o_noVersioning (options_of opts)"
  shows "\<exists>r s'. legacy_DownTo g dir target opts s = Some (r, s') \<and> txn (lw s') = None \<and>
     (r = None \<and> faults (lw s) = [] \<and> sorted (rev vs) \<and> 0 \<le> target \<longrightarrow>
        view (committed (lw s')) = Some (filter (\<lambda>v. v \<le> target) vs))"
proof -
  have w: "lw s1 = lw s" by (rule CollectMigrations_lw [OF assms(4)])
  have "legacy_DownTo g dir target opts s = downTo_loop g ms target s1"
    using assms(4,6) by (simp add: legacy_DownTo_def)
  with downTo_loop_returns [OF assms(1,5), of s1 vs target] assms(2,3) w show ?thesis by (auto simp: calm_def)
qed

text \<open>
  C39: \<open>Up\<close> without versioning sets the flag \<open>noVersioning\<close> on the migrations it shares with the package's
  registry and leaves it set: every registered Go migration it ran is marked in the registry that the
  next operation reads.
\<close>

theorem noVersioning_flag_stays:
  assumes "registry_named (lreg s)" and "CollectMigrations g dir minVersion target s = (Inr ms, s1)"
    and "0 \<le> target" and "o_noVersioning (options_of opts)" and "\<not> o_applyUpByOne (options_of opts)"
    and "legacy_UpTo g dir target opts s = (None, s')"
    and "m \<in> set ms" and "Registered m" and "map_of (lreg s) (Version m) \<noteq> None"
  shows "marked (lreg s') (Version m)"
proof -
  note cf = CollectMigrations_facts [OF assms(1,2)]
  have "lreg s1 = store_registered ms (lreg s)"
    using assms(2) by (auto simp: CollectMigrations_def collectMigrationsFS_def split: prod.splits option.splits sum.splits if_splits)
  then have "map_of (lreg s1) (Version m) \<noteq> None" using assms(9) by (auto simp: store_registered_map_of)
  moreover have "upToNoVersioning g ms target s1 = (None, s')"
    using assms(2,4-6) cf(3) by (auto simp: legacy_UpTo_def Let_def)
  moreover have "Version m \<le> target" using cf(4) [OF assms(7)] versionFilter_up [OF _ assms(3)] by simp
  ultimately show ?thesis
    using upToNoVersioning_marks [of g ms target s1 s'] cf(2) assms(7,8) by (auto simp: strict_sorted_iff)
qed

text \<open>
  C40: \<open>DownTo\<close> with versioning never returns when its target is below the current version and the
  current version belongs to a registered Go migration with a transaction that is marked as
  unversioned, provided that no statement fails and that its down function succeeds on every state of
  the database without changing the version table: the version stays recorded, and the loop calls the
  function again. (If the function fails, \<open>DownTo\<close> returns its error.)
\<close>

theorem marked_migration_DownTo_hangs:
  assumes "package_ok view added g" and "CollectMigrations g dir minVersion maxVersion s = (Inr ms, s1)"
    and "\<not> o_noVersioning (options_of opts)" and "txn (lw s) = None" and "faults (lw s) = []"
    and "view (committed (lw s)) = Some (v # vs)" and "v \<noteq> 0" and "target < v" and "Current ms v = Inr m"
    and "noVersioning m" and "Registered m" and "UseTx m" and "Ext (MSourcePath m) = ''.go''" and "DownFnContext m = Some f"
    and "\<forall>d. \<exists>d'. e_go (g_engine g) f d = (Returns None, d') \<and> view d' = view d"
  shows "legacy_DownTo g dir target opts s = None"
proof -
  have "idles view g m"
  proof (unfold idles_def, intro allI impI)
    fix w :: "'a world" assume w: "txn w = None \<and> faults w = []"
    obtain d' where "e_go (g_engine g) f (committed w) = (Returns None, d')" "view d' = view (committed w)"
      using assms(15) by blast
    with w assms(10-14) show "\<exists>w'. Migration_run g m False w = (None, w') \<and> txn w' = None \<and> faults w' = [] \<and>
        view (committed w') = view (committed w)"
      by (auto simp: Migration_run_def runGoMigration_def BeginTx_def next_fault_def call_fn_def cur_def put_def
          commit_or_def Commit_def wrap_err_def fail_with_def)
  qed
  from downTo_loop_hangs [OF assms(1,9,7,8) this, of s1 vs] assms(2-6) CollectMigrations_lw [OF assms(2)] show ?thesis
    by (simp add: legacy_DownTo_def)
qed

text \<open>
  \<open>Redo\<close> is a round trip on the version table: if it succeeds, the same versions are recorded as
  before, and no transaction is open.
\<close>

theorem legacy_Redo_keeps_versions:
  assumes "package_ok view added g" and "registry_named (lreg s)" and "txn (lw s) = None" and "view (committed (lw s)) = Some vs"
    and "CollectMigrations g dir minVersion maxVersion s = (Inr ms, s1)"
    and "\<forall>m\<in>set ms. \<forall>dir. regular view g (m\<lparr>noVersioning := False\<rparr>) dir"
    and "\<not> o_noVersioning (options_of opts)" and "legacy_Redo g dir opts s = (None, s')"
  shows "\<exists>vs'. view (committed (lw s')) = Some vs' \<and> set vs' = set vs \<and> txn (lw s') = None"
proof -
  note cf = CollectMigrations_facts [OF assms(2,5)]
  obtain v w where e: "EnsureDBVersion g (lw s) = (Inr v, w)" and r: "redo_current g ms v False (s1\<lparr>lw := w\<rparr>) = (None, s')"
    using assms(5,7,8) cf(1) by (auto simp: legacy_Redo_def legacy_GetDBVersion_def split: prod.splits sum.splits)
  note er = EnsureDBVersion_result [OF assms(1,3) e]
  obtain m where "Current ms v = Inr m" using r by (auto simp: redo_current_def split: sum.splits)
  then have "m \<in> set ms" "Version m = v" using Current_ok by auto
  then have "v \<noteq> 0" using cf(4) [of m] versionFilter_up [of v maxVersion] by (auto simp: maxVersion_def)
  then have v: "view (committed w) = Some vs" "v \<in> set vs" "txn w = None" using er assms(4) by (auto simp: calm_def)
  from redo_current_result [OF assms(1,6) _ _ v(2) r] v show ?thesis by (auto simp: calm_def)
qed

text \<open>
  C28: \<open>Reset\<close> rolls back every collected migration that is recorded, and no other: if it succeeds, the
  versions left are exactly the recorded ones without a migration.
\<close>

theorem legacy_Reset_removes:
  assumes "package_ok view added g" and "txn (lw s) = None" and "view (committed (lw s)) = Some vs"
    and "CollectMigrations g dir minVersion maxVersion s = (Inr ms, s1)" and "\<forall>m\<in>set ms. regular view g m False"
    and "\<not> o_noVersioning (options_of opts)" and "legacy_Reset g dir opts s = Some (None, s')"
  shows "view (committed (lw s')) = Some (filter (\<lambda>v. v \<notin> Version ` set ms) vs) \<and> txn (lw s') = None"
proof -
  have lw1: "lw s1 = lw s" by (rule CollectMigrations_lw [OF assms(4)])
  obtain rows w where l: "legacy_ListMigrations g (lw s) = (Inr rows, w)"
    and r: "reset_each g (status_map rows []) (rev ms) (s1\<lparr>lw := w\<rparr>) = (None, s')"
    using assms(4,6,7) lw1 by (auto simp: legacy_Reset_def dbMigrationsStatus_def split: prod.splits sum.splits)
  note lv = list_view [OF assms(1) l]
  have vs: "vs = map LVersion rows" "view (committed w) = Some vs" "txn w = None"
    using lv assms(2,3) by (auto simp: frame_def)
  have "\<forall>r\<in>set rows. LIsApplied r" using package_okD(4) [OF assms(1) l] by blast
  then have st: "map_of (status_map rows []) v = Some True \<longleftrightarrow> v \<in> set vs" for v
    using status_map_applied vs(1) by simp
  have "\<forall>m\<in>set (rev ms). regular view g m False" using assms(5) by simp
  from reset_each_moves [OF assms(1) this _ _ r, of vs] vs obtain vs' where
    "view (committed (lw s')) = Some vs'" "txn (lw s') = None"
    "vs' = filter (\<lambda>v. \<not> (\<exists>m\<in>set (rev ms). Version m = v \<and> map_of (status_map rows []) v = Some True)) vs"
    by (auto simp: calm_def)
  moreover have "\<dots> = filter (\<lambda>v. v \<notin> Version ` set ms) vs" using st by (auto intro!: filter_cong)
  ultimately show ?thesis by simp
qed


end
