(* ===== verification/Legacy_Witness.thy ===== *)
theory Legacy_Witness
  imports Legacy_Down Provider_Witness
begin

text \<open>
  The package over the reference server, with one SQL file and one registered Go migration; the
  properties of the legacy operations applied to it.
\<close>

definition ref_package :: "ref_db package" where
  "ref_package = \<lparr>g_engine = ref_engine NewPostgres ''goose_db_version'', g_querier = NewPostgres,
     g_table = ''goose_db_version'', g_fs = \<lparr>b_files = ref_files, b_stat = (\<lambda>_. None)\<rparr>, g_ext = ref_ext\<rparr>"

definition ref_registered :: Migration where
  "ref_registered = (NewGoMigration 2 (Some \<lparr>RunTx = Some (Fn ''ok''), RunDB = None, Mode = TransactionEnabled\<rparr>)
     (Some \<lparr>RunTx = Some (Fn ''ok''), RunDB = None, Mode = TransactionEnabled\<rparr>))\<lparr>MSourcePath := ''2_b.go'', UseTx := True\<rparr>"

definition ref_lstate :: "version list option \<Rightarrow> ref_db lstate" where
  "ref_lstate tbl = \<lparr>lw = ref_world\<lparr>committed := (tbl, [])\<rparr>, lreg = [(2, ref_registered)]\<rparr>"

definition ref_collected :: "Migration list" where
  "ref_collected = [(file_migration 1 ''1_a.sql'')\<lparr>Next := 2\<rparr>, ref_registered\<lparr>Previous := 1\<rparr>]"

lemma ref_registry_registered:
  "AddNamedMigrationContext ''2_b.go'' (Some (Fn ''ok'')) (Some (Fn ''ok'')) [] = Inr [(2, ref_registered)]"
  by code_simp

lemma ref_collect:
  "CollectMigrations ref_package ''.'' minVersion maxVersion (ref_lstate tbl) =
     (Inr ref_collected, (ref_lstate tbl)\<lparr>lreg := [(2, ref_registered\<lparr>Previous := 1\<rparr>)]\<rparr>)"
proof -
  have "collectMigrationsFS \<lparr>b_files = ref_files, b_stat = (\<lambda>_. None)\<rparr> ''.'' minVersion maxVersion [(2, ref_registered)] =
      (Inr ref_collected, [(2, ref_registered\<lparr>Previous := 1\<rparr>)])" by code_simp
  then show ?thesis by (simp add: CollectMigrations_def ref_package_def ref_lstate_def)
qed

lemma ref_package_ok: "package_ok fst (\<lambda>v vs vs'. vs' = v # vs) ref_package"
proof (rule package_ok_engine)
  show "sql_engine (g_engine ref_package) (g_table ref_package) (g_querier ref_package) fst (\<lambda>v vs vs'. vs' = v # vs)"
    using postgres_ref.sql_engine_axioms by (simp add: ref_package_def)
  show "append_laws (g_ext ref_package)" using ref_append by (simp add: ref_package_def ref_provider_def ref_host_def)
  show "never_panics (g_engine ref_package)"
    using ref_go_result by (fastforce simp: never_panics_def ref_package_def ref_engine_def panicked_def)
qed

lemma ref_named: "registry_named (lreg (ref_lstate tbl))"
proof -
  have "NumericComponent ''2_b.go'' = Inr 2" by code_simp
  then show ?thesis
    by (simp add: registry_named_def ref_lstate_def ref_registered_def NewGoMigration_def set_up_funcs_def set_down_funcs_def)
qed

lemma ref_lstate_simps [simp]:
  "txn (lw (ref_lstate tbl)) = None" "faults (lw (ref_lstate tbl)) = []" "committed (lw (ref_lstate tbl)) = (tbl, [])"
  by (simp_all add: ref_lstate_def ref_world_def)

lemma ref_collected_versions: "map Version ref_collected = [1, 2]"
  by (simp add: ref_collected_def file_migration_def ref_registered_def NewGoMigration_def set_up_funcs_def set_down_funcs_def)

lemma ref_mirror_host: "p_host (mirror ref_package) = ref_host"
  by (simp add: mirror_def ref_package_def ref_host_def)

lemma ref_exts: "Ext ''1_a.sql'' = ''.sql''" "Ext ''2_b.go'' = ''.go''"
  by code_simp+

lemma ref_spares_legacy:
  assumes "MSourcePath m \<in> {''1_a.sql'', ''2_b.go''}"
  shows "spares_legacy fst ref_package m dir"
proof (unfold spares_legacy_def, intro allI impI)
  fix m' assume form: "provider_form ref_package m dir m'"
  have p: "fs_Open ref_files ''1_a.sql'' = Inr \<lparr>f_reader = (unlines [lineUp, ''CREATE a;'', lineDown, ''DROP a;''], None), f_close = None\<rparr>"
    by (simp add: fs_Open_def ref_files_def sql_file_def)
  have up: "ParseSQLMigration ref_ext (unlines [lineUp, ''CREATE a;'', lineDown, ''DROP a;''], None) (FromBool True) = Inr ([''CREATE a;''], True)"
    by code_simp
  have down: "ParseSQLMigration ref_ext (unlines [lineUp, ''CREATE a;'', lineDown, ''DROP a;''], None) (FromBool False) = Inr ([''DROP a;''], True)"
    by code_simp
  have "(if dir then SqlUp (sql m') else SqlDown (sql m')) = (if dir then [''CREATE a;''] else [''DROP a;''])" if "Type m' = TypeSQL"
  proof -
    have "sql_form ref_package m dir m'" using form that by (auto simp: provider_form_def go_form_def)
    then have "MSourcePath m = ''1_a.sql''" using assms ref_exts by (auto simp: sql_form_def)
    with \<open>sql_form ref_package m dir m'\<close> p up down show ?thesis by (cases dir) (auto simp: sql_form_def ref_package_def)
  qed
  then show "spares_versions fst (mirror ref_package) m' dir"
    by (intro ref_spares) (auto simp: ref_mirror_host foreign_def NewPostgres_def postgres_CreateTable_def
        postgres_InsertVersion_def postgres_DeleteVersion_def)
qed

lemma ref_regular: "m \<in> set ref_collected \<Longrightarrow> regular fst ref_package (m\<lparr>noVersioning := False\<rparr>) dir"
  "m \<in> set ref_collected \<Longrightarrow> regular fst ref_package m dir"
proof -
  assume m: "m \<in> set ref_collected"
  then have src: "MSourcePath m \<in> {''1_a.sql'', ''2_b.go''}" by (auto simp: ref_collected_def file_migration_def ref_registered_def)
  have "\<not> noVersioning m"
    using m by (auto simp: ref_collected_def file_migration_def ref_registered_def NewGoMigration_def set_up_funcs_def
        set_down_funcs_def zeroMigration_def)
  then show "regular fst ref_package (m\<lparr>noVersioning := False\<rparr>) dir" "regular fst ref_package m dir"
    using ref_exts src ref_spares_legacy [of m dir] ref_spares_legacy [of "m\<lparr>noVersioning := False\<rparr>" dir] by (auto simp: regular_def)
qed

section \<open>Witnesses\<close>

theorem legacy_UpTo_records_witness:
  "\<exists>s'. legacy_UpTo ref_package ''.'' maxVersion [] (ref_lstate None) = (None, s') \<and> {1, 2} \<subseteq> lrecorded fst s'"
proof -
  have "fst (legacy_UpTo ref_package ''.'' maxVersion [] (ref_lstate None)) = None" by code_simp
  then obtain s' where u: "legacy_UpTo ref_package ''.'' maxVersion [] (ref_lstate None) = (None, s')"
    by (metis prod.collapse)
  have "Version ` set ref_collected = {1, 2}" using arg_cong [OF ref_collected_versions, of set] by simp
  moreover have "zero_ok (fst (committed (lw (ref_lstate None))))" "\<forall>v\<in>lrecorded fst (ref_lstate None). 0 \<le> v"
    by (simp_all add: zero_ok_def lrecorded_def)
  ultimately show ?thesis
    using legacy_UpTo_records [OF ref_package_ok ref_named _ _ _ _ ref_collect _ _ u] ref_regular u
    by (simp add: maxVersion_def options_of_def)
qed


lemmas downTo_loop_code [code] = downTo_loop.simps

theorem legacy_DownTo_terminates_witness:
  "\<exists>s'. legacy_DownTo ref_package ''.'' 0 [] (ref_lstate (Some [2, 1, 0])) = Some (None, s') \<and> txn (lw s') = None \<and>
     fst (committed (lw s')) = Some [0]"
proof -
  have r: "map_option fst (legacy_DownTo ref_package ''.'' 0 [] (ref_lstate (Some [2, 1, 0]))) = Some None" by code_simp
  have v: "fst (committed (lw (ref_lstate (Some [2, 1, 0])))) = Some [2, 1, 0]" by simp
  have reg: "\<forall>m\<in>set ref_collected. regular fst ref_package m False" using ref_regular by blast
  have "\<not> o_noVersioning (options_of [])" by (simp add: options_of_def)
  from legacy_DownTo_terminates [OF ref_package_ok ref_lstate_simps(1) v ref_collect reg this, of 0] r show ?thesis by fastforce
qed

lemma ref_after_no_versioning:
  "case legacy_UpTo ref_package ''.'' maxVersion [WithNoVersioning] (ref_lstate (Some [2, 1, 0])) of
     (r, s) \<Rightarrow> r = None \<and> txn (lw s) = None \<and> faults (lw s) = [] \<and> fst (committed (lw s)) = Some [2, 1, 0] \<and>
       (case CollectMigrations ref_package ''.'' minVersion maxVersion s of
          (Inr ms, _) \<Rightarrow>
            (case Current ms 2 of
               Inr m \<Rightarrow> noVersioning m \<and> Registered m \<and> UseTx m \<and> MSourcePath m = ''2_b.go'' \<and> DownFnContext m = Some (Fn ''ok'')
             | Inl _ \<Rightarrow> False)
        | (Inl _, _) \<Rightarrow> False)"
  by code_simp

theorem noVersioning_flag_stays_witness:
  "\<exists>s'. legacy_UpTo ref_package ''.'' maxVersion [WithNoVersioning] (ref_lstate (Some [2, 1, 0])) = (None, s') \<and>
     marked (lreg s') 2"
proof -
  obtain s' where u: "legacy_UpTo ref_package ''.'' maxVersion [WithNoVersioning] (ref_lstate (Some [2, 1, 0])) = (None, s')"
    using ref_after_no_versioning by (auto split: prod.splits)
  let ?m = "ref_registered\<lparr>Previous := 1\<rparr>"
  have m: "?m \<in> set ref_collected" "Registered ?m" "Version ?m = 2"
    by (auto simp: ref_collected_def ref_registered_def NewGoMigration_def set_up_funcs_def set_down_funcs_def)
  have "map_of (lreg (ref_lstate (Some [2, 1, 0]))) (Version ?m) \<noteq> None" using m(3) by (simp add: ref_lstate_def)
  from noVersioning_flag_stays [OF ref_named ref_collect _ _ _ u m(1,2) this] u m(3) show ?thesis
    by (simp add: maxVersion_def options_of_def)
qed

text \<open>Seeding with \<open>WithNoVersioning\<close> and then rolling back: the second call does not return.\<close>

theorem marked_migration_DownTo_hangs_witness:
  "\<exists>s'. legacy_UpTo ref_package ''.'' maxVersion [WithNoVersioning] (ref_lstate (Some [2, 1, 0])) = (None, s') \<and>
     legacy_DownTo ref_package ''.'' 0 [] s' = None"
proof -
  obtain s' ms s1 m where u: "legacy_UpTo ref_package ''.'' maxVersion [WithNoVersioning] (ref_lstate (Some [2, 1, 0])) = (None, s')"
    and t: "txn (lw s') = None" "faults (lw s') = []" "fst (committed (lw s')) = Some [2, 1, 0]"
    and c: "CollectMigrations ref_package ''.'' minVersion maxVersion s' = (Inr ms, s1)"
    and m: "Current ms 2 = Inr m" "noVersioning m" "Registered m" "UseTx m" "MSourcePath m = ''2_b.go''" "DownFnContext m = Some (Fn ''ok'')"
    using ref_after_no_versioning by (auto split: prod.splits sum.splits)
  have "Ext (MSourcePath m) = ''.go''" using m(5) ref_exts by simp
  moreover have "\<forall>d. \<exists>d'. e_go (g_engine ref_package) (Fn ''ok'') d = (Returns None, d') \<and> fst d' = fst d"
    by (simp add: ref_package_def ref_engine_def)
  ultimately show ?thesis
    using marked_migration_DownTo_hangs [OF ref_package_ok c _ t(1,2,3) _ _ m(1-4) _ m(6), of "[]" 0] u
    by (simp add: options_of_def)
qed

theorem legacy_Reset_removes_witness:
  "\<exists>s'. legacy_Reset ref_package ''.'' [] (ref_lstate (Some [2, 1, 0])) = Some (None, s') \<and>
     fst (committed (lw s')) = Some [0]"
proof -
  have "map_option fst (legacy_Reset ref_package ''.'' [] (ref_lstate (Some [2, 1, 0]))) = Some None" by code_simp
  then obtain s' where r: "legacy_Reset ref_package ''.'' [] (ref_lstate (Some [2, 1, 0])) = Some (None, s')" by auto
  have reg: "\<forall>m\<in>set ref_collected. regular fst ref_package m False" using ref_regular by blast
  have "Version ` set ref_collected = {1, 2}" using arg_cong [OF ref_collected_versions, of set] by simp
  with legacy_Reset_removes [OF ref_package_ok ref_lstate_simps(1) _ ref_collect reg _ r, of "[2, 1, 0]"] r show ?thesis
    by (simp add: options_of_def)
qed


end
