(* ===== verification/Lock_Store.thy ===== *)
theory Lock_Store
  imports Provider_Init_Lemmas
begin

text \<open>
  The lock table: the package \<open>lock/internal/store\<close>, with the interface \<open>LockStore\<close> and its
  implementations for PostgreSQL and MySQL. The server is a parameter: it runs a statement or a query
  on an abstract state \<open>'d\<close>, which has the clock of the server. A query may change the state
  (\<open>RETURNING\<close>), a statement reports the number of rows it changed. Transactions, faults and errors
  are those of the theory \<open>Database\<close>.
\<close>

section \<open>The parameter: a database server\<close>

type_synonym duration = int

datatype larg = LInt int | LStr string

datatype lcell = CInt int | CBool bool | CStr string | CTime int | CNull

text \<open>
  A query gives rows, an error of the iteration and an error of \<open>rows.Close\<close>. The number of rows a
  statement changed may be an error of the driver.
\<close>

record 'd lock_server =
  ls_exec :: "string \<Rightarrow> larg list \<Rightarrow> 'd \<Rightarrow> (string + (string + nat)) \<times> 'd"
  ls_query :: "string \<Rightarrow> larg list \<Rightarrow> 'd \<Rightarrow> (string + (lcell list list \<times> string option \<times> string option)) \<times> 'd"

definition driver_error :: "(string + 'a) \<times> 'd \<Rightarrow> (err + 'a) \<times> 'd" where
  "driver_error r = (case r of (Inl e, d) \<Rightarrow> (Inl (Msg e), d) | (Inr a, d) \<Rightarrow> (Inr a, d))"

definition lock_Exec ::
    "'d lock_server \<Rightarrow> handle \<Rightarrow> string \<Rightarrow> larg list \<Rightarrow> 'd world \<Rightarrow> (err + (string + nat)) \<times> 'd world" where
  "lock_Exec srv h q args w = call h (\<lambda>d. driver_error (ls_exec srv q args d)) w"

definition lock_Query ::
    "'d lock_server \<Rightarrow> handle \<Rightarrow> string \<Rightarrow> larg list \<Rightarrow> 'd world \<Rightarrow>
     (err + (lcell list list \<times> string option \<times> string option)) \<times> 'd world" where
  "lock_Query srv h q args w = call h (\<lambda>d. driver_error (ls_query srv q args d)) w"

definition lock_QueryRow ::
    "'d lock_server \<Rightarrow> handle \<Rightarrow> string \<Rightarrow> larg list \<Rightarrow> 'd world \<Rightarrow> (err + lcell list) \<times> 'd world" where
  "lock_QueryRow srv h q args w =
     (case lock_Query srv h q args w of
        (Inl e, w') \<Rightarrow> (Inl e, w')
      | (Inr (row # _, it, cl), w') \<Rightarrow> (case cl of Some e \<Rightarrow> (Inl (Msg e), w') | None \<Rightarrow> (Inr row, w'))
      | (Inr ([], it, cl), w') \<Rightarrow> (case it of Some e \<Rightarrow> (Inl (Msg e), w') | None \<Rightarrow> (Inl (Sent ErrNoRows), w')))"

definition cell_int :: "lcell \<Rightarrow> err + int" where
  "cell_int c = (case c of CInt n \<Rightarrow> Inr n | _ \<Rightarrow> Inl scan_error)"

definition cell_bool :: "lcell \<Rightarrow> err + bool" where
  "cell_bool c =
     (case c of CBool b \<Rightarrow> Inr b
      | CInt n \<Rightarrow> (if n = 1 then Inr True else if n = 0 then Inr False else Inl scan_error)
      | _ \<Rightarrow> Inl scan_error)"

definition cell_str :: "lcell \<Rightarrow> err + string" where
  "cell_str c = (case c of CStr s \<Rightarrow> Inr s | _ \<Rightarrow> Inl scan_error)"

definition cell_time :: "lcell \<Rightarrow> err + int" where
  "cell_time c = (case c of CTime t \<Rightarrow> Inr t | _ \<Rightarrow> Inl scan_error)"

text \<open>A pointer to a value: a null column is no value.\<close>

definition cell_opt :: "(lcell \<Rightarrow> err + 'a) \<Rightarrow> lcell \<Rightarrow> err + 'a option" where
  "cell_opt f c = (if c = CNull then Inr None else map_sum id Some (f c))"

section \<open>The interface LockStore\<close>

record LockStatus =
  StLocked :: bool
  StLockedBy :: "string option"
  StLeaseExpiresAt :: "int option"
  StUpdatedAt :: "int option"

record AcquireLockResult =
  ALockedBy :: string
  ALeaseExpiresAt :: int

record ReleaseLockResult =
  RLockID :: int

record UpdateLeaseResult =
  ULeaseExpiresAt :: int

record 'd lock_store =
  CreateLockTable :: "'d world \<Rightarrow> err option \<times> 'd world"
  LockTableExists :: "'d world \<Rightarrow> (err + bool) \<times> 'd world"
  AcquireLock :: "int \<Rightarrow> string \<Rightarrow> duration \<Rightarrow> 'd world \<Rightarrow> (err + AcquireLockResult) \<times> 'd world"
  ReleaseLock :: "int \<Rightarrow> string \<Rightarrow> 'd world \<Rightarrow> (err + ReleaseLockResult) \<times> 'd world"
  UpdateLease :: "int \<Rightarrow> string \<Rightarrow> duration \<Rightarrow> 'd world \<Rightarrow> (err + UpdateLeaseResult) \<times> 'd world"
  CheckLockStatus :: "int \<Rightarrow> 'd world \<Rightarrow> (err + LockStatus) \<times> 'd world"
  CleanupStaleLocks :: "'d world \<Rightarrow> (err + int list) \<times> 'd world"

text \<open>
  \<open>int(d.Seconds())\<close>, rounded towards zero. (The sum of seconds and fraction is a \<open>float64\<close>; below
  \<open>2 ^ 23\<close> seconds, 97 days, it has the digits of every fraction.)
\<close>

definition duration_seconds :: "duration \<Rightarrow> int" where
  "duration_seconds d = (if 0 \<le> d then d div 1000000000 else - (- d div 1000000000))"

definition lock_parseTableIdentifier :: "string \<Rightarrow> string \<times> string" where
  "lock_parseTableIdentifier name =
     (case Cut name (CHR ''.'') of None \<Rightarrow> ([], name) | Some (schema, table) \<Rightarrow> (schema, table))"

definition lock_msg :: "string \<Rightarrow> int \<Rightarrow> string \<Rightarrow> string" where
  "lock_msg what lockID rest = what @ FormatInt lockID @ rest"

section \<open>PostgreSQL\<close>

subsection \<open>The statements\<close>

definition pg_exists_q :: "string \<Rightarrow> string" where
  "pg_exists_q tblName =
     (let (schemaName, table) = lock_parseTableIdentifier tblName
      in if schemaName \<noteq> []
         then ''SELECT EXISTS ( SELECT 1 FROM pg_tables WHERE schemaname = '' @ sq @ schemaName @ sq @ '' AND tablename = '' @
           sq @ table @ sq @ '' )''
         else ''SELECT EXISTS ( SELECT 1 FROM pg_tables WHERE (current_schema() IS NULL OR schemaname = current_schema()) AND tablename = '' @
           sq @ table @ sq @ '' )'')"

definition pg_create_q :: "string \<Rightarrow> string" where
  "pg_create_q tblName =
     ''CREATE TABLE '' @ tblName @ '' ('' @ nl @
     tab @ tab @ ''lock_id bigint NOT NULL PRIMARY KEY,'' @ nl @
     tab @ tab @ ''locked boolean NOT NULL DEFAULT false,'' @ nl @
     tab @ tab @ ''locked_at timestamptz NULL,'' @ nl @
     tab @ tab @ ''locked_by text NULL,'' @ nl @
     tab @ tab @ ''lease_expires_at timestamptz NULL,'' @ nl @
     tab @ tab @ ''updated_at timestamptz NULL'' @ nl @
     tab @ '')''"

definition pg_acquire_q :: "string \<Rightarrow> string" where
  "pg_acquire_q tblName =
     ''INSERT INTO '' @ tblName @ '' (lock_id, locked, locked_at, locked_by, lease_expires_at, updated_at)'' @ nl @
     tab @ ''VALUES ($1, true, now(), $2, now() + $3::interval, now())'' @ nl @
     tab @ ''ON CONFLICT (lock_id) DO UPDATE SET'' @ nl @
     tab @ tab @ ''locked = true,'' @ nl @
     tab @ tab @ ''locked_at = now(),'' @ nl @
     tab @ tab @ ''locked_by = $2,'' @ nl @
     tab @ tab @ ''lease_expires_at = now() + $3::interval,'' @ nl @
     tab @ tab @ ''updated_at = now()'' @ nl @
     tab @ ''WHERE '' @ tblName @ ''.locked = false OR '' @ tblName @ ''.lease_expires_at < now()'' @ nl @
     tab @ ''RETURNING locked_by, lease_expires_at''"

definition pg_release_q :: "string \<Rightarrow> string" where
  "pg_release_q tblName =
     ''UPDATE '' @ tblName @ '' SET'' @ nl @
     tab @ tab @ ''locked = false,'' @ nl @
     tab @ tab @ ''locked_at = NULL,'' @ nl @
     tab @ tab @ ''locked_by = NULL,'' @ nl @
     tab @ tab @ ''lease_expires_at = NULL,'' @ nl @
     tab @ tab @ ''updated_at = now()'' @ nl @
     tab @ ''WHERE lock_id = $1 AND locked_by = $2'' @ nl @
     tab @ ''RETURNING lock_id''"

definition pg_update_q :: "string \<Rightarrow> string" where
  "pg_update_q tblName =
     ''UPDATE '' @ tblName @ '' SET'' @ nl @
     tab @ tab @ ''lease_expires_at = now() + $1::interval,'' @ nl @
     tab @ tab @ ''updated_at = now()'' @ nl @
     tab @ ''WHERE lock_id = $2 AND locked_by = $3 AND locked = true'' @ nl @
     tab @ ''RETURNING lease_expires_at''"

definition pg_status_q :: "string \<Rightarrow> string" where
  "pg_status_q tblName =
     ''SELECT locked, locked_by, lease_expires_at, updated_at FROM '' @ tblName @ '' WHERE lock_id = $1''"

definition pg_cleanup_q :: "string \<Rightarrow> string" where
  "pg_cleanup_q tblName =
     ''UPDATE '' @ tblName @ '' SET'' @ nl @
     tab @ tab @ ''locked = false,'' @ nl @
     tab @ tab @ ''locked_at = NULL,'' @ nl @
     tab @ tab @ ''locked_by = NULL,'' @ nl @
     tab @ tab @ ''lease_expires_at = NULL,'' @ nl @
     tab @ tab @ ''updated_at = now()'' @ nl @
     tab @ ''WHERE locked = true AND lease_expires_at < now()'' @ nl @
     tab @ ''RETURNING lock_id''"

definition formatDurationAsInterval :: "duration \<Rightarrow> string" where
  "formatDurationAsInterval d = FormatInt (duration_seconds d) @ '' seconds''"

subsection \<open>The operations\<close>

text \<open>Both stores scan the answer to their query for the table in the same way.\<close>

definition scan_exists :: "(err + lcell list) \<times> 'd world \<Rightarrow> (err + bool) \<times> 'd world" where
  "scan_exists r =
     (case r of
        (Inl e, w') \<Rightarrow> (Inl (Wrap ''table exists'' e), w')
      | (Inr row, w') \<Rightarrow>
          (case (case row of [c] \<Rightarrow> cell_bool c | _ \<Rightarrow> Inl scan_error) of
             Inl e \<Rightarrow> (Inl (Wrap ''table exists'' e), w')
           | Inr b \<Rightarrow> (Inr b, w')))"

definition pg_TableExists :: "'d lock_server \<Rightarrow> string \<Rightarrow> 'd world \<Rightarrow> (err + bool) \<times> 'd world" where
  "pg_TableExists srv tblName w = scan_exists (lock_QueryRow srv HDB (pg_exists_q tblName) [] w)"

text \<open>
  Creating the table: both stores look for it, create it, and look again when that failed, because
  another process may have been first.
\<close>

definition create_lock_table ::
    "'d lock_server \<Rightarrow> ('d world \<Rightarrow> (err + bool) \<times> 'd world) \<Rightarrow> string \<Rightarrow> string \<Rightarrow> 'd world \<Rightarrow> err option \<times> 'd world" where
  "create_lock_table srv exists q tblName w =
     (case exists w of
        (Inl e, w1) \<Rightarrow> (Some (Wrap ''check lock table existence'' e), w1)
      | (Inr True, w1) \<Rightarrow> (None, w1)
      | (Inr False, w1) \<Rightarrow>
          (case lock_Exec srv HDB q [] w1 of
             (Inr _, w2) \<Rightarrow> (None, w2)
           | (Inl e, w2) \<Rightarrow>
               (case exists w2 of
                  (Inr True, w3) \<Rightarrow> (None, w3)
                | (_, w3) \<Rightarrow> (Some (Wrap (''create lock table '' @ Quote tblName) e), w3))))"

definition pg_CreateLockTable :: "'d lock_server \<Rightarrow> string \<Rightarrow> 'd world \<Rightarrow> err option \<times> 'd world" where
  "pg_CreateLockTable srv tblName w =
     create_lock_table srv (pg_TableExists srv tblName) (pg_create_q tblName) tblName w"

definition scan_lease :: "lcell list \<Rightarrow> err + string \<times> int" where
  "scan_lease row =
     (case row of
        [b, t] \<Rightarrow>
          (case cell_str b of
             Inl e \<Rightarrow> Inl e
           | Inr s \<Rightarrow> (case cell_time t of Inl e \<Rightarrow> Inl e | Inr n \<Rightarrow> Inr (s, n)))
      | _ \<Rightarrow> Inl scan_error)"

definition wrong_owner :: "int \<Rightarrow> string \<Rightarrow> string \<Rightarrow> err" where
  "wrong_owner lockID returned lockedBy =
     Msg (lock_msg ''acquire lock '' lockID ('': acquired by '' @ returned @ '' instead of '' @ lockedBy))"

definition pg_AcquireLock ::
    "'d lock_server \<Rightarrow> string \<Rightarrow> int \<Rightarrow> string \<Rightarrow> duration \<Rightarrow> 'd world \<Rightarrow> (err + AcquireLockResult) \<times> 'd world" where
  "pg_AcquireLock srv tblName lockID lockedBy leaseDuration w =
     (case lock_QueryRow srv HDB (pg_acquire_q tblName)
             [LInt lockID, LStr lockedBy, LStr (formatDurationAsInterval leaseDuration)] w of
        (r, w') \<Rightarrow>
          (case (case r of Inl e \<Rightarrow> Inl e | Inr row \<Rightarrow> scan_lease row) of
             Inl e \<Rightarrow>
               (if errors_Is e ErrNoRows
                then (Inl (Msg (lock_msg ''acquire lock '' lockID '': already held by another instance'')), w')
                else (Inl (Wrap (lock_msg ''acquire lock '' lockID '''') e), w'))
           | Inr (returnedLockedBy, leaseExpiresAt) \<Rightarrow>
               (if returnedLockedBy \<noteq> lockedBy then (Inl (wrong_owner lockID returnedLockedBy lockedBy), w')
                else (Inr \<lparr>ALockedBy = returnedLockedBy, ALeaseExpiresAt = leaseExpiresAt\<rparr>, w'))))"

definition pg_ReleaseLock ::
    "'d lock_server \<Rightarrow> string \<Rightarrow> int \<Rightarrow> string \<Rightarrow> 'd world \<Rightarrow> (err + ReleaseLockResult) \<times> 'd world" where
  "pg_ReleaseLock srv tblName lockID lockedBy w =
     (case lock_QueryRow srv HDB (pg_release_q tblName) [LInt lockID, LStr lockedBy] w of
        (r, w') \<Rightarrow>
          (case (case r of Inl e \<Rightarrow> Inl e | Inr row \<Rightarrow> (case row of [c] \<Rightarrow> cell_int c | _ \<Rightarrow> Inl scan_error)) of
             Inl e \<Rightarrow>
               (if errors_Is e ErrNoRows
                then (Inl (Msg (lock_msg ''release lock '' lockID '': not held by this instance'')), w')
                else (Inl (Wrap (lock_msg ''release lock '' lockID '''') e), w'))
           | Inr returnedLockID \<Rightarrow>
               (if returnedLockID \<noteq> lockID
                then (Inl (Msg (lock_msg ''release lock '' lockID ('': returned lock ID '' @ FormatInt returnedLockID @ '' does not match''))), w')
                else (Inr \<lparr>RLockID = returnedLockID\<rparr>, w'))))"

definition pg_UpdateLease ::
    "'d lock_server \<Rightarrow> string \<Rightarrow> int \<Rightarrow> string \<Rightarrow> duration \<Rightarrow> 'd world \<Rightarrow> (err + UpdateLeaseResult) \<times> 'd world" where
  "pg_UpdateLease srv tblName lockID lockedBy leaseDuration w =
     (case lock_QueryRow srv HDB (pg_update_q tblName)
             [LStr (formatDurationAsInterval leaseDuration), LInt lockID, LStr lockedBy] w of
        (r, w') \<Rightarrow>
          (case (case r of Inl e \<Rightarrow> Inl e | Inr row \<Rightarrow> (case row of [c] \<Rightarrow> cell_time c | _ \<Rightarrow> Inl scan_error)) of
             Inl e \<Rightarrow>
               (if errors_Is e ErrNoRows
                then (Inl (Msg (lock_msg ''failed to update lease for lock '' lockID '': not held by this instance'')), w')
                else (Inl (Wrap (lock_msg ''failed to update lease for lock '' lockID '''') e), w'))
           | Inr leaseExpiresAt \<Rightarrow> (Inr \<lparr>ULeaseExpiresAt = leaseExpiresAt\<rparr>, w')))"

definition scan_status :: "lcell list \<Rightarrow> err + LockStatus" where
  "scan_status row =
     (case row of
        [l, b, t, u] \<Rightarrow>
          (case (cell_bool l, cell_opt cell_str b, cell_opt cell_time t, cell_opt cell_time u) of
             (Inr l', Inr b', Inr t', Inr u') \<Rightarrow>
               Inr \<lparr>StLocked = l', StLockedBy = b', StLeaseExpiresAt = t', StUpdatedAt = u'\<rparr>
           | _ \<Rightarrow> Inl scan_error)
      | _ \<Rightarrow> Inl scan_error)"

text \<open>The two stores differ in the text of the query only.\<close>

definition check_status :: "'d lock_server \<Rightarrow> string \<Rightarrow> int \<Rightarrow> 'd world \<Rightarrow> (err + LockStatus) \<times> 'd world" where
  "check_status srv q lockID w =
     (case lock_QueryRow srv HDB q [LInt lockID] w of
        (r, w') \<Rightarrow>
          (case (case r of Inl e \<Rightarrow> Inl e | Inr row \<Rightarrow> scan_status row) of
             Inl e \<Rightarrow>
               (if errors_Is e ErrNoRows then (Inl (Msg (lock_msg ''lock '' lockID '' not found'')), w')
                else (Inl (Wrap (lock_msg ''check lock status for '' lockID '''') e), w'))
           | Inr st \<Rightarrow> (Inr st, w')))"

definition pg_CheckLockStatus :: "'d lock_server \<Rightarrow> string \<Rightarrow> int \<Rightarrow> 'd world \<Rightarrow> (err + LockStatus) \<times> 'd world" where
  "pg_CheckLockStatus srv tblName lockID w = check_status srv (pg_status_q tblName) lockID w"

text \<open>Both stores read the identifiers of the stale locks in the same way.\<close>

fun scan_ids :: "lcell list list \<Rightarrow> err + int list" where
  "scan_ids [] = Inr []"
| "scan_ids (row # rows) =
     (case (case row of [c] \<Rightarrow> cell_int c | _ \<Rightarrow> Inl scan_error) of
        Inl e \<Rightarrow> Inl (Wrap ''scan cleaned lock ID'' e)
      | Inr n \<Rightarrow> (case scan_ids rows of Inl e \<Rightarrow> Inl e | Inr ns \<Rightarrow> Inr (n # ns)))"

text \<open>\<open>multierr.Append\<close> of an error and what may be another, which is an error.\<close>

definition append_err :: "ext \<Rightarrow> err \<Rightarrow> err option \<Rightarrow> err" where
  "append_err x e r = (case multierr_append x (Some e) r of Some e' \<Rightarrow> e' | None \<Rightarrow> e)"

definition pg_CleanupStaleLocks :: "'d lock_server \<Rightarrow> ext \<Rightarrow> string \<Rightarrow> 'd world \<Rightarrow> (err + int list) \<times> 'd world" where
  "pg_CleanupStaleLocks srv x tblName w =
     (case lock_Query srv HDB (pg_cleanup_q tblName) [] w of
        (Inl e, w') \<Rightarrow> (Inl (Wrap ''cleanup stale locks'' e), w')
      | (Inr (rows, it, cl), w') \<Rightarrow>
          (case (case scan_ids rows of
                   Inl e \<Rightarrow> Inl e
                 | Inr ids \<Rightarrow>
                     (case it of Some e \<Rightarrow> Inl (Wrap ''iterate over cleaned locks'' (Msg e)) | None \<Rightarrow> Inr ids)) of
             Inl e \<Rightarrow> (Inl (append_err x e (map_option Msg cl)), w')
           | Inr ids \<Rightarrow> (case multierr_append x None (map_option Msg cl) of Some e \<Rightarrow> (Inl e, w') | None \<Rightarrow> (Inr ids, w'))))"

definition postgresStore :: "'d lock_server \<Rightarrow> ext \<Rightarrow> string \<Rightarrow> 'd lock_store" where
  "postgresStore srv x tblName =
     \<lparr>CreateLockTable = pg_CreateLockTable srv tblName,
      LockTableExists = pg_TableExists srv tblName,
      AcquireLock = pg_AcquireLock srv tblName,
      ReleaseLock = pg_ReleaseLock srv tblName,
      UpdateLease = pg_UpdateLease srv tblName,
      CheckLockStatus = pg_CheckLockStatus srv tblName,
      CleanupStaleLocks = pg_CleanupStaleLocks srv x tblName\<rparr>"

definition lock_NewPostgres :: "'d lock_server \<Rightarrow> ext \<Rightarrow> string \<Rightarrow> err + 'd lock_store" where
  "lock_NewPostgres srv x tblName =
     (if tblName = '''' then Inl (Msg ''table name must not be empty'') else Inr (postgresStore srv x tblName))"

section \<open>MySQL\<close>

subsection \<open>The statements\<close>

text \<open>The names of the schema and the table are arguments.\<close>

definition my_exists_q :: "string \<Rightarrow> string \<times> larg list" where
  "my_exists_q tblName =
     (let (schemaName, table) = lock_parseTableIdentifier tblName
      in if schemaName \<noteq> []
         then (''SELECT EXISTS ( SELECT 1 FROM information_schema.tables WHERE table_schema = ? AND table_name = ? )'',
               [LStr schemaName, LStr table])
         else (''SELECT EXISTS ( SELECT 1 FROM information_schema.tables WHERE table_schema = DATABASE() AND table_name = ? )'',
               [LStr table]))"

definition my_create_q :: "string \<Rightarrow> string" where
  "my_create_q tblName =
     ''CREATE TABLE '' @ tblName @ '' ('' @ nl @
     tab @ tab @ ''lock_id BIGINT NOT NULL PRIMARY KEY,'' @ nl @
     tab @ tab @ ''locked BOOLEAN NOT NULL DEFAULT 0,'' @ nl @
     tab @ tab @ ''locked_at DATETIME(6) NULL,'' @ nl @
     tab @ tab @ ''locked_by TEXT NULL,'' @ nl @
     tab @ tab @ ''lease_expires_at DATETIME(6) NULL,'' @ nl @
     tab @ tab @ ''updated_at DATETIME(6) NULL'' @ nl @
     tab @ '')''"

definition my_insert_q :: "string \<Rightarrow> string" where
  "my_insert_q tblName =
     ''INSERT IGNORE INTO '' @ tblName @ '' (lock_id, locked, locked_at, locked_by, lease_expires_at, updated_at)'' @ nl @
     tab @ tab @ ''VALUES (?, true, now(6), ?, now(6) + INTERVAL ? SECOND, now(6))''"

definition my_take_q :: "string \<Rightarrow> string" where
  "my_take_q tblName =
     ''UPDATE '' @ tblName @ '' SET'' @ nl @
     tab @ tab @ tab @ ''locked = true,'' @ nl @
     tab @ tab @ tab @ ''locked_at = now(6),'' @ nl @
     tab @ tab @ tab @ ''locked_by = ?,'' @ nl @
     tab @ tab @ tab @ ''lease_expires_at = now(6) + INTERVAL ? SECOND,'' @ nl @
     tab @ tab @ tab @ ''updated_at = now(6)'' @ nl @
     tab @ tab @ ''WHERE lock_id = ? AND (locked = false OR lease_expires_at < now(6))''"

definition my_select_q :: "string \<Rightarrow> string" where
  "my_select_q tblName =
     ''SELECT locked_by, lease_expires_at FROM '' @ tblName @ '' WHERE lock_id = ?''"

definition my_release_q :: "string \<Rightarrow> string" where
  "my_release_q tblName =
     ''UPDATE '' @ tblName @ '' SET'' @ nl @
     tab @ tab @ ''locked = false,'' @ nl @
     tab @ tab @ ''locked_at = NULL,'' @ nl @
     tab @ tab @ ''locked_by = NULL,'' @ nl @
     tab @ tab @ ''lease_expires_at = NULL,'' @ nl @
     tab @ tab @ ''updated_at = now(6)'' @ nl @
     tab @ ''WHERE lock_id = ? AND locked_by = ?''"

definition my_update_q :: "string \<Rightarrow> string" where
  "my_update_q tblName =
     ''UPDATE '' @ tblName @ '' SET'' @ nl @
     tab @ tab @ ''lease_expires_at = now(6) + INTERVAL ? SECOND,'' @ nl @
     tab @ tab @ ''updated_at = now(6)'' @ nl @
     tab @ ''WHERE lock_id = ? AND locked_by = ? AND locked = true''"

definition my_lease_q :: "string \<Rightarrow> string" where
  "my_lease_q tblName =
     ''SELECT lease_expires_at FROM '' @ tblName @ '' WHERE lock_id = ?''"

definition my_status_q :: "string \<Rightarrow> string" where
  "my_status_q tblName =
     ''SELECT locked, locked_by, lease_expires_at, updated_at FROM '' @ tblName @ '' WHERE lock_id = ?''"

definition my_stale_q :: "string \<Rightarrow> string" where
  "my_stale_q tblName =
     ''SELECT lock_id FROM '' @ tblName @ '' WHERE locked = true AND lease_expires_at < now(6) FOR UPDATE''"

text \<open>A question mark for each of \<open>n\<close> arguments, separated by commas.\<close>

fun placeholders :: "nat \<Rightarrow> string" where
  "placeholders 0 = ''''"
| "placeholders (Suc 0) = ''?''"
| "placeholders (Suc (Suc n)) = ''?,'' @ placeholders (Suc n)"

definition my_clear_q :: "string \<Rightarrow> nat \<Rightarrow> string" where
  "my_clear_q tblName n =
     ''UPDATE '' @ tblName @ '' SET'' @ nl @
     tab @ tab @ tab @ ''locked = false,'' @ nl @
     tab @ tab @ tab @ ''locked_at = NULL,'' @ nl @
     tab @ tab @ tab @ ''locked_by = NULL,'' @ nl @
     tab @ tab @ tab @ ''lease_expires_at = NULL,'' @ nl @
     tab @ tab @ tab @ ''updated_at = now(6)'' @ nl @
     tab @ tab @ ''WHERE lock_id IN ('' @ placeholders n @ '')''"

subsection \<open>The operations\<close>

text \<open>A transaction with the deferred roll back of a failure, which every operation of this store has.\<close>

definition in_lock_tx ::
    "ext \<Rightarrow> string \<Rightarrow> ('d world \<Rightarrow> (err + 'a) \<times> 'd world) \<Rightarrow> 'd world \<Rightarrow> (err + 'a) \<times> 'd world" where
  "in_lock_tx x what body w =
     (case BeginTx w of
        (Some e, w1) \<Rightarrow> (Inl (Wrap (what @ '': begin tx'') e), w1)
      | (None, w1) \<Rightarrow>
          (case body w1 of
             (Inr a, w2) \<Rightarrow> (Inr a, w2)
           | (Inl e, w2) \<Rightarrow> (case Rollback w2 of (r, w3) \<Rightarrow> (Inl (append_err x e r), w3))))"

text \<open>Running a statement for the number of rows it changed.\<close>

definition exec_affected ::
    "'d lock_server \<Rightarrow> string \<Rightarrow> string \<Rightarrow> larg list \<Rightarrow> 'd world \<Rightarrow> (err + nat) \<times> 'd world" where
  "exec_affected srv what q args w =
     (case lock_Exec srv HTx q args w of
        (Inl e, w1) \<Rightarrow> (Inl (Wrap what e), w1)
      | (Inr (Inl e), w1) \<Rightarrow> (Inl (Wrap (what @ '': rows affected'') (Msg e)), w1)
      | (Inr (Inr n), w1) \<Rightarrow> (Inr n, w1))"

definition commit_as :: "string \<Rightarrow> 'a \<Rightarrow> 'd world \<Rightarrow> (err + 'a) \<times> 'd world" where
  "commit_as what a w =
     (case Commit w of (Some e, w1) \<Rightarrow> (Inl (Wrap (what @ '': commit'') e), w1) | (None, w1) \<Rightarrow> (Inr a, w1))"

definition my_TableExists :: "'d lock_server \<Rightarrow> string \<Rightarrow> 'd world \<Rightarrow> (err + bool) \<times> 'd world" where
  "my_TableExists srv tblName w =
     (case my_exists_q tblName of (q, args) \<Rightarrow> scan_exists (lock_QueryRow srv HDB q args w))"

definition my_CreateLockTable :: "'d lock_server \<Rightarrow> string \<Rightarrow> 'd world \<Rightarrow> err option \<times> 'd world" where
  "my_CreateLockTable srv tblName w =
     create_lock_table srv (my_TableExists srv tblName) (my_create_q tblName) tblName w"

text \<open>The row is new, or it is taken over; without either the lock is held.\<close>

definition my_take ::
    "'d lock_server \<Rightarrow> string \<Rightarrow> int \<Rightarrow> string \<Rightarrow> int \<Rightarrow> 'd world \<Rightarrow> err option \<times> 'd world" where
  "my_take srv tblName lockID lockedBy leaseSeconds w =
     (let what = lock_msg ''acquire lock '' lockID ''''
      in case exec_affected srv what (my_insert_q tblName) [LInt lockID, LStr lockedBy, LInt leaseSeconds] w of
           (Inl e, w1) \<Rightarrow> (Some e, w1)
         | (Inr inserted, w1) \<Rightarrow>
             (if inserted \<noteq> 0 then (None, w1)
              else
                (case exec_affected srv what (my_take_q tblName) [LStr lockedBy, LInt leaseSeconds, LInt lockID] w1 of
                   (Inl e, w2) \<Rightarrow> (Some e, w2)
                 | (Inr affected, w2) \<Rightarrow>
                     (if affected = 0 then (Some (Msg (what @ '': already held by another instance'')), w2) else (None, w2)))))"

definition my_acquire_body ::
    "'d lock_server \<Rightarrow> string \<Rightarrow> int \<Rightarrow> string \<Rightarrow> duration \<Rightarrow> 'd world \<Rightarrow> (err + AcquireLockResult) \<times> 'd world" where
  "my_acquire_body srv tblName lockID lockedBy leaseDuration w =
     (let what = lock_msg ''acquire lock '' lockID ''''
      in case my_take srv tblName lockID lockedBy (duration_seconds leaseDuration) w of
           (Some e, w1) \<Rightarrow> (Inl e, w1)
         | (None, w1) \<Rightarrow>
             (case lock_QueryRow srv HTx (my_select_q tblName) [LInt lockID] w1 of
                (r, w2) \<Rightarrow>
                  (case (case r of Inl e \<Rightarrow> Inl e | Inr row \<Rightarrow> scan_lease row) of
                     Inl e \<Rightarrow> (Inl (Wrap what e), w2)
                   | Inr (returnedLockedBy, leaseExpiresAt) \<Rightarrow>
                       (case commit_as what () w2 of
                          (Inl e, w3) \<Rightarrow> (Inl e, w3)
                        | (Inr _, w3) \<Rightarrow>
                            (if returnedLockedBy \<noteq> lockedBy
                             then (Inl (wrong_owner lockID returnedLockedBy lockedBy), w3)
                             else (Inr \<lparr>ALockedBy = returnedLockedBy, ALeaseExpiresAt = leaseExpiresAt\<rparr>, w3))))))"

definition my_AcquireLock ::
    "'d lock_server \<Rightarrow> ext \<Rightarrow> string \<Rightarrow> int \<Rightarrow> string \<Rightarrow> duration \<Rightarrow> 'd world \<Rightarrow> (err + AcquireLockResult) \<times> 'd world" where
  "my_AcquireLock srv x tblName lockID lockedBy leaseDuration w =
     in_lock_tx x (lock_msg ''acquire lock '' lockID '''') (my_acquire_body srv tblName lockID lockedBy leaseDuration) w"

definition my_release_body ::
    "'d lock_server \<Rightarrow> string \<Rightarrow> int \<Rightarrow> string \<Rightarrow> 'd world \<Rightarrow> (err + ReleaseLockResult) \<times> 'd world" where
  "my_release_body srv tblName lockID lockedBy w =
     (let what = lock_msg ''release lock '' lockID ''''
      in case exec_affected srv what (my_release_q tblName) [LInt lockID, LStr lockedBy] w of
           (Inl e, w1) \<Rightarrow> (Inl e, w1)
         | (Inr affected, w1) \<Rightarrow>
             (if affected = 0 then (Inl (Msg (what @ '': not held by this instance'')), w1)
              else commit_as what \<lparr>RLockID = lockID\<rparr> w1))"

definition my_ReleaseLock ::
    "'d lock_server \<Rightarrow> ext \<Rightarrow> string \<Rightarrow> int \<Rightarrow> string \<Rightarrow> 'd world \<Rightarrow> (err + ReleaseLockResult) \<times> 'd world" where
  "my_ReleaseLock srv x tblName lockID lockedBy w =
     in_lock_tx x (lock_msg ''release lock '' lockID '''') (my_release_body srv tblName lockID lockedBy) w"

definition my_update_body ::
    "'d lock_server \<Rightarrow> string \<Rightarrow> int \<Rightarrow> string \<Rightarrow> duration \<Rightarrow> 'd world \<Rightarrow> (err + UpdateLeaseResult) \<times> 'd world" where
  "my_update_body srv tblName lockID lockedBy leaseDuration w =
     (let what = lock_msg ''failed to update lease for lock '' lockID ''''
      in case exec_affected srv what (my_update_q tblName) [LInt (duration_seconds leaseDuration), LInt lockID, LStr lockedBy] w of
           (Inl e, w1) \<Rightarrow> (Inl e, w1)
         | (Inr affected, w1) \<Rightarrow>
             (if affected = 0 then (Inl (Msg (what @ '': not held by this instance'')), w1)
              else
                (case lock_QueryRow srv HTx (my_lease_q tblName) [LInt lockID] w1 of
                   (r, w2) \<Rightarrow>
                     (case (case r of Inl e \<Rightarrow> Inl e | Inr row \<Rightarrow> (case row of [c] \<Rightarrow> cell_time c | _ \<Rightarrow> Inl scan_error)) of
                        Inl e \<Rightarrow> (Inl (Wrap what e), w2)
                      | Inr leaseExpiresAt \<Rightarrow> commit_as what \<lparr>ULeaseExpiresAt = leaseExpiresAt\<rparr> w2))))"

definition my_UpdateLease ::
    "'d lock_server \<Rightarrow> ext \<Rightarrow> string \<Rightarrow> int \<Rightarrow> string \<Rightarrow> duration \<Rightarrow> 'd world \<Rightarrow> (err + UpdateLeaseResult) \<times> 'd world" where
  "my_UpdateLease srv x tblName lockID lockedBy leaseDuration w =
     in_lock_tx x (lock_msg ''failed to update lease for lock '' lockID '''') (my_update_body srv tblName lockID lockedBy leaseDuration) w"

definition my_CheckLockStatus :: "'d lock_server \<Rightarrow> string \<Rightarrow> int \<Rightarrow> 'd world \<Rightarrow> (err + LockStatus) \<times> 'd world" where
  "my_CheckLockStatus srv tblName lockID w = check_status srv (my_status_q tblName) lockID w"

text \<open>
  The stale locks are read before they are cleared. An error of the iteration replaces the error of
  closing the rows.
\<close>

definition my_cleanup_body :: "'d lock_server \<Rightarrow> ext \<Rightarrow> string \<Rightarrow> 'd world \<Rightarrow> (err + int list) \<times> 'd world" where
  "my_cleanup_body srv x tblName w =
     (case lock_Query srv HTx (my_stale_q tblName) [] w of
        (Inl e, w1) \<Rightarrow> (Inl (Wrap ''cleanup stale locks'' e), w1)
      | (Inr (rows, it, cl), w1) \<Rightarrow>
          (case scan_ids rows of
             Inl e \<Rightarrow> (Inl (append_err x e (map_option Msg cl)), w1)
           | Inr ids \<Rightarrow>
               (case it of
                  Some e \<Rightarrow> (Inl (Wrap ''iterate over cleaned locks'' (Msg e)), w1)
                | None \<Rightarrow>
                    (case cl of
                       Some e \<Rightarrow> (Inl (Wrap ''close cleaned locks rows'' (Msg e)), w1)
                     | None \<Rightarrow>
                         (case (if ids = [] then (Inr (Inr 0), w1)
                                else lock_Exec srv HTx (my_clear_q tblName (length ids)) (map LInt ids) w1) of
                            (Inl e, w2) \<Rightarrow> (Inl (Wrap ''cleanup stale locks'' e), w2)
                          | (Inr _, w2) \<Rightarrow> commit_as ''cleanup stale locks'' ids w2)))))"

definition my_CleanupStaleLocks :: "'d lock_server \<Rightarrow> ext \<Rightarrow> string \<Rightarrow> 'd world \<Rightarrow> (err + int list) \<times> 'd world" where
  "my_CleanupStaleLocks srv x tblName w = in_lock_tx x ''cleanup stale locks'' (my_cleanup_body srv x tblName) w"

definition mysqlStore :: "'d lock_server \<Rightarrow> ext \<Rightarrow> string \<Rightarrow> 'd lock_store" where
  "mysqlStore srv x tblName =
     \<lparr>CreateLockTable = my_CreateLockTable srv tblName,
      LockTableExists = my_TableExists srv tblName,
      AcquireLock = my_AcquireLock srv x tblName,
      ReleaseLock = my_ReleaseLock srv x tblName,
      UpdateLease = my_UpdateLease srv x tblName,
      CheckLockStatus = my_CheckLockStatus srv tblName,
      CleanupStaleLocks = my_CleanupStaleLocks srv x tblName\<rparr>"

definition NewMySQL :: "'d lock_server \<Rightarrow> ext \<Rightarrow> string \<Rightarrow> err + 'd lock_store" where
  "NewMySQL srv x tblName =
     (if tblName = '''' then Inl (Msg ''table name must not be empty'') else Inr (mysqlStore srv x tblName))"

end
