(* ===== verification/Lock_Contract.thy ===== *)
theory Lock_Contract
  imports Lock_Store
begin

text \<open>
  What the interface \<open>LockStore\<close> promises, as operations on an abstract lock table with a clock, and
  the proof that the stores for PostgreSQL and MySQL keep the promise over every server that gives
  their statements the meaning of SQL. A call that fails may have taken effect on the server; it then
  had the effect of a call that succeeds.
\<close>

section \<open>The lock table as a specification\<close>

record lock_row =
  row_locked :: bool
  row_by :: "string option"
  row_lease :: "int option"

type_synonym lock_table = "int \<Rightarrow> lock_row option"

definition row_cleared :: lock_row where
  "row_cleared = \<lparr>row_locked = False, row_by = None, row_lease = None\<rparr>"

definition expired :: "int \<Rightarrow> lock_row \<Rightarrow> bool" where
  "expired t r \<longleftrightarrow> (case row_lease r of None \<Rightarrow> False | Some l \<Rightarrow> l < t)"

definition stale :: "int \<Rightarrow> lock_row \<Rightarrow> bool" where
  "stale t r \<longleftrightarrow> row_locked r \<and> expired t r"

definition acquirable :: "int \<Rightarrow> int \<Rightarrow> lock_table \<Rightarrow> bool" where
  "acquirable lockID t T \<longleftrightarrow> (case T lockID of None \<Rightarrow> True | Some r \<Rightarrow> \<not> row_locked r \<or> expired t r)"

text \<open>The clock of the server counts microseconds.\<close>

definition lease_end :: "int \<Rightarrow> duration \<Rightarrow> int" where
  "lease_end t d = t + duration_seconds d * 1000000"

definition lt_acquire :: "int \<Rightarrow> string \<Rightarrow> duration \<Rightarrow> int \<Rightarrow> lock_table \<Rightarrow> lock_table" where
  "lt_acquire lockID who d t T = T(lockID \<mapsto> \<lparr>row_locked = True, row_by = Some who, row_lease = Some (lease_end t d)\<rparr>)"

definition owned :: "int \<Rightarrow> string \<Rightarrow> lock_table \<Rightarrow> bool" where
  "owned lockID who T \<longleftrightarrow> (case T lockID of None \<Rightarrow> False | Some r \<Rightarrow> row_by r = Some who)"

definition lt_release :: "int \<Rightarrow> lock_table \<Rightarrow> lock_table" where
  "lt_release lockID T = T(lockID \<mapsto> row_cleared)"

definition renewable :: "int \<Rightarrow> string \<Rightarrow> lock_table \<Rightarrow> bool" where
  "renewable lockID who T \<longleftrightarrow> (case T lockID of None \<Rightarrow> False | Some r \<Rightarrow> row_by r = Some who \<and> row_locked r)"

definition lt_renew :: "int \<Rightarrow> duration \<Rightarrow> int \<Rightarrow> lock_table \<Rightarrow> lock_table" where
  "lt_renew lockID d t T =
     (case T lockID of None \<Rightarrow> T | Some r \<Rightarrow> T(lockID \<mapsto> r\<lparr>row_lease := Some (lease_end t d)\<rparr>))"

definition lt_cleanup :: "int \<Rightarrow> lock_table \<Rightarrow> lock_table" where
  "lt_cleanup t T = (\<lambda>i. map_option (\<lambda>r. if stale t r then row_cleared else r) (T i))"

definition stale_ids :: "int \<Rightarrow> lock_table \<Rightarrow> int set" where
  "stale_ids t T = {i. \<exists>r. T i = Some r \<and> stale t r}"

definition status_of :: "lock_row \<Rightarrow> LockStatus \<Rightarrow> bool" where
  "status_of r s \<longleftrightarrow> StLocked s = row_locked r \<and> StLockedBy s = row_by r \<and> StLeaseExpiresAt s = row_lease r"

section \<open>The contract\<close>

definition lock_quiet :: "('d \<Rightarrow> int) \<Rightarrow> ('d \<Rightarrow> 'o) \<Rightarrow> 'd world \<Rightarrow> 'd world \<Rightarrow> bool" where
  "lock_quiet now other w w' \<longleftrightarrow>
     calm w w' \<and> now (committed w') = now (committed w) \<and> other (committed w') = other (committed w)"

definition quiet_op :: "('d \<Rightarrow> int) \<Rightarrow> ('d \<Rightarrow> 'o) \<Rightarrow> ('d world \<Rightarrow> 'r \<times> 'd world) \<Rightarrow> bool" where
  "quiet_op now other p \<longleftrightarrow> (\<forall>w. txn w = None \<longrightarrow> lock_quiet now other w (snd (p w)))"

text \<open>
  An operation with a condition, an effect and a result: without an error the condition held and the
  effect took place; with an error the table is as it was or the effect took place all the same; with
  a healthy driver it fails when the condition does not hold and does not fail when it surely holds.
\<close>

definition table_op ::
    "('d \<Rightarrow> lock_table option) \<Rightarrow> ('d \<Rightarrow> int) \<Rightarrow> (int \<Rightarrow> lock_table \<Rightarrow> bool) \<Rightarrow> (int \<Rightarrow> lock_table \<Rightarrow> bool) \<Rightarrow>
     (int \<Rightarrow> lock_table \<Rightarrow> lock_table) \<Rightarrow> (int \<Rightarrow> lock_table \<Rightarrow> 'a \<Rightarrow> bool) \<Rightarrow>
     ('d world \<Rightarrow> (err + 'a) \<times> 'd world) \<Rightarrow> bool" where
  "table_op tbl_of now cond sure eff res p \<longleftrightarrow>
     (\<forall>w T r w'. txn w = None \<and> tbl_of (committed w) = Some T \<and> p w = (r, w') \<longrightarrow>
        (case r of
           Inr a \<Rightarrow> cond (now (committed w)) T \<and> tbl_of (committed w') = Some (eff (now (committed w)) T) \<and>
             res (now (committed w)) T a
         | Inl e \<Rightarrow> tbl_of (committed w') = Some T \<or>
             cond (now (committed w)) T \<and> tbl_of (committed w') = Some (eff (now (committed w)) T)) \<and>
        (faults w = [] \<longrightarrow> (sure (now (committed w)) T \<longrightarrow> \<not> isl r) \<and> (\<not> cond (now (committed w)) T \<longrightarrow> isl r)))"

locale lock_table_store =
  fixes st :: "'d lock_store" and tbl_of :: "'d \<Rightarrow> lock_table option" and now :: "'d \<Rightarrow> int" and other :: "'d \<Rightarrow> 'o"
  assumes create_quiet: "quiet_op now other (CreateLockTable st)"
    and create_ok: "txn w = None \<Longrightarrow> CreateLockTable st w = (None, w') \<Longrightarrow>
      tbl_of (committed w') = Some (case tbl_of (committed w) of None \<Rightarrow> Map.empty | Some T \<Rightarrow> T)"
    and create_err: "txn w = None \<Longrightarrow> CreateLockTable st w = (Some e, w') \<Longrightarrow>
      tbl_of (committed w') \<in> {tbl_of (committed w), Some (case tbl_of (committed w) of None \<Rightarrow> Map.empty | Some T \<Rightarrow> T)}"
    and create_healthy: "txn w = None \<Longrightarrow> faults w = [] \<Longrightarrow> fst (CreateLockTable st w) = None"
    and acquire_quiet: "quiet_op now other (AcquireLock st lockID who d)"
    and acquire_op: "table_op tbl_of now (acquirable lockID) (acquirable lockID) (lt_acquire lockID who d)
      (\<lambda>t T a. ALockedBy a = who \<and> ALeaseExpiresAt a = lease_end t d) (AcquireLock st lockID who d)"
    and acquire_none: "txn w = None \<Longrightarrow> tbl_of (committed w) = None \<Longrightarrow> isl (fst (AcquireLock st lockID who d w))"
    and release_quiet: "quiet_op now other (ReleaseLock st lockID who)"
    and release_op: "table_op tbl_of now (\<lambda>t. owned lockID who) (\<lambda>t. owned lockID who) (\<lambda>t. lt_release lockID)
      (\<lambda>t T a. RLockID a = lockID) (ReleaseLock st lockID who)"
    and update_quiet: "quiet_op now other (UpdateLease st lockID who d)"
    and update_op: "table_op tbl_of now (\<lambda>t. renewable lockID who)
      (\<lambda>t T. renewable lockID who T \<and> lt_renew lockID d t T \<noteq> T) (lt_renew lockID d)
      (\<lambda>t T a. ULeaseExpiresAt a = lease_end t d) (UpdateLease st lockID who d)"
    and update_none: "txn w = None \<Longrightarrow> tbl_of (committed w) = None \<Longrightarrow> isl (fst (UpdateLease st lockID who d w))"
    and status_quiet: "quiet_op now other (CheckLockStatus st lockID)"
    and status_op: "table_op tbl_of now (\<lambda>t T. T lockID \<noteq> None) (\<lambda>t T. T lockID \<noteq> None) (\<lambda>t T. T)
      (\<lambda>t T s. \<exists>r. T lockID = Some r \<and> status_of r s) (CheckLockStatus st lockID)"
    and cleanup_quiet: "quiet_op now other (CleanupStaleLocks st)"
    and cleanup_op: "table_op tbl_of now (\<lambda>t T. True) (\<lambda>t T. True) lt_cleanup
      (\<lambda>t T ids. set ids = stale_ids t T) (CleanupStaleLocks st)"

lemma table_opD:
  assumes "table_op tbl_of now cond sure eff res p" and "txn w = None" and "tbl_of (committed w) = Some T" and "p w = (r, w')"
  shows "r = Inr a \<Longrightarrow> cond (now (committed w)) T \<and> tbl_of (committed w') = Some (eff (now (committed w)) T) \<and> res (now (committed w)) T a"
    and "r = Inl e \<Longrightarrow> tbl_of (committed w') = Some T \<or>
      cond (now (committed w)) T \<and> tbl_of (committed w') = Some (eff (now (committed w)) T)"
    and "faults w = [] \<Longrightarrow> sure (now (committed w)) T \<Longrightarrow> \<exists>a. r = Inr a"
    and "faults w = [] \<Longrightarrow> \<not> cond (now (committed w)) T \<Longrightarrow> \<exists>e. r = Inl e"
proof -
  have l: "(case r of
         Inr a \<Rightarrow> cond (now (committed w)) T \<and> tbl_of (committed w') = Some (eff (now (committed w)) T) \<and>
           res (now (committed w)) T a
       | Inl e \<Rightarrow> tbl_of (committed w') = Some T \<or>
           cond (now (committed w)) T \<and> tbl_of (committed w') = Some (eff (now (committed w)) T)) \<and>
      (faults w = [] \<longrightarrow> (sure (now (committed w)) T \<longrightarrow> \<not> isl r) \<and> (\<not> cond (now (committed w)) T \<longrightarrow> isl r))"
    using assms unfolding table_op_def by blast
  show "cond (now (committed w)) T \<and> tbl_of (committed w') = Some (eff (now (committed w)) T) \<and> res (now (committed w)) T a"
    if "r = Inr a" using l that by simp
  show "tbl_of (committed w') = Some T \<or> cond (now (committed w)) T \<and> tbl_of (committed w') = Some (eff (now (committed w)) T)"
    if "r = Inl e" using l that by simp
  show "\<exists>a. r = Inr a" if "faults w = []" "sure (now (committed w)) T" using l that by (cases r) auto
  show "\<exists>e. r = Inl e" if "faults w = []" "\<not> cond (now (committed w)) T" using l that by (cases r) auto
qed

lemma quiet_opD: "quiet_op now other p \<Longrightarrow> txn w = None \<Longrightarrow> p w = (r, w') \<Longrightarrow> lock_quiet now other w w'"
  by (metis quiet_op_def snd_conv)

lemma lock_quiet_trans: "lock_quiet now other w w' \<Longrightarrow> lock_quiet now other w' w'' \<Longrightarrow> lock_quiet now other w w''"
  by (auto simp: lock_quiet_def intro: calm_trans)

section \<open>Calls of the driver\<close>

text \<open>A call outside a transaction, and one inside.\<close>

lemma call_db:
  assumes "call HDB f w = (r, w')" and "txn w = None" and "f (committed w) = (a, d)"
  shows "calm w w'" and "committed w' \<in> {committed w, d}"
    and "r = a \<and> committed w' = d \<or> (\<exists>e. r = Inl (Msg e)) \<and> faults w \<noteq> []"
  using assms by (auto simp: call_def usable_def next_fault_def cur_def put_def calm_def split: list.splits fault.splits prod.splits)

lemma call_tx:
  assumes "call HTx f w = (r, w')" and "txn w = Some d0" and "f d0 = (a, d)"
  shows "committed w' = committed w" and "conns w' = conns w" and "faults w = [] \<Longrightarrow> faults w' = []" and "\<exists>d1. txn w' = Some d1"
    and "r = a \<and> txn w' = Some d \<or> (\<exists>e. r = Inl (Msg e)) \<and> faults w \<noteq> []"
  using assms by (auto simp: call_def usable_def next_fault_def cur_def put_def split: list.splits fault.splits prod.splits)

definition keeps :: "('d \<Rightarrow> int) \<Rightarrow> ('d \<Rightarrow> 'o) \<Rightarrow> ('d \<Rightarrow> 'r \<times> 'd) \<Rightarrow> bool" where
  "keeps now other f \<longleftrightarrow> (\<forall>d. now (snd (f d)) = now d \<and> other (snd (f d)) = other d)"

lemma call_db_quiet:
  assumes "call HDB f w = (r, w')" and "txn w = None" and "keeps now other f"
  shows "lock_quiet now other w w'"
proof -
  obtain a d where f: "f (committed w) = (a, d)" by fastforce
  have "now d = now (committed w) \<and> other d = other (committed w)" using assms(3) f unfolding keeps_def by (metis snd_conv)
  with call_db [OF assms(1,2) f] show ?thesis by (auto simp: lock_quiet_def)
qed

lemma driver_error_snd [simp]: "snd (driver_error p) = snd p"
  by (auto simp: driver_error_def split: prod.splits sum.splits)

lemma keeps_driver [simp]: "keeps now other (\<lambda>d. driver_error (f d)) \<longleftrightarrow> keeps now other f"
  by (simp add: keeps_def)

lemma query_row_quiet:
  assumes "lock_QueryRow srv HDB q args w = (r, w')" and "txn w = None" and "keeps now other (ls_query srv q args)"
  shows "lock_quiet now other w w'"
proof -
  obtain r1 w1 where c: "lock_Query srv HDB q args w = (r1, w1)" by fastforce
  have "w' = w1" using assms(1) c by (auto simp: lock_QueryRow_def split: sum.splits list.splits option.splits prod.splits)
  with call_db_quiet [OF c [unfolded lock_Query_def] assms(2), of now other] assms(3) show ?thesis by simp
qed

text \<open>The first of the rows of a query the server answers.\<close>

definition first_row :: "lcell list list \<Rightarrow> err + lcell list" where
  "first_row rows = (case rows of [] \<Rightarrow> Inl (Sent ErrNoRows) | x # _ \<Rightarrow> Inr x)"

lemma query_row_db:
  assumes "lock_QueryRow srv HDB q args w = (r, w')" and "txn w = None"
    and "ls_query srv q args (committed w) = (Inr (rows, None, None), d)"
  shows "committed w' \<in> {committed w, d}"
    and "r = first_row rows \<and> committed w' = d \<or> (\<exists>e. r = Inl (Msg e)) \<and> faults w \<noteq> []"
proof -
  obtain r1 w1 where c: "lock_Query srv HDB q args w = (r1, w1)" by fastforce
  have f: "driver_error (ls_query srv q args (committed w)) = (Inr (rows, None, None), d)" using assms(3) by (simp add: driver_error_def)
  note c' = call_db [OF c [unfolded lock_Query_def] assms(2) f]
  have w': "w' = w1" using assms(1) c by (auto simp: lock_QueryRow_def split: sum.splits list.splits option.splits prod.splits)
  show "committed w' \<in> {committed w, d}" using c'(2) w' by simp
  from c'(3) show "r = first_row rows \<and> committed w' = d \<or> (\<exists>e. r = Inl (Msg e)) \<and> faults w \<noteq> []"
    using assms(1) c w' by (auto simp: lock_QueryRow_def first_row_def split: list.splits)
qed

lemma query_row_tx:
  assumes "lock_QueryRow srv HTx q args w = (r, w')" and "txn w = Some d0"
    and "ls_query srv q args d0 = (Inr (rows, None, None), d)"
  shows "committed w' = committed w" and "conns w' = conns w" and "faults w = [] \<Longrightarrow> faults w' = []" and "\<exists>d1. txn w' = Some d1"
    and "r = first_row rows \<and> txn w' = Some d \<or> (\<exists>e. r = Inl (Msg e)) \<and> faults w \<noteq> []"
proof -
  obtain r1 w1 where c: "lock_Query srv HTx q args w = (r1, w1)" by fastforce
  have f: "driver_error (ls_query srv q args d0) = (Inr (rows, None, None), d)" using assms(3) by (simp add: driver_error_def)
  note c' = call_tx [OF c [unfolded lock_Query_def] assms(2) f]
  have w': "w' = w1" using assms(1) c by (auto simp: lock_QueryRow_def split: sum.splits list.splits option.splits prod.splits)
  show "committed w' = committed w" "conns w' = conns w" "faults w = [] \<Longrightarrow> faults w' = []" "\<exists>d1. txn w' = Some d1"
    using c'(1-4) w' by auto
  from c'(5) show "r = first_row rows \<and> txn w' = Some d \<or> (\<exists>e. r = Inl (Msg e)) \<and> faults w \<noteq> []"
    using assms(1) c w' by (auto simp: lock_QueryRow_def first_row_def split: list.splits)
qed

section \<open>PostgreSQL\<close>

definition opt_cell :: "('a \<Rightarrow> lcell) \<Rightarrow> 'a option \<Rightarrow> lcell" where
  "opt_cell f x = (case x of None \<Rightarrow> CNull | Some a \<Rightarrow> f a)"

definition row_cells :: "lock_row \<Rightarrow> int option \<Rightarrow> lcell list" where
  "row_cells r u = [CBool (row_locked r), opt_cell CStr (row_by r), opt_cell CTime (row_lease r), opt_cell CTime u]"

text \<open>
  A server that gives the statements of the PostgreSQL store their meaning on a view of its state,
  and whose other parts (and clock) these statements leave alone. A statement on a missing table is
  an error.
\<close>

locale pg_lock_server =
  fixes srv :: "'d lock_server" and tbl :: string and tbl_of :: "'d \<Rightarrow> lock_table option" and now :: "'d \<Rightarrow> int"
    and other :: "'d \<Rightarrow> 'o"
  assumes keeps_create: "keeps now other (ls_exec srv (pg_create_q tbl) args)"
    and keeps_query: "q \<in> {pg_exists_q tbl, pg_acquire_q tbl, pg_release_q tbl, pg_update_q tbl, pg_status_q tbl, pg_cleanup_q tbl} \<Longrightarrow>
      keeps now other (ls_query srv q args)"
    and pg_missing: "tbl_of d = None \<Longrightarrow> q \<in> {pg_acquire_q tbl, pg_update_q tbl} \<Longrightarrow> \<exists>e d'. ls_query srv q args d = (Inl e, d')"
    and pg_exists: "\<exists>d'. ls_query srv (pg_exists_q tbl) [] d = (Inr ([[CBool (tbl_of d \<noteq> None)]], None, None), d') \<and> tbl_of d' = tbl_of d"
    and pg_create: "tbl_of d = None \<Longrightarrow> \<exists>n d'. ls_exec srv (pg_create_q tbl) [] d = (Inr n, d') \<and> tbl_of d' = Some Map.empty"
    and pg_acquire: "tbl_of d = Some T \<Longrightarrow> \<exists>d'. ls_query srv (pg_acquire_q tbl) [LInt i, LStr who, LStr (FormatInt n @ '' seconds'')] d =
        (Inr (if acquirable i (now d) T then [[CStr who, CTime (now d + n * 1000000)]] else [], None, None), d') \<and>
      tbl_of d' = Some (if acquirable i (now d) T
        then T(i \<mapsto> \<lparr>row_locked = True, row_by = Some who, row_lease = Some (now d + n * 1000000)\<rparr>) else T)"
    and pg_release: "tbl_of d = Some T \<Longrightarrow> \<exists>d'. ls_query srv (pg_release_q tbl) [LInt i, LStr who] d =
        (Inr (if owned i who T then [[CInt i]] else [], None, None), d') \<and>
      tbl_of d' = Some (if owned i who T then lt_release i T else T)"
    and pg_update: "tbl_of d = Some T \<Longrightarrow> \<exists>d'. ls_query srv (pg_update_q tbl) [LStr (FormatInt n @ '' seconds''), LInt i, LStr who] d =
        (Inr (if renewable i who T then [[CTime (now d + n * 1000000)]] else [], None, None), d') \<and>
      tbl_of d' = Some (case T i of Some r \<Rightarrow>
        if renewable i who T then T(i \<mapsto> r\<lparr>row_lease := Some (now d + n * 1000000)\<rparr>) else T | None \<Rightarrow> T)"
    and pg_status: "tbl_of d = Some T \<Longrightarrow> \<exists>u d'. ls_query srv (pg_status_q tbl) [LInt i] d =
        (Inr (case T i of None \<Rightarrow> [] | Some r \<Rightarrow> [row_cells r u], None, None), d') \<and> tbl_of d' = Some T"
    and pg_cleanup: "tbl_of d = Some T \<Longrightarrow> \<exists>ids d'. ls_query srv (pg_cleanup_q tbl) [] d =
        (Inr (map (\<lambda>i. [CInt i]) ids, None, None), d') \<and> set ids = stale_ids (now d) T \<and> tbl_of d' = Some (lt_cleanup (now d) T)"

lemmas cell_defs = cell_int_def cell_bool_def cell_str_def cell_time_def

lemma scan_ids_ints [simp]: "scan_ids (map (\<lambda>i. [CInt i]) ids) = Inr ids"
  by (induction ids) (simp_all add: cell_int_def)

lemma scan_status_row [simp]: "\<exists>s. scan_status (row_cells r u) = Inr s \<and> status_of r s"
  by (cases "row_by r"; cases "row_lease r"; cases u)
    (simp_all add: scan_status_def row_cells_def opt_cell_def cell_opt_def cell_defs status_of_def)

lemma quiet_opI: "(\<And>w r w'. txn w = None \<Longrightarrow> p w = (r, w') \<Longrightarrow> lock_quiet now other w w') \<Longrightarrow> quiet_op now other p"
  unfolding quiet_op_def by (metis surj_pair snd_conv)

lemma table_opI:
  assumes "\<And>w T r w'. txn w = None \<Longrightarrow> tbl_of (committed w) = Some T \<Longrightarrow> p w = (r, w') \<Longrightarrow>
      (case r of
         Inr a \<Rightarrow> cond (now (committed w)) T \<and> tbl_of (committed w') = Some (eff (now (committed w)) T) \<and>
           res (now (committed w)) T a
       | Inl e \<Rightarrow> tbl_of (committed w') = Some T \<or>
           cond (now (committed w)) T \<and> tbl_of (committed w') = Some (eff (now (committed w)) T)) \<and>
      (faults w = [] \<longrightarrow> (sure (now (committed w)) T \<longrightarrow> \<not> isl r) \<and> (\<not> cond (now (committed w)) T \<longrightarrow> isl r))"
  shows "table_op tbl_of now cond sure eff res p"
  using assms unfolding table_op_def by blast

text \<open>Creating the table, for a look-up and a statement that do what they say.\<close>

definition looks_up :: "('d \<Rightarrow> lock_table option) \<Rightarrow> ('d \<Rightarrow> int) \<Rightarrow> ('d \<Rightarrow> 'o) \<Rightarrow> ('d world \<Rightarrow> (err + bool) \<times> 'd world) \<Rightarrow> bool" where
  "looks_up tbl_of now other p \<longleftrightarrow> (\<forall>w r w'. txn w = None \<and> p w = (r, w') \<longrightarrow>
     lock_quiet now other w w' \<and> tbl_of (committed w') = tbl_of (committed w) \<and>
     (r = Inr (tbl_of (committed w) \<noteq> None) \<or> isl r \<and> faults w \<noteq> []))"

lemma looks_upD:
  assumes "looks_up tbl_of now other p" and "txn w = None" and "p w = (r, w')"
  shows "lock_quiet now other w w'" and "tbl_of (committed w') = tbl_of (committed w)"
    and "r = Inr (tbl_of (committed w) \<noteq> None) \<or> isl r \<and> faults w \<noteq> []"
  using assms unfolding looks_up_def by blast+

lemma create_lock_table_laws:
  assumes "looks_up tbl_of now other ex" and "keeps now other (ls_exec srv q [])"
    and "\<And>d. tbl_of d = None \<Longrightarrow> \<exists>n d'. ls_exec srv q [] d = (Inr n, d') \<and> tbl_of d' = Some Map.empty"
    and "txn w = None" and "create_lock_table srv ex q tbl w = (r, w')"
  shows "lock_quiet now other w w'"
    and "tbl_of (committed w') \<in> {tbl_of (committed w), Some (case tbl_of (committed w) of None \<Rightarrow> Map.empty | Some T \<Rightarrow> T)}"
    and "r = None \<Longrightarrow> tbl_of (committed w') = Some (case tbl_of (committed w) of None \<Rightarrow> Map.empty | Some T \<Rightarrow> T)"
    and "faults w = [] \<Longrightarrow> r = None"
proof -
  obtain r1 w1 where e1: "ex w = (r1, w1)" by fastforce
  note l1 = looks_upD [OF assms(1,4) e1]
  have t1: "txn w1 = None" using l1(1) by (simp add: lock_quiet_def calm_def)
  have "lock_quiet now other w w' \<and>
      tbl_of (committed w') \<in> {tbl_of (committed w), Some (case tbl_of (committed w) of None \<Rightarrow> Map.empty | Some T \<Rightarrow> T)} \<and>
      (r = None \<longrightarrow> tbl_of (committed w') = Some (case tbl_of (committed w) of None \<Rightarrow> Map.empty | Some T \<Rightarrow> T)) \<and>
      (faults w = [] \<longrightarrow> r = None)"
  proof (cases "r1 = Inr False")
    case True
    then have none: "tbl_of (committed w) = None" using l1(3) by auto
    obtain r2 w2 where x: "lock_Exec srv HDB q [] w1 = (r2, w2)" by fastforce
    obtain n d' where d': "ls_exec srv q [] (committed w1) = (Inr n, d')" "tbl_of d' = Some Map.empty"
      using assms(3) [of "committed w1"] l1(2) none by auto
    have f: "driver_error (ls_exec srv q [] (committed w1)) = (Inr n, d')" using d'(1) by (simp add: driver_error_def)
    note c = call_db [OF x [unfolded lock_Exec_def] t1 f]
    have q2: "lock_quiet now other w1 w2" using call_db_quiet [OF x [unfolded lock_Exec_def] t1] assms(2) by simp
    have t2: "txn w2 = None" using c(1) by (simp add: calm_def)
    have b2: "tbl_of (committed w2) \<in> {None, Some Map.empty}" using c(2) d'(2) l1(2) none by auto
    obtain r3 w3 where e3: "ex w2 = (r3, w3)" by fastforce
    note l3 = looks_upD [OF assms(1) t2 e3]
    have "r2 = Inr n \<and> w' = w2 \<and> r = None \<and> committed w2 = d' \<or>
        (\<exists>e. r2 = Inl e) \<and> w' = w3 \<and> (r = None \<longleftrightarrow> r3 = Inr True) \<and> faults w1 \<noteq> []"
      using assms(5) e1 True x e3 c(3) by (auto simp: create_lock_table_def split: sum.splits bool.splits)
    then show ?thesis
    proof (elim disjE conjE)
      assume "w' = w2" "r = None" "committed w2 = d'"
      then show ?thesis using lock_quiet_trans [OF l1(1) q2] d'(2) none by simp
    next
      assume a: "w' = w3" "r = None \<longleftrightarrow> r3 = Inr True" "faults w1 \<noteq> []"
      have "faults w \<noteq> []" using a(3) l1(1) by (auto simp: lock_quiet_def calm_def)
      then show ?thesis using a(1,2) lock_quiet_trans [OF lock_quiet_trans [OF l1(1) q2] l3(1)] l3(2,3) b2 none by auto
    qed
  next
    case False
    then have "w' = w1 \<and> (r = None \<longleftrightarrow> r1 = Inr True)" using assms(5) e1
      by (auto simp: create_lock_table_def split: sum.splits bool.splits)
    then show ?thesis using False l1 by auto
  qed
  then show "lock_quiet now other w w'"
    and "tbl_of (committed w') \<in> {tbl_of (committed w), Some (case tbl_of (committed w) of None \<Rightarrow> Map.empty | Some T \<Rightarrow> T)}"
    and "r = None \<Longrightarrow> tbl_of (committed w') = Some (case tbl_of (committed w) of None \<Rightarrow> Map.empty | Some T \<Rightarrow> T)"
    and "faults w = [] \<Longrightarrow> r = None" by blast+
qed

text \<open>A look-up by a query for the table.\<close>

lemma looks_up_query:
  assumes "\<And>d. \<exists>d'. ls_query srv q args d = (Inr ([[CBool (tbl_of d \<noteq> None)]], None, None), d') \<and> tbl_of d' = tbl_of d"
    and "keeps now other (ls_query srv q args)"
  shows "looks_up tbl_of now other (\<lambda>w. scan_exists (lock_QueryRow srv HDB q args w))"
proof (unfold looks_up_def, intro allI impI)
  fix w r w' assume w: "txn w = None \<and> scan_exists (lock_QueryRow srv HDB q args w) = (r, w')"
  obtain r1 w1 where q: "lock_QueryRow srv HDB q args w = (r1, w1)" by fastforce
  obtain d' where d': "ls_query srv q args (committed w) = (Inr ([[CBool (tbl_of (committed w) \<noteq> None)]], None, None), d')"
    "tbl_of d' = tbl_of (committed w)" using assms(1) by blast
  have w': "w' = w1" using w q by (auto simp: scan_exists_def split: sum.splits)
  note c = query_row_db [OF q _ d'(1)]
  have "lock_quiet now other w w1" using query_row_quiet [OF q _ assms(2)] w by simp
  moreover have "tbl_of (committed w1) = tbl_of (committed w)" using c(1) d'(2) w by auto
  moreover have "r = Inr (tbl_of (committed w) \<noteq> None) \<or> isl r \<and> faults w \<noteq> []"
    using c(2) w q by (auto simp: scan_exists_def first_row_def cell_defs)
  ultimately show "lock_quiet now other w w' \<and> tbl_of (committed w') = tbl_of (committed w) \<and>
     (r = Inr (tbl_of (committed w) \<noteq> None) \<or> isl r \<and> faults w \<noteq> [])" using w' by simp
qed

text \<open>An operation that is one query for one row, whose effect and answer depend on a condition.\<close>

lemma query_table_op:
  assumes "\<And>d T. tbl_of d = Some T \<Longrightarrow> \<exists>row d'. ls_query srv q args d =
        (Inr (if cond (now d) T then [row] else [], None, None), d') \<and>
      tbl_of d' = Some (if cond (now d) T then eff (now d) T else T) \<and>
      (cond (now d) T \<longrightarrow> (\<exists>a. ans row = Inr a \<and> res (now d) T a))"
    and "\<And>w r w'. p w = (r, w') \<Longrightarrow> \<exists>r1. lock_QueryRow srv HDB q args w = (r1, w') \<and>
      (\<forall>row a. r1 = Inr row \<and> ans row = Inr a \<longrightarrow> r = Inr a) \<and> (\<forall>e. r1 = Inl e \<longrightarrow> isl r)"
    and "\<And>t T. sure t T \<Longrightarrow> cond t T"
  shows "table_op tbl_of now cond sure eff res p"
proof (rule table_opI)
  fix w T r w' assume w: "txn w = None" "tbl_of (committed w) = Some T" "p w = (r, w')"
  let ?t = "now (committed w)"
  obtain row d' where d': "ls_query srv q args (committed w) = (Inr (if cond ?t T then [row] else [], None, None), d')"
    "tbl_of d' = Some (if cond ?t T then eff ?t T else T)" "cond ?t T \<longrightarrow> (\<exists>a. ans row = Inr a \<and> res ?t T a)"
    using assms(1) [OF w(2)] by blast
  obtain r1 where r1: "lock_QueryRow srv HDB q args w = (r1, w')" "\<forall>row a. r1 = Inr row \<and> ans row = Inr a \<longrightarrow> r = Inr a"
    "\<forall>e. r1 = Inl e \<longrightarrow> isl r" using assms(2) [OF w(3)] by blast
  note c = query_row_db [OF r1(1) w(1) d'(1)]
  have b: "tbl_of (committed w') \<in> {Some T, tbl_of d'}" using c(1) w(2) by auto
  from c(2) show "(case r of
         Inr a \<Rightarrow> cond ?t T \<and> tbl_of (committed w') = Some (eff ?t T) \<and> res ?t T a
       | Inl e \<Rightarrow> tbl_of (committed w') = Some T \<or> cond ?t T \<and> tbl_of (committed w') = Some (eff ?t T)) \<and>
      (faults w = [] \<longrightarrow> (sure ?t T \<longrightarrow> \<not> isl r) \<and> (\<not> cond ?t T \<longrightarrow> isl r))"
  proof (elim disjE conjE exE)
    assume a: "r1 = first_row (if cond ?t T then [row] else [])" "committed w' = d'"
    show ?thesis
    proof (cases "cond ?t T")
      case True
      then obtain a where "r = Inr a" "res ?t T a" using a(1) d'(3) r1(2) by (auto simp: first_row_def)
      with True a(2) d'(2) show ?thesis by simp
    next
      case False
      then have "isl r" using a(1) r1(3) by (simp add: first_row_def)
      with False a(2) d'(2) assms(3) [of ?t T] show ?thesis by (auto split: sum.splits)
    qed
  next
    fix e assume a: "r1 = Inl (Msg e)" "faults w \<noteq> []"
    then have "isl r" using r1(3) by simp
    with a b d'(2) show ?thesis by (auto split: sum.splits if_splits)
  qed
qed

lemma check_status_op:
  assumes "\<And>d T. tbl_of d = Some T \<Longrightarrow> \<exists>u d'. ls_query srv q [LInt i] d =
     (Inr (case T i of None \<Rightarrow> [] | Some r \<Rightarrow> [row_cells r u], None, None), d') \<and> tbl_of d' = Some T"
  shows "table_op tbl_of now (\<lambda>t T. T i \<noteq> None) (\<lambda>t T. T i \<noteq> None) (\<lambda>t T. T)
    (\<lambda>t T s. \<exists>r. T i = Some r \<and> status_of r s) (check_status srv q i)"
proof (rule query_table_op [where ans = scan_status and q = q and args = "[LInt i]" and srv = srv])
  fix D T assume "tbl_of D = Some T"
  then obtain u d' where d': "ls_query srv q [LInt i] D = (Inr (case T i of None \<Rightarrow> [] | Some r \<Rightarrow> [row_cells r u], None, None), d')"
    "tbl_of d' = Some T" using assms by blast
  obtain s where s: "T i \<noteq> None \<longrightarrow> scan_status (row_cells (the (T i)) u) = Inr s \<and> status_of (the (T i)) s"
    using scan_status_row by blast
  have "ls_query srv q [LInt i] D = (Inr (if T i \<noteq> None then [row_cells (the (T i)) u] else [], None, None), d')"
    using d'(1) by (auto split: option.splits)
  moreover have "T i \<noteq> None \<longrightarrow> (\<exists>a. scan_status (row_cells (the (T i)) u) = Inr a \<and> (\<exists>r. T i = Some r \<and> status_of r a))"
    using s by auto
  ultimately show "\<exists>row d'. ls_query srv q [LInt i] D = (Inr (if T i \<noteq> None then [row] else [], None, None), d') \<and>
      tbl_of d' = Some (if T i \<noteq> None then T else T) \<and>
      (T i \<noteq> None \<longrightarrow> (\<exists>a. scan_status row = Inr a \<and> (\<exists>r. T i = Some r \<and> status_of r a)))"
    using d'(2) by (intro exI [of _ "row_cells (the (T i)) u"] exI [of _ d']) simp
next
  show "\<exists>r1. lock_QueryRow srv HDB q [LInt i] w = (r1, w') \<and> (\<forall>row a. r1 = Inr row \<and> scan_status row = Inr a \<longrightarrow> r = Inr a) \<and>
      (\<forall>e. r1 = Inl e \<longrightarrow> isl r)" if "check_status srv q i w = (r, w')" for w r w'
    using that by (auto simp: check_status_def split: prod.splits sum.splits if_splits)
qed

context pg_lock_server
begin

lemma exists_up: "looks_up tbl_of now other (pg_TableExists srv tbl)"
proof -
  have "looks_up tbl_of now other (\<lambda>w. scan_exists (lock_QueryRow srv HDB (pg_exists_q tbl) [] w))"
    by (rule looks_up_query [OF pg_exists keeps_query]) simp
  then show ?thesis by (simp add: pg_TableExists_def [abs_def])
qed

lemma pg_create_laws:
  assumes "txn w = None" and "pg_CreateLockTable srv tbl w = (r, w')"
  shows "lock_quiet now other w w'"
    and "tbl_of (committed w') \<in> {tbl_of (committed w), Some (case tbl_of (committed w) of None \<Rightarrow> Map.empty | Some T \<Rightarrow> T)}"
    and "r = None \<Longrightarrow> tbl_of (committed w') = Some (case tbl_of (committed w) of None \<Rightarrow> Map.empty | Some T \<Rightarrow> T)"
    and "faults w = [] \<Longrightarrow> r = None"
  using create_lock_table_laws [OF exists_up keeps_create pg_create assms(1) assms(2) [unfolded pg_CreateLockTable_def]] by blast+

lemma pg_quiet:
  "quiet_op now other (pg_CreateLockTable srv tbl)" "quiet_op now other (pg_AcquireLock srv tbl i who d)"
  "quiet_op now other (pg_ReleaseLock srv tbl i who)" "quiet_op now other (pg_UpdateLease srv tbl i who d)"
  "quiet_op now other (pg_CheckLockStatus srv tbl i)" "quiet_op now other (pg_CleanupStaleLocks srv x tbl)"
proof -
  have row: "lock_quiet now other w w1"
    if "txn w = None" "lock_QueryRow srv HDB q args w = (r1, w1)"
      "q \<in> {pg_exists_q tbl, pg_acquire_q tbl, pg_release_q tbl, pg_update_q tbl, pg_status_q tbl, pg_cleanup_q tbl}" for q args w r1 w1
    using query_row_quiet [OF that(2,1) keeps_query] that(3) by blast
  show "quiet_op now other (pg_CreateLockTable srv tbl)"
    by (rule quiet_opI) (rule pg_create_laws(1))
  show "quiet_op now other (pg_AcquireLock srv tbl i who d)"
    by (rule quiet_opI) (auto simp: pg_AcquireLock_def split: prod.splits sum.splits if_splits intro: row)
  show "quiet_op now other (pg_ReleaseLock srv tbl i who)"
    by (rule quiet_opI) (auto simp: pg_ReleaseLock_def split: prod.splits sum.splits if_splits intro: row)
  show "quiet_op now other (pg_UpdateLease srv tbl i who d)"
    by (rule quiet_opI) (auto simp: pg_UpdateLease_def split: prod.splits sum.splits if_splits intro: row)
  show "quiet_op now other (pg_CheckLockStatus srv tbl i)"
    by (rule quiet_opI) (auto simp: pg_CheckLockStatus_def check_status_def split: prod.splits sum.splits if_splits intro: row)
  show "quiet_op now other (pg_CleanupStaleLocks srv x tbl)"
  proof (rule quiet_opI)
    fix w r w' assume w: "txn w = None" "pg_CleanupStaleLocks srv x tbl w = (r, w')"
    obtain r1 w1 where q: "lock_Query srv HDB (pg_cleanup_q tbl) [] w = (r1, w1)" by fastforce
    have "w' = w1" using w(2) q by (auto simp: pg_CleanupStaleLocks_def split: sum.splits prod.splits option.splits)
    with call_db_quiet [OF q [unfolded lock_Query_def] w(1), of now other] keeps_query [of "pg_cleanup_q tbl" "[]"]
    show "lock_quiet now other w w'" by simp
  qed
qed

lemma missing_row:
  assumes "txn w = None" and "ls_query srv q args (committed w) = (Inl e, d')"
  shows "\<exists>e. fst (lock_QueryRow srv HDB q args w) = Inl e"
proof -
  obtain r w1 where c: "lock_Query srv HDB q args w = (r, w1)" by fastforce
  have f: "driver_error (ls_query srv q args (committed w)) = (Inl (Msg e), d')" using assms(2) by (simp add: driver_error_def)
  from call_db(3) [OF c [unfolded lock_Query_def] assms(1) f] show ?thesis using c by (auto simp: lock_QueryRow_def)
qed

lemma pg_acquire_none: "txn w = None \<Longrightarrow> tbl_of (committed w) = None \<Longrightarrow> isl (fst (pg_AcquireLock srv tbl i who d w))"
proof -
  assume w: "txn w = None" "tbl_of (committed w) = None"
  obtain e d' where "ls_query srv (pg_acquire_q tbl) [LInt i, LStr who, LStr (formatDurationAsInterval d)] (committed w) = (Inl e, d')"
    using pg_missing [OF w(2)] by blast
  from missing_row [OF w(1) this] show ?thesis by (auto simp: pg_AcquireLock_def split: prod.splits)
qed

lemma pg_update_none: "txn w = None \<Longrightarrow> tbl_of (committed w) = None \<Longrightarrow> isl (fst (pg_UpdateLease srv tbl i who d w))"
proof -
  assume w: "txn w = None" "tbl_of (committed w) = None"
  obtain e d' where "ls_query srv (pg_update_q tbl) [LStr (formatDurationAsInterval d), LInt i, LStr who] (committed w) = (Inl e, d')"
    using pg_missing [OF w(2)] by blast
  from missing_row [OF w(1) this] show ?thesis by (auto simp: pg_UpdateLease_def split: prod.splits)
qed

lemma pg_acquire_op: "table_op tbl_of now (acquirable i) (acquirable i) (lt_acquire i who d)
   (\<lambda>t T a. ALockedBy a = who \<and> ALeaseExpiresAt a = lease_end t d) (pg_AcquireLock srv tbl i who d)"
proof (rule query_table_op [where ans = "\<lambda>row. case scan_lease row of Inl e \<Rightarrow> Inl e
      | Inr (b, t) \<Rightarrow> if b = who then Inr \<lparr>ALockedBy = b, ALeaseExpiresAt = t\<rparr> else Inl scan_error" and q = "pg_acquire_q tbl"
      and args = "[LInt i, LStr who, LStr (formatDurationAsInterval d)]" and srv = srv])
  fix D T assume "tbl_of D = Some T"
  from pg_acquire [OF this, of i who "duration_seconds d"] show "\<exists>row d'. ls_query srv (pg_acquire_q tbl) [LInt i, LStr who, LStr (formatDurationAsInterval d)] D =
        (Inr (if acquirable i (now D) T then [row] else [], None, None), d') \<and>
      tbl_of d' = Some (if acquirable i (now D) T then lt_acquire i who d (now D) T else T) \<and>
      (acquirable i (now D) T \<longrightarrow> (\<exists>a. (case scan_lease row of Inl e \<Rightarrow> Inl e
      | Inr (b, t) \<Rightarrow> if b = who then Inr \<lparr>ALockedBy = b, ALeaseExpiresAt = t\<rparr> else Inl scan_error) = Inr a \<and>
         ALockedBy a = who \<and> ALeaseExpiresAt a = lease_end (now D) d))"
    by (intro exI [of _ "[CStr who, CTime (lease_end (now D) d)]"])
      (auto simp: formatDurationAsInterval_def lt_acquire_def lease_end_def scan_lease_def cell_defs)
next
  show "\<exists>r1. lock_QueryRow srv HDB (pg_acquire_q tbl) [LInt i, LStr who, LStr (formatDurationAsInterval d)] w = (r1, w') \<and>
      (\<forall>row a. r1 = Inr row \<and> (case scan_lease row of Inl e \<Rightarrow> Inl e
      | Inr (b, t) \<Rightarrow> if b = who then Inr \<lparr>ALockedBy = b, ALeaseExpiresAt = t\<rparr> else Inl scan_error) = Inr a \<longrightarrow> r = Inr a) \<and>
      (\<forall>e. r1 = Inl e \<longrightarrow> isl r)" if "pg_AcquireLock srv tbl i who d w = (r, w')" for w r w'
    using that by (auto simp: pg_AcquireLock_def split: prod.splits sum.splits if_splits)
qed

lemma pg_release_op: "table_op tbl_of now (\<lambda>t. owned i who) (\<lambda>t. owned i who) (\<lambda>t. lt_release i)
   (\<lambda>t T a. RLockID a = i) (pg_ReleaseLock srv tbl i who)"
proof (rule query_table_op [where q = "pg_release_q tbl" and args = "[LInt i, LStr who]" and srv = srv
      and ans = "\<lambda>row. if row = [CInt i] then Inr \<lparr>RLockID = i\<rparr> else Inl scan_error"])
  fix D T assume "tbl_of D = Some T"
  from pg_release [OF this, of i who] show "\<exists>row d'. ls_query srv (pg_release_q tbl) [LInt i, LStr who] D =
        (Inr (if owned i who T then [row] else [], None, None), d') \<and>
      tbl_of d' = Some (if owned i who T then lt_release i T else T) \<and>
      (owned i who T \<longrightarrow> (\<exists>a. (if row = [CInt i] then Inr \<lparr>RLockID = i\<rparr> else Inl scan_error) = Inr a \<and> RLockID a = i))"
    by (intro exI [of _ "[CInt i]"]) auto
next
  show "\<exists>r1. lock_QueryRow srv HDB (pg_release_q tbl) [LInt i, LStr who] w = (r1, w') \<and>
      (\<forall>row a. r1 = Inr row \<and> (if row = [CInt i] then Inr \<lparr>RLockID = i\<rparr> else Inl scan_error) = Inr a \<longrightarrow> r = Inr a) \<and>
      (\<forall>e. r1 = Inl e \<longrightarrow> isl r)" if "pg_ReleaseLock srv tbl i who w = (r, w')" for w r w'
    using that by (auto simp: pg_ReleaseLock_def cell_defs split: prod.splits sum.splits if_splits)
qed

lemma pg_update_op: "table_op tbl_of now (\<lambda>t. renewable i who) (\<lambda>t T. renewable i who T \<and> lt_renew i d t T \<noteq> T) (lt_renew i d)
   (\<lambda>t T a. ULeaseExpiresAt a = lease_end t d) (pg_UpdateLease srv tbl i who d)"
proof (rule query_table_op [where q = "pg_update_q tbl" and args = "[LStr (formatDurationAsInterval d), LInt i, LStr who]"
      and srv = srv and ans = "\<lambda>row. case row of [CTime t] \<Rightarrow> Inr \<lparr>ULeaseExpiresAt = t\<rparr> | _ \<Rightarrow> Inl scan_error"])
  fix D T assume "tbl_of D = Some T"
  from pg_update [OF this, of "duration_seconds d" i who]
  show "\<exists>row d'. ls_query srv (pg_update_q tbl) [LStr (formatDurationAsInterval d), LInt i, LStr who] D =
        (Inr (if renewable i who T then [row] else [], None, None), d') \<and>
      tbl_of d' = Some (if renewable i who T then lt_renew i d (now D) T else T) \<and>
      (renewable i who T \<longrightarrow> (\<exists>a. (case row of [CTime t] \<Rightarrow> Inr \<lparr>ULeaseExpiresAt = t\<rparr> | _ \<Rightarrow> Inl scan_error) = Inr a \<and>
         ULeaseExpiresAt a = lease_end (now D) d))"
    by (intro exI [of _ "[CTime (lease_end (now D) d)]"])
      (auto simp: formatDurationAsInterval_def lt_renew_def lease_end_def renewable_def split: option.splits)
next
  show "\<exists>r1. lock_QueryRow srv HDB (pg_update_q tbl) [LStr (formatDurationAsInterval d), LInt i, LStr who] w = (r1, w') \<and>
      (\<forall>row a. r1 = Inr row \<and> (case row of [CTime t] \<Rightarrow> Inr \<lparr>ULeaseExpiresAt = t\<rparr> | _ \<Rightarrow> Inl scan_error) = Inr a \<longrightarrow> r = Inr a) \<and>
      (\<forall>e. r1 = Inl e \<longrightarrow> isl r)" if "pg_UpdateLease srv tbl i who d w = (r, w')" for w r w'
    using that by (auto simp: pg_UpdateLease_def cell_defs split: prod.splits sum.splits if_splits list.splits lcell.splits)
qed auto

lemma pg_status_op: "table_op tbl_of now (\<lambda>t T. T i \<noteq> None) (\<lambda>t T. T i \<noteq> None) (\<lambda>t T. T)
   (\<lambda>t T s. \<exists>r. T i = Some r \<and> status_of r s) (pg_CheckLockStatus srv tbl i)"
  using check_status_op [OF pg_status, of now] by (simp add: pg_CheckLockStatus_def [abs_def])

lemma pg_cleanup_op:
  assumes "append_laws x"
  shows "table_op tbl_of now (\<lambda>t T. True) (\<lambda>t T. True) lt_cleanup (\<lambda>t T ids. set ids = stale_ids t T) (pg_CleanupStaleLocks srv x tbl)"
proof (rule table_opI)
  fix w T r w' assume w: "txn w = None" "tbl_of (committed w) = Some T" "pg_CleanupStaleLocks srv x tbl w = (r, w')"
  obtain r1 w1 where q: "lock_Query srv HDB (pg_cleanup_q tbl) [] w = (r1, w1)" by fastforce
  obtain ids d' where d': "ls_query srv (pg_cleanup_q tbl) [] (committed w) = (Inr (map (\<lambda>i. [CInt i]) ids, None, None), d')"
    "set ids = stale_ids (now (committed w)) T" "tbl_of d' = Some (lt_cleanup (now (committed w)) T)"
    using pg_cleanup [OF w(2)] by blast
  have f: "driver_error (ls_query srv (pg_cleanup_q tbl) [] (committed w)) = (Inr (map (\<lambda>i. [CInt i]) ids, None, None), d')"
    using d'(1) by (simp add: driver_error_def)
  note c = call_db [OF q [unfolded lock_Query_def] w(1) f]
  have "multierr_append x None None = None" using assms by (simp add: append_laws_def)
  then have "r1 = Inr (map (\<lambda>i. [CInt i]) ids, None, None) \<and> committed w' = d' \<and> r = Inr ids \<or>
      isl r \<and> faults w \<noteq> [] \<and> tbl_of (committed w') \<in> {Some T, tbl_of d'}"
    using c(2,3) w(2,3) q by (auto simp: pg_CleanupStaleLocks_def)
  then show "(case r of
         Inr a \<Rightarrow> True \<and> tbl_of (committed w') = Some (lt_cleanup (now (committed w)) T) \<and> set a = stale_ids (now (committed w)) T
       | Inl e \<Rightarrow> tbl_of (committed w') = Some T \<or> True \<and> tbl_of (committed w') = Some (lt_cleanup (now (committed w)) T)) \<and>
      (faults w = [] \<longrightarrow> (True \<longrightarrow> \<not> isl r) \<and> (\<not> True \<longrightarrow> isl r))"
    using d'(2,3) by (cases r) (elim disjE conjE; simp)+
qed

end

text \<open>The store for PostgreSQL keeps the contract.\<close>

locale pg_lock_setup = pg_lock_server srv tbl tbl_of now other for srv tbl tbl_of now other +
  fixes x :: ext
  assumes appends: "append_laws x"

sublocale pg_lock_setup \<subseteq> pg: lock_table_store "postgresStore srv x tbl" tbl_of now other
proof (rule lock_table_store.intro, unfold postgresStore_def lock_store.select_convs)
  show "fst (pg_CreateLockTable srv tbl w) = None" if "txn w = None" "faults w = []" for w
    using pg_create_laws(4) [OF that(1) surjective_pairing that(2)] .
qed (rule pg_quiet pg_acquire_op pg_release_op pg_update_op pg_status_op pg_cleanup_op appends, assumption? |
     (erule (1) pg_acquire_none pg_update_none) |
     (erule (1) pg_create_laws(2,3), (rule refl)?))+

context pg_lock_setup
begin

lemma pg_lock_store: "lock_table_store (postgresStore srv x tbl) tbl_of now other"
  by (rule pg.lock_table_store_axioms)

end

end
