(* ===== verification/Lock_MySQL.thy ===== *)
theory Lock_MySQL
  imports Lock_Contract
begin

text \<open>
  The store for MySQL keeps the contract of the lock table. Each of its operations is a transaction
  of several statements, so a statement that fails, or whose answer is lost, is rolled back.
\<close>

section \<open>Transactions of the store\<close>

text \<open>Inside the transaction: nothing is committed yet, and the clock and the other parts are untouched.\<close>

definition tx_near :: "('d \<Rightarrow> int) \<Rightarrow> ('d \<Rightarrow> 'o) \<Rightarrow> 'd world \<Rightarrow> 'd world \<Rightarrow> bool" where
  "tx_near now other w0 w \<longleftrightarrow> committed w = committed w0 \<and> conns w = conns w0 \<and> (faults w0 = [] \<longrightarrow> faults w = []) \<and>
     (\<exists>d. txn w = Some d \<and> now d = now (committed w0) \<and> other d = other (committed w0))"

definition tx_quiet :: "('d \<Rightarrow> int) \<Rightarrow> ('d \<Rightarrow> 'o) \<Rightarrow> ('d world \<Rightarrow> (err + 'a) \<times> 'd world) \<Rightarrow> bool" where
  "tx_quiet now other body \<longleftrightarrow> (\<forall>w0 w r w'. tx_near now other w0 w \<and> body w = (r, w') \<longrightarrow>
     tx_near now other w0 w' \<and> isl r \<or> lock_quiet now other w0 w')"

lemma call_near:
  assumes "call HTx f w = (r, w')" and "tx_near now other w0 w" and "keeps now other f"
  shows "tx_near now other w0 w'"
proof -
  obtain d where d: "txn w = Some d" "now d = now (committed w0)" "other d = other (committed w0)" using assms(2) by (auto simp: tx_near_def)
  obtain a d' where f: "f d = (a, d')" by fastforce
  have k: "now d' = now d" "other d' = other d" using assms(3) f unfolding keeps_def by (metis snd_conv)+
  have t: "txn w' \<in> {Some d, Some d'}" using assms(1) d(1) f
    by (auto simp: call_def usable_def next_fault_def cur_def put_def split: list.splits fault.splits prod.splits)
  from call_tx [OF assms(1) d(1) f] assms(2) d k t show ?thesis by (auto simp: tx_near_def)
qed

lemma Exec_near: "lock_Exec srv HTx q args w = (r, w') \<Longrightarrow> tx_near now other w0 w \<Longrightarrow> keeps now other (ls_exec srv q args) \<Longrightarrow>
    tx_near now other w0 w'"
  unfolding lock_Exec_def by (erule (1) call_near) simp

lemma Query_near: "lock_Query srv HTx q args w = (r, w') \<Longrightarrow> tx_near now other w0 w \<Longrightarrow> keeps now other (ls_query srv q args) \<Longrightarrow>
    tx_near now other w0 w'"
  unfolding lock_Query_def by (erule (1) call_near) simp

lemma QueryRow_near: "lock_QueryRow srv HTx q args w = (r, w') \<Longrightarrow> tx_near now other w0 w \<Longrightarrow> keeps now other (ls_query srv q args) \<Longrightarrow>
    tx_near now other w0 w'"
  by (cases "lock_Query srv HTx q args w")
    (auto simp: lock_QueryRow_def split: sum.splits list.splits option.splits prod.splits dest: Query_near)

lemma affected_near: "exec_affected srv what q args w = (r, w') \<Longrightarrow> tx_near now other w0 w \<Longrightarrow> keeps now other (ls_exec srv q args) \<Longrightarrow>
    tx_near now other w0 w'"
  by (cases "lock_Exec srv HTx q args w") (auto simp: exec_affected_def split: sum.splits dest: Exec_near)

lemma commit_quiet: "commit_as what a w = (r, w') \<Longrightarrow> tx_near now other w0 w \<Longrightarrow> lock_quiet now other w0 w'"
  by (auto simp: commit_as_def Commit_def tx_near_def lock_quiet_def calm_def next_fault_def split: list.splits fault.splits)

lemma Rollback_end: "Rollback w = (r, w') \<Longrightarrow> txn w' = None \<and> committed w' = committed w \<and> conns w' = conns w \<and> (faults w = [] \<longrightarrow> faults w' = [])"
  by (auto simp: Rollback_def next_fault_def split: option.splits list.splits fault.splits)

lemma BeginTx_near:
  assumes "BeginTx w = (r, w')" and "txn w = None"
  shows "r = None \<Longrightarrow> tx_near now other w w' \<and> txn w' = Some (committed w)"
    and "r \<noteq> None \<Longrightarrow> txn w' = None \<and> committed w' = committed w \<and> conns w' = conns w \<and> faults w \<noteq> []"
  using assms by (auto simp: BeginTx_def next_fault_def tx_near_def split: list.splits fault.splits)

lemma in_lock_tx_quiet:
  assumes "tx_quiet now other body"
  shows "quiet_op now other (in_lock_tx x what body)"
proof (rule quiet_opI)
  fix w r w' assume w: "txn w = None" "in_lock_tx x what body w = (r, w')"
  obtain b w1 where b: "BeginTx w = (b, w1)" by fastforce
  show "lock_quiet now other w w'"
  proof (cases b)
    case None
    obtain r2 w2 where r2: "body w1 = (r2, w2)" by fastforce
    have "tx_near now other w w2 \<and> isl r2 \<or> lock_quiet now other w w2"
      using assms BeginTx_near(1) [OF b w(1) None, of now other] r2 unfolding tx_quiet_def by blast
    then show ?thesis
    proof (cases "isl r2")
      case True
      then obtain e where e: "r2 = Inl e" by (cases r2) auto
      obtain r3 where "Rollback w2 = (r3, w')" using w(2) b None r2 e by (auto simp: in_lock_tx_def split: prod.splits)
      from Rollback_end [OF this] \<open>tx_near now other w w2 \<and> isl r2 \<or> lock_quiet now other w w2\<close> show ?thesis
        by (auto simp: lock_quiet_def tx_near_def calm_def)
    next
      case False
      then have "w' = w2" using w(2) b None r2 by (auto simp: in_lock_tx_def split: sum.splits)
      with False \<open>tx_near now other w w2 \<and> isl r2 \<or> lock_quiet now other w w2\<close> show ?thesis by simp
    qed
  next
    case (Some e)
    then have "w' = w1" using w(2) b by (auto simp: in_lock_tx_def)
    with BeginTx_near(2) [OF b w(1)] Some show ?thesis by (auto simp: lock_quiet_def calm_def)
  qed
qed

text \<open>The effect of a body that starts on the committed state.\<close>

definition tx_table ::
    "('d \<Rightarrow> lock_table option) \<Rightarrow> ('d \<Rightarrow> int) \<Rightarrow> (int \<Rightarrow> lock_table \<Rightarrow> bool) \<Rightarrow> (int \<Rightarrow> lock_table \<Rightarrow> bool) \<Rightarrow>
     (int \<Rightarrow> lock_table \<Rightarrow> lock_table) \<Rightarrow> (int \<Rightarrow> lock_table \<Rightarrow> 'a \<Rightarrow> bool) \<Rightarrow>
     ('d world \<Rightarrow> (err + 'a) \<times> 'd world) \<Rightarrow> bool" where
  "tx_table tbl_of now cond sure eff res body \<longleftrightarrow>
     (\<forall>w T r w'. txn w = Some (committed w) \<and> tbl_of (committed w) = Some T \<and> body w = (r, w') \<longrightarrow>
        (case r of
           Inr a \<Rightarrow> cond (now (committed w)) T \<and> tbl_of (committed w') = Some (eff (now (committed w)) T) \<and>
             res (now (committed w)) T a
         | Inl e \<Rightarrow> tbl_of (committed w') = Some T \<or>
             cond (now (committed w)) T \<and> tbl_of (committed w') = Some (eff (now (committed w)) T)) \<and>
        (faults w = [] \<longrightarrow> (sure (now (committed w)) T \<longrightarrow> \<not> isl r) \<and> (\<not> cond (now (committed w)) T \<longrightarrow> isl r)))"

lemma in_lock_tx_table:
  assumes "tx_table tbl_of now cond sure eff res body"
  shows "table_op tbl_of now cond sure eff res (in_lock_tx x what body)"
proof (rule table_opI)
  fix w T r w' assume w: "txn w = None" "tbl_of (committed w) = Some T" "in_lock_tx x what body w = (r, w')"
  let ?t = "now (committed w)"
  obtain b w1 where b: "BeginTx w = (b, w1)" by fastforce
  show "(case r of
         Inr a \<Rightarrow> cond ?t T \<and> tbl_of (committed w') = Some (eff ?t T) \<and> res ?t T a
       | Inl e \<Rightarrow> tbl_of (committed w') = Some T \<or> cond ?t T \<and> tbl_of (committed w') = Some (eff ?t T)) \<and>
      (faults w = [] \<longrightarrow> (sure ?t T \<longrightarrow> \<not> isl r) \<and> (\<not> cond ?t T \<longrightarrow> isl r))"
  proof (cases b)
    case None
    have n: "committed w1 = committed w" "txn w1 = Some (committed w1)" "faults w = [] \<Longrightarrow> faults w1 = []"
      using BeginTx_near(1) [OF b w(1) None, of now now] by (auto simp: tx_near_def)
    obtain r2 w2 where r2: "body w1 = (r2, w2)" by fastforce
    have t: "(case r2 of
         Inr a \<Rightarrow> cond ?t T \<and> tbl_of (committed w2) = Some (eff ?t T) \<and> res ?t T a
       | Inl e \<Rightarrow> tbl_of (committed w2) = Some T \<or> cond ?t T \<and> tbl_of (committed w2) = Some (eff ?t T)) \<and>
      (faults w1 = [] \<longrightarrow> (sure ?t T \<longrightarrow> \<not> isl r2) \<and> (\<not> cond ?t T \<longrightarrow> isl r2))"
      using assms n(1,2) w(2) r2 unfolding tx_table_def by metis
    show ?thesis
    proof (cases r2)
      case (Inl e)
      obtain e' r3 where "r = Inl e'" "Rollback w2 = (r3, w')" using w(3) b None r2 Inl by (auto simp: in_lock_tx_def split: prod.splits)
      with Rollback_end [of w2 r3 w'] t Inl n(3) show ?thesis by simp
    next
      case (Inr a)
      then have "r = Inr a" "w' = w2" using w(3) b None r2 by (auto simp: in_lock_tx_def)
      with t Inr n(3) show ?thesis by simp
    qed
  next
    case (Some e)
    then have "isl r" "w' = w1" using w(3) b by (auto simp: in_lock_tx_def)
    with BeginTx_near(2) [OF b w(1)] Some w(2) show ?thesis by (cases r) auto
  qed
qed

text \<open>A statement of the transaction for its number of rows, and the commit.\<close>

lemma affected_tx:
  assumes "exec_affected srv what q args w = (r, w')" and "txn w = Some d0" and "ls_exec srv q args d0 = (Inr (Inr n), d)"
  shows "committed w' = committed w" and "conns w' = conns w" and "faults w = [] \<Longrightarrow> faults w' = []" and "\<exists>d1. txn w' = Some d1"
    and "r = Inr n \<and> txn w' = Some d \<or> isl r \<and> faults w \<noteq> []"
proof -
  obtain r1 w1 where c: "lock_Exec srv HTx q args w = (r1, w1)" by fastforce
  have f: "driver_error (ls_exec srv q args d0) = (Inr (Inr n), d)" using assms(3) by (simp add: driver_error_def)
  note c' = call_tx [OF c [unfolded lock_Exec_def] assms(2) f]
  have w': "w' = w1" using assms(1) c by (auto simp: exec_affected_def split: sum.splits)
  show "committed w' = committed w" "conns w' = conns w" "faults w = [] \<Longrightarrow> faults w' = []" "\<exists>d1. txn w' = Some d1"
    using c'(1-4) w' by auto
  from c'(5) show "r = Inr n \<and> txn w' = Some d \<or> isl r \<and> faults w \<noteq> []"
    using assms(1) c w' by (auto simp: exec_affected_def)
qed

lemma commit_tx:
  assumes "commit_as what a w = (r, w')" and "txn w = Some d"
  shows "r = Inr a \<and> committed w' = d \<or> isl r \<and> faults w \<noteq> [] \<and> committed w' \<in> {committed w, d}"
  using assms by (auto simp: commit_as_def Commit_def next_fault_def split: list.splits fault.splits)

section \<open>The server\<close>

text \<open>
  A server that gives the statements of the MySQL store their meaning. The number of rows is that of
  the rows changed: renewing a lease to the time it has already may count as none.
\<close>

locale my_lock_server =
  fixes srv :: "'d lock_server" and tbl :: string and tbl_of :: "'d \<Rightarrow> lock_table option" and now :: "'d \<Rightarrow> int"
    and other :: "'d \<Rightarrow> 'o"
  assumes keeps_exec: "q \<in> {my_create_q tbl, my_insert_q tbl, my_take_q tbl, my_release_q tbl, my_update_q tbl} \<union> range (my_clear_q tbl) \<Longrightarrow>
      keeps now other (ls_exec srv q args)"
    and keeps_query: "q \<in> {fst (my_exists_q tbl), my_select_q tbl, my_lease_q tbl, my_status_q tbl, my_stale_q tbl} \<Longrightarrow>
      keeps now other (ls_query srv q args)"
    and my_missing: "tbl_of d = None \<Longrightarrow> q \<in> {my_insert_q tbl, my_update_q tbl} \<Longrightarrow> \<exists>e d'. ls_exec srv q args d = (Inl e, d')"
    and my_exists: "my_exists_q tbl = (q, args) \<Longrightarrow>
      \<exists>d'. ls_query srv q args d = (Inr ([[CBool (tbl_of d \<noteq> None)]], None, None), d') \<and> tbl_of d' = tbl_of d"
    and my_create: "tbl_of d = None \<Longrightarrow> \<exists>n d'. ls_exec srv (my_create_q tbl) [] d = (Inr n, d') \<and> tbl_of d' = Some Map.empty"
    and my_insert: "tbl_of d = Some T \<Longrightarrow> \<exists>d'. ls_exec srv (my_insert_q tbl) [LInt i, LStr who, LInt n] d =
        (Inr (Inr (if T i = None then 1 else 0)), d') \<and>
      tbl_of d' = Some (if T i = None
        then T(i \<mapsto> \<lparr>row_locked = True, row_by = Some who, row_lease = Some (now d + n * 1000000)\<rparr>) else T)"
    and my_take: "tbl_of d = Some T \<Longrightarrow> T i = Some row \<Longrightarrow> \<exists>d'. ls_exec srv (my_take_q tbl) [LStr who, LInt n, LInt i] d =
        (Inr (Inr (if acquirable i (now d) T then 1 else 0)), d') \<and>
      tbl_of d' = Some (if acquirable i (now d) T
        then T(i \<mapsto> \<lparr>row_locked = True, row_by = Some who, row_lease = Some (now d + n * 1000000)\<rparr>) else T)"
    and my_select: "tbl_of d = Some T \<Longrightarrow> \<exists>d'. ls_query srv (my_select_q tbl) [LInt i] d =
        (Inr (case T i of None \<Rightarrow> [] | Some r \<Rightarrow> [[opt_cell CStr (row_by r), opt_cell CTime (row_lease r)]], None, None), d') \<and>
      tbl_of d' = Some T"
    and my_release: "tbl_of d = Some T \<Longrightarrow> \<exists>d'. ls_exec srv (my_release_q tbl) [LInt i, LStr who] d =
        (Inr (Inr (if owned i who T then 1 else 0)), d') \<and>
      tbl_of d' = Some (if owned i who T then lt_release i T else T)"
    and my_update: "tbl_of d = Some T \<Longrightarrow> \<exists>m d'. ls_exec srv (my_update_q tbl) [LInt n, LInt i, LStr who] d = (Inr (Inr m), d') \<and>
      (let T' = (case T i of Some r \<Rightarrow> if renewable i who T then T(i \<mapsto> r\<lparr>row_lease := Some (now d + n * 1000000)\<rparr>) else T | None \<Rightarrow> T)
       in tbl_of d' = Some T' \<and> (T' \<noteq> T \<longrightarrow> m \<noteq> 0) \<and> (\<not> renewable i who T \<longrightarrow> m = 0))"
    and my_lease: "tbl_of d = Some T \<Longrightarrow> \<exists>d'. ls_query srv (my_lease_q tbl) [LInt i] d =
        (Inr (case T i of None \<Rightarrow> [] | Some r \<Rightarrow> [[opt_cell CTime (row_lease r)]], None, None), d') \<and> tbl_of d' = Some T"
    and my_status: "tbl_of d = Some T \<Longrightarrow> \<exists>u d'. ls_query srv (my_status_q tbl) [LInt i] d =
        (Inr (case T i of None \<Rightarrow> [] | Some r \<Rightarrow> [row_cells r u], None, None), d') \<and> tbl_of d' = Some T"
    and my_stale: "tbl_of d = Some T \<Longrightarrow> \<exists>ids d'. ls_query srv (my_stale_q tbl) [] d = (Inr (map (\<lambda>i. [CInt i]) ids, None, None), d') \<and>
      set ids = stale_ids (now d) T \<and> now d' = now d \<and> tbl_of d' = Some T"
    and my_clear: "tbl_of d = Some T \<Longrightarrow> ids \<noteq> [] \<Longrightarrow> \<exists>n d'. ls_exec srv (my_clear_q tbl (length ids)) (map LInt ids) d = (Inr n, d') \<and>
      tbl_of d' = Some (\<lambda>i. if i \<in> set ids \<and> T i \<noteq> None then Some row_cleared else T i)"

context my_lock_server
begin

lemma exists_up: "looks_up tbl_of now other (my_TableExists srv tbl)"
proof -
  obtain q args where q: "my_exists_q tbl = (q, args)" by fastforce
  have "looks_up tbl_of now other (\<lambda>w. scan_exists (lock_QueryRow srv HDB q args w))"
    by (rule looks_up_query [OF my_exists [OF q] keeps_query]) (simp add: q)
  then show ?thesis by (simp add: my_TableExists_def [abs_def] q)
qed

lemma my_create_laws:
  assumes "txn w = None" and "my_CreateLockTable srv tbl w = (r, w')"
  shows "lock_quiet now other w w'"
    and "tbl_of (committed w') \<in> {tbl_of (committed w), Some (case tbl_of (committed w) of None \<Rightarrow> Map.empty | Some T \<Rightarrow> T)}"
    and "r = None \<Longrightarrow> tbl_of (committed w') = Some (case tbl_of (committed w) of None \<Rightarrow> Map.empty | Some T \<Rightarrow> T)"
    and "faults w = [] \<Longrightarrow> r = None"
proof -
  have "keeps now other (ls_exec srv (my_create_q tbl) [])" by (rule keeps_exec) simp
  note l = create_lock_table_laws [OF exists_up this my_create assms(1) assms(2) [unfolded my_CreateLockTable_def]]
  show "lock_quiet now other w w'"
    "tbl_of (committed w') \<in> {tbl_of (committed w), Some (case tbl_of (committed w) of None \<Rightarrow> Map.empty | Some T \<Rightarrow> T)}"
    "r = None \<Longrightarrow> tbl_of (committed w') = Some (case tbl_of (committed w) of None \<Rightarrow> Map.empty | Some T \<Rightarrow> T)"
    "faults w = [] \<Longrightarrow> r = None" using l by blast+
qed

lemma my_take_near: "my_take srv tbl i who n w = (r, w') \<Longrightarrow> tx_near now other w0 w \<Longrightarrow> tx_near now other w0 w'"
  using keeps_exec [of "my_insert_q tbl"] keeps_exec [of "my_take_q tbl"]
  by (auto simp: my_take_def Let_def split: prod.splits sum.splits if_splits dest!: affected_near)

lemma tx_quietI:
  assumes "\<And>w0 w r w'. tx_near now other w0 w \<Longrightarrow> body w = (r, w') \<Longrightarrow> tx_near now other w0 w' \<and> isl r \<or> lock_quiet now other w0 w'"
  shows "quiet_op now other (in_lock_tx x what body)"
  using assms by (intro in_lock_tx_quiet) (auto simp: tx_quiet_def)

lemma my_acquire_quiet: "quiet_op now other (in_lock_tx x what (my_acquire_body srv tbl i who d))"
proof (rule tx_quietI)
  fix w0 w r w' assume n: "tx_near now other w0 w" and b: "my_acquire_body srv tbl i who d w = (r, w')"
  let ?what = "lock_msg ''acquire lock '' i ''''"
  obtain r1 w1 where t: "my_take srv tbl i who (duration_seconds d) w = (r1, w1)" by fastforce
  obtain r2 w2 where q: "lock_QueryRow srv HTx (my_select_q tbl) [LInt i] w1 = (r2, w2)" by fastforce
  have n1: "tx_near now other w0 w1" by (rule my_take_near [OF t n])
  have n2: "tx_near now other w0 w2" by (rule QueryRow_near [OF q n1 keeps_query]) simp
  have "(w' = w1 \<or> w' = w2) \<and> isl r \<or> (\<exists>c. commit_as ?what () w2 = (c, w'))"
    using b t q by (auto simp: my_acquire_body_def Let_def split: option.splits sum.splits prod.splits if_splits)
  then show "tx_near now other w0 w' \<and> isl r \<or> lock_quiet now other w0 w'" using n1 n2 by (auto dest: commit_quiet)
qed

lemma my_release_quiet: "quiet_op now other (in_lock_tx x what (my_release_body srv tbl i who))"
proof (rule tx_quietI)
  fix w0 w r w' assume n: "tx_near now other w0 w" and b: "my_release_body srv tbl i who w = (r, w')"
  let ?what = "lock_msg ''release lock '' i ''''"
  obtain r1 w1 where t: "exec_affected srv ?what (my_release_q tbl) [LInt i, LStr who] w = (r1, w1)" by fastforce
  have n1: "tx_near now other w0 w1" by (rule affected_near [OF t n keeps_exec]) simp
  have "w' = w1 \<and> isl r \<or> (\<exists>c. commit_as ?what \<lparr>RLockID = i\<rparr> w1 = (c, w'))"
    using b t by (auto simp: my_release_body_def Let_def split: sum.splits if_splits)
  then show "tx_near now other w0 w' \<and> isl r \<or> lock_quiet now other w0 w'" using n1 by (auto dest: commit_quiet)
qed

lemma my_update_quiet: "quiet_op now other (in_lock_tx x what (my_update_body srv tbl i who d))"
proof (rule tx_quietI)
  fix w0 w r w' assume n: "tx_near now other w0 w" and b: "my_update_body srv tbl i who d w = (r, w')"
  let ?what = "lock_msg ''failed to update lease for lock '' i ''''" and ?a = "[LInt (duration_seconds d), LInt i, LStr who]"
  obtain r1 w1 where t: "exec_affected srv ?what (my_update_q tbl) ?a w = (r1, w1)" by fastforce
  obtain r2 w2 where q: "lock_QueryRow srv HTx (my_lease_q tbl) [LInt i] w1 = (r2, w2)" by fastforce
  have n1: "tx_near now other w0 w1" by (rule affected_near [OF t n keeps_exec]) simp
  have n2: "tx_near now other w0 w2" by (rule QueryRow_near [OF q n1 keeps_query]) simp
  have "(w' = w1 \<or> w' = w2) \<and> isl r \<or> (\<exists>a c. commit_as ?what \<lparr>ULeaseExpiresAt = a\<rparr> w2 = (c, w'))"
    using b t q by (auto simp: my_update_body_def Let_def split: sum.splits if_splits)
  then show "tx_near now other w0 w' \<and> isl r \<or> lock_quiet now other w0 w'" using n1 n2 by (auto dest: commit_quiet)
qed

lemma my_cleanup_quiet: "quiet_op now other (in_lock_tx x what (my_cleanup_body srv x tbl))"
proof (rule tx_quietI)
  fix w0 w r w' assume n: "tx_near now other w0 w" and b: "my_cleanup_body srv x tbl w = (r, w')"
  obtain r1 w1 where q: "lock_Query srv HTx (my_stale_q tbl) [] w = (r1, w1)" by fastforce
  have n1: "tx_near now other w0 w1" by (rule Query_near [OF q n keeps_query]) simp
  show "tx_near now other w0 w' \<and> isl r \<or> lock_quiet now other w0 w'"
  proof (cases "w' = w1 \<and> isl r")
    case False
    then obtain rows ids where i: "r1 = Inr (rows, None, None)" "scan_ids rows = Inr ids"
      using b q by (auto simp: my_cleanup_body_def split: sum.splits prod.splits option.splits)
    obtain r2 w2 where c: "(if ids = [] then (Inr (Inr 0), w1)
        else lock_Exec srv HTx (my_clear_q tbl (length ids)) (map LInt ids) w1) = (r2, w2)" by fastforce
    have n2: "tx_near now other w0 w2" using c n1 Exec_near [OF _ n1 keeps_exec] by (auto split: if_splits)
    have "w' = w2 \<and> isl r \<or> (\<exists>c. commit_as ''cleanup stale locks'' ids w2 = (c, w'))"
      using b q i c by (auto simp: my_cleanup_body_def split: sum.splits)
    then show ?thesis using n2 by (auto dest: commit_quiet)
  qed (use n1 in simp)
qed

lemma my_quiet:
  "quiet_op now other (my_CreateLockTable srv tbl)" "quiet_op now other (my_AcquireLock srv x tbl i who d)"
  "quiet_op now other (my_ReleaseLock srv x tbl i who)" "quiet_op now other (my_UpdateLease srv x tbl i who d)"
  "quiet_op now other (my_CheckLockStatus srv tbl i)" "quiet_op now other (my_CleanupStaleLocks srv x tbl)"
proof -
  show "quiet_op now other (my_CreateLockTable srv tbl)"
    by (rule quiet_opI) (rule my_create_laws(1))
  show "quiet_op now other (my_CheckLockStatus srv tbl i)"
  proof (rule quiet_opI)
    fix w r w' assume w: "txn w = None" "my_CheckLockStatus srv tbl i w = (r, w')"
    then obtain r1 where "lock_QueryRow srv HDB (my_status_q tbl) [LInt i] w = (r1, w')"
      by (auto simp: my_CheckLockStatus_def check_status_def split: prod.splits sum.splits if_splits)
    from query_row_quiet [OF this w(1) keeps_query] show "lock_quiet now other w w'" by simp
  qed
qed (simp_all add: my_AcquireLock_def [abs_def] my_acquire_quiet my_ReleaseLock_def [abs_def] my_release_quiet
    my_UpdateLease_def [abs_def] my_update_quiet my_CleanupStaleLocks_def [abs_def] my_cleanup_quiet)

lemma keeps_step: "keeps now other f \<Longrightarrow> f d = (a, d') \<Longrightarrow> now d' = now d"
  unfolding keeps_def by (metis snd_conv)

lemma my_take_table:
  assumes "my_take srv tbl i who (duration_seconds d) w = (r, w')" and "txn w = Some d0" and "tbl_of d0 = Some T"
  shows "committed w' = committed w" and "faults w = [] \<Longrightarrow> faults w' = [] \<and> (r = None \<longleftrightarrow> acquirable i (now d0) T)"
    and "r = None \<Longrightarrow> acquirable i (now d0) T \<and> (\<exists>d'. txn w' = Some d' \<and> tbl_of d' = Some (lt_acquire i who d (now d0) T))"
proof -
  let ?n = "duration_seconds d" and ?what = "lock_msg ''acquire lock '' i ''''"
  obtain r1 w1 where x: "exec_affected srv ?what (my_insert_q tbl) [LInt i, LStr who, LInt ?n] w = (r1, w1)" by fastforce
  obtain d1 where d1: "ls_exec srv (my_insert_q tbl) [LInt i, LStr who, LInt ?n] d0 = (Inr (Inr (if T i = None then 1 else 0)), d1)"
    "tbl_of d1 = Some (if T i = None then lt_acquire i who d (now d0) T else T)"
    using my_insert [OF assms(3), of i who ?n] unfolding lt_acquire_def lease_end_def by blast
  have k1: "now d1 = now d0" by (rule keeps_step [OF keeps_exec d1(1)]) simp
  note c = affected_tx [OF x assms(2) d1(1)]
  have "committed w' = committed w \<and> (faults w = [] \<longrightarrow> faults w' = [] \<and> (r = None \<longleftrightarrow> acquirable i (now d0) T)) \<and>
      (r = None \<longrightarrow> acquirable i (now d0) T \<and> (\<exists>d'. txn w' = Some d' \<and> tbl_of d' = Some (lt_acquire i who d (now d0) T)))"
  proof (cases "T i")
    case None
    then have "r1 = Inr 1 \<and> txn w1 = Some d1 \<and> w' = w1 \<and> r = None \<or> isl r1 \<and> w' = w1 \<and> r \<noteq> None \<and> faults w \<noteq> []"
      using c(5) assms(1) x by (auto simp: my_take_def Let_def split: sum.splits)
    moreover have "acquirable i (now d0) T" using None by (simp add: acquirable_def)
    ultimately show ?thesis using c(1,3) d1(2) None by auto
  next
    case (Some row)
    show ?thesis
    proof (cases "isl r1")
      case True
      then have "w' = w1 \<and> r \<noteq> None \<and> faults w \<noteq> []" using c(5) assms(1) x by (auto simp: my_take_def Let_def split: sum.splits)
      then show ?thesis using c(1) by auto
    next
      case False
      then have r1: "r1 = Inr 0" "txn w1 = Some d1" using c(5) Some by auto
      obtain r2 w2 where y: "exec_affected srv ?what (my_take_q tbl) [LStr who, LInt ?n, LInt i] w1 = (r2, w2)" by fastforce
      have T1: "tbl_of d1 = Some T" using d1(2) Some by simp
      obtain d2 where d2: "ls_exec srv (my_take_q tbl) [LStr who, LInt ?n, LInt i] d1 =
            (Inr (Inr (if acquirable i (now d0) T then 1 else 0)), d2)"
        "tbl_of d2 = Some (if acquirable i (now d0) T then lt_acquire i who d (now d0) T else T)"
        using my_take [OF T1 Some, of who ?n] unfolding lt_acquire_def lease_end_def k1 by blast
      note c2 = affected_tx [OF y r1(2) d2(1)]
      have "w' = w2 \<and> (r = None \<longleftrightarrow> (\<exists>n. r2 = Inr n \<and> n \<noteq> 0))"
        using assms(1) x y r1(1) by (auto simp: my_take_def Let_def split: sum.splits if_splits)
      then show ?thesis using c(1,3) c2(1,3,5) d2(2) by (auto split: if_splits)
    qed
  qed
  then show "committed w' = committed w" "faults w = [] \<Longrightarrow> faults w' = [] \<and> (r = None \<longleftrightarrow> acquirable i (now d0) T)"
    "r = None \<Longrightarrow> acquirable i (now d0) T \<and> (\<exists>d'. txn w' = Some d' \<and> tbl_of d' = Some (lt_acquire i who d (now d0) T))" by auto
qed

text \<open>How a body ends: it fails with nothing committed, or it commits the effect.\<close>

lemma tx_tableI:
  assumes "\<And>w T r w'. txn w = Some (committed w) \<Longrightarrow> tbl_of (committed w) = Some T \<Longrightarrow> body w = (r, w') \<Longrightarrow>
      isl r \<and> committed w' = committed w \<and> (faults w = [] \<longrightarrow> \<not> sure (now (committed w)) T) \<or>
      cond (now (committed w)) T \<and> tbl_of (committed w') = Some (eff (now (committed w)) T) \<and>
        (case r of Inr a \<Rightarrow> res (now (committed w)) T a | Inl e \<Rightarrow> faults w \<noteq> [])"
  shows "table_op tbl_of now cond sure eff res (in_lock_tx x what body)"
proof (rule in_lock_tx_table, unfold tx_table_def, intro allI impI, elim conjE)
  fix w T r w' assume a: "txn w = Some (committed w)" "tbl_of (committed w) = Some T" "body w = (r, w')"
  from assms [OF a] a(2) show "(case r of
         Inr a \<Rightarrow> cond (now (committed w)) T \<and> tbl_of (committed w') = Some (eff (now (committed w)) T) \<and> res (now (committed w)) T a
       | Inl e \<Rightarrow> tbl_of (committed w') = Some T \<or>
           cond (now (committed w)) T \<and> tbl_of (committed w') = Some (eff (now (committed w)) T)) \<and>
      (faults w = [] \<longrightarrow> (sure (now (committed w)) T \<longrightarrow> \<not> isl r) \<and> (\<not> cond (now (committed w)) T \<longrightarrow> isl r))"
    by (cases r) auto
qed

lemma my_acquire_op: "table_op tbl_of now (acquirable i) (acquirable i) (lt_acquire i who d)
   (\<lambda>t T a. ALockedBy a = who \<and> ALeaseExpiresAt a = lease_end t d) (in_lock_tx x what (my_acquire_body srv tbl i who d))"
proof (rule tx_tableI)
  fix w T r w' assume a: "txn w = Some (committed w)" "tbl_of (committed w) = Some T" "my_acquire_body srv tbl i who d w = (r, w')"
  let ?t = "now (committed w)" and ?what = "lock_msg ''acquire lock '' i ''''"
  obtain r1 w1 where t: "my_take srv tbl i who (duration_seconds d) w = (r1, w1)" by fastforce
  note mt = my_take_table [OF t a(1,2)]
  show "isl r \<and> committed w' = committed w \<and> (faults w = [] \<longrightarrow> \<not> acquirable i ?t T) \<or>
      acquirable i ?t T \<and> tbl_of (committed w') = Some (lt_acquire i who d ?t T) \<and>
        (case r of Inr a \<Rightarrow> ALockedBy a = who \<and> ALeaseExpiresAt a = lease_end ?t d | Inl e \<Rightarrow> faults w \<noteq> [])"
  proof (cases r1)
    case None
    then obtain d1 where d1: "acquirable i ?t T" "txn w1 = Some d1" "tbl_of d1 = Some (lt_acquire i who d ?t T)" using mt(3) by auto
    obtain r2 w2 where q: "lock_QueryRow srv HTx (my_select_q tbl) [LInt i] w1 = (r2, w2)" by fastforce
    obtain d2 where d2: "ls_query srv (my_select_q tbl) [LInt i] d1 = (Inr ([[CStr who, CTime (lease_end ?t d)]], None, None), d2)"
      "tbl_of d2 = Some (lt_acquire i who d ?t T)"
      using my_select [OF d1(3), of i] by (auto simp: lt_acquire_def opt_cell_def)
    note c = query_row_tx [OF q d1(2) d2(1)]
    show ?thesis
    proof (cases "isl r2")
      case True
      then have "isl r \<and> w' = w2 \<and> faults w1 \<noteq> []" using a(3) t None q c(5)
        by (auto simp: my_acquire_body_def Let_def first_row_def split: sum.splits)
      then show ?thesis using c(1) mt(1,2) by auto
    next
      case False
      then have r2: "r2 = Inr [CStr who, CTime (lease_end ?t d)]" "txn w2 = Some d2" using c(5) by (auto simp: first_row_def)
      obtain k w3 where k: "commit_as ?what () w2 = (k, w3)" by fastforce
      have "w' = w3 \<and> (case k of Inl e \<Rightarrow> isl r | Inr _ \<Rightarrow> r = Inr \<lparr>ALockedBy = who, ALeaseExpiresAt = lease_end ?t d\<rparr>)"
        using a(3) t None q r2(1) k by (auto simp: my_acquire_body_def Let_def scan_lease_def cell_defs split: sum.splits)
      moreover have "faults w2 \<noteq> [] \<Longrightarrow> faults w \<noteq> []" using c(3) mt(2) by auto
      ultimately show ?thesis using commit_tx [OF k r2(2)] c(1) mt(1) d1(1) d2(2) by (cases k; cases r) auto
    qed
  next
    case (Some e)
    then have "isl r" "w' = w1" using a(3) t by (auto simp: my_acquire_body_def Let_def)
    then show ?thesis using mt(1,2) Some by auto
  qed
qed

lemma my_release_op: "table_op tbl_of now (\<lambda>t. owned i who) (\<lambda>t. owned i who) (\<lambda>t. lt_release i)
   (\<lambda>t T a. RLockID a = i) (in_lock_tx x what (my_release_body srv tbl i who))"
proof (rule tx_tableI)
  fix w T r w' assume a: "txn w = Some (committed w)" "tbl_of (committed w) = Some T" "my_release_body srv tbl i who w = (r, w')"
  let ?what = "lock_msg ''release lock '' i ''''"
  obtain r1 w1 where x: "exec_affected srv ?what (my_release_q tbl) [LInt i, LStr who] w = (r1, w1)" by fastforce
  obtain d1 where d1: "ls_exec srv (my_release_q tbl) [LInt i, LStr who] (committed w) = (Inr (Inr (if owned i who T then 1 else 0)), d1)"
    "tbl_of d1 = Some (if owned i who T then lt_release i T else T)" using my_release [OF a(2)] by blast
  note c = affected_tx [OF x a(1) d1(1)]
  obtain k w3 where k: "commit_as ?what \<lparr>RLockID = i\<rparr> w1 = (k, w3)" by fastforce
  show "isl r \<and> committed w' = committed w \<and> (faults w = [] \<longrightarrow> \<not> owned i who T) \<or>
      owned i who T \<and> tbl_of (committed w') = Some (lt_release i T) \<and>
        (case r of Inr a \<Rightarrow> RLockID a = i | Inl e \<Rightarrow> faults w \<noteq> [])"
  proof (cases "isl r1 \<or> \<not> owned i who T")
    case True
    then have "isl r \<and> w' = w1" using a(3) x c(5) by (auto simp: my_release_body_def Let_def split: sum.splits if_splits)
    then show ?thesis using True c(1,5) by auto
  next
    case False
    then have "w' = w3 \<and> r = k \<and> txn w1 = Some d1" using a(3) x c(5) k by (auto simp: my_release_body_def Let_def split: sum.splits if_splits)
    then show ?thesis using commit_tx [OF k, of d1] c(1,3) d1(2) False by (cases r) auto
  qed
qed

lemma my_update_op: "table_op tbl_of now (\<lambda>t. renewable i who) (\<lambda>t T. renewable i who T \<and> lt_renew i d t T \<noteq> T) (lt_renew i d)
   (\<lambda>t T a. ULeaseExpiresAt a = lease_end t d) (in_lock_tx x what (my_update_body srv tbl i who d))"
proof (rule tx_tableI)
  fix w T r w' assume a: "txn w = Some (committed w)" "tbl_of (committed w) = Some T" "my_update_body srv tbl i who d w = (r, w')"
  let ?t = "now (committed w)" and ?what = "lock_msg ''failed to update lease for lock '' i ''''"
    and ?a = "[LInt (duration_seconds d), LInt i, LStr who]"
  obtain r1 w1 where x: "exec_affected srv ?what (my_update_q tbl) ?a w = (r1, w1)" by fastforce
  obtain m d1 where d1: "ls_exec srv (my_update_q tbl) ?a (committed w) = (Inr (Inr m), d1)"
    and T1: "renewable i who T \<Longrightarrow> tbl_of d1 = Some (lt_renew i d ?t T)"
    and m: "renewable i who T \<and> lt_renew i d ?t T \<noteq> T \<Longrightarrow> m \<noteq> 0" "\<not> renewable i who T \<Longrightarrow> m = 0"
  proof -
    have T': "(case T i of Some r \<Rightarrow> if renewable i who T then T(i \<mapsto> r\<lparr>row_lease := Some (lease_end ?t d)\<rparr>) else T | None \<Rightarrow> T) =
        (if renewable i who T then lt_renew i d ?t T else T)"
      by (cases "T i") (simp_all add: lt_renew_def renewable_def)
    obtain m d1 where "ls_exec srv (my_update_q tbl) ?a (committed w) = (Inr (Inr m), d1)"
      "tbl_of d1 = Some (if renewable i who T then lt_renew i d ?t T else T)"
      "(if renewable i who T then lt_renew i d ?t T else T) \<noteq> T \<longrightarrow> m \<noteq> 0" "\<not> renewable i who T \<longrightarrow> m = 0"
      using my_update [OF a(2), of "duration_seconds d" i who] unfolding Let_def lease_end_def [symmetric] T' by blast
    then show ?thesis by (intro that [of m d1]) simp_all
  qed
  note c = affected_tx [OF x a(1) d1]
  show "isl r \<and> committed w' = committed w \<and> (faults w = [] \<longrightarrow> \<not> (renewable i who T \<and> lt_renew i d ?t T \<noteq> T)) \<or>
      renewable i who T \<and> tbl_of (committed w') = Some (lt_renew i d ?t T) \<and>
        (case r of Inr a \<Rightarrow> ULeaseExpiresAt a = lease_end ?t d | Inl e \<Rightarrow> faults w \<noteq> [])"
  proof (cases "isl r1 \<or> m = 0")
    case True
    then have "isl r \<and> w' = w1" using a(3) x c(5) by (auto simp: my_update_body_def Let_def split: sum.splits if_splits)
    then show ?thesis using True c(1,5) m(1) by auto
  next
    case False
    then have r1: "r1 = Inr m" "txn w1 = Some d1" "renewable i who T" using c(5) m(2) by auto
    obtain r2 w2 where q: "lock_QueryRow srv HTx (my_lease_q tbl) [LInt i] w1 = (r2, w2)" by fastforce
    obtain d2 where d2: "ls_query srv (my_lease_q tbl) [LInt i] d1 = (Inr ([[CTime (lease_end ?t d)]], None, None), d2)"
      "tbl_of d2 = Some (lt_renew i d ?t T)"
      using my_lease [OF T1 [OF r1(3)], of i] r1(3) by (auto simp: lt_renew_def renewable_def opt_cell_def split: option.splits)
    note c2 = query_row_tx [OF q r1(2) d2(1)]
    obtain k w3 where k: "commit_as ?what \<lparr>ULeaseExpiresAt = lease_end ?t d\<rparr> w2 = (k, w3)" by fastforce
    have "isl r \<and> w' = w2 \<and> faults w1 \<noteq> [] \<or> w' = w3 \<and> r = k \<and> txn w2 = Some d2"
      using a(3) x q r1(1) k c2(5) False by (auto simp: my_update_body_def Let_def first_row_def cell_defs split: sum.splits)
    moreover have "faults w2 \<noteq> [] \<or> faults w1 \<noteq> [] \<Longrightarrow> faults w \<noteq> []" using c(3) c2(3) by blast
    ultimately show ?thesis using commit_tx [OF k, of d2] c(1) c2(1) d2(2) r1(3) by (cases r) auto
  qed
qed

lemma my_status_op: "table_op tbl_of now (\<lambda>t T. T i \<noteq> None) (\<lambda>t T. T i \<noteq> None) (\<lambda>t T. T)
   (\<lambda>t T s. \<exists>r. T i = Some r \<and> status_of r s) (my_CheckLockStatus srv tbl i)"
  using check_status_op [OF my_status, of now] by (simp add: my_CheckLockStatus_def [abs_def])

lemma clear_stale:
  assumes "set ids = stale_ids t T"
  shows "(\<lambda>i. if i \<in> set ids \<and> T i \<noteq> None then Some row_cleared else T i) = lt_cleanup t T"
proof
  show "(if i \<in> set ids \<and> T i \<noteq> None then Some row_cleared else T i) = lt_cleanup t T i" for i
    using assms by (cases "T i") (auto simp: lt_cleanup_def stale_ids_def)
qed

lemma no_stale: "stale_ids t T = {} \<Longrightarrow> lt_cleanup t T = T"
proof
  show "stale_ids t T = {} \<Longrightarrow> lt_cleanup t T i = T i" for i by (cases "T i") (auto simp: lt_cleanup_def stale_ids_def)
qed

lemma my_cleanup_op: "table_op tbl_of now (\<lambda>t T. True) (\<lambda>t T. True) lt_cleanup (\<lambda>t T ids. set ids = stale_ids t T)
   (in_lock_tx x what (my_cleanup_body srv x tbl))"
proof (rule tx_tableI)
  fix w T r w' assume a: "txn w = Some (committed w)" "tbl_of (committed w) = Some T" "my_cleanup_body srv x tbl w = (r, w')"
  let ?t = "now (committed w)"
  obtain r1 w1 where q: "lock_Query srv HTx (my_stale_q tbl) [] w = (r1, w1)" by fastforce
  obtain ids d1 where d1: "ls_query srv (my_stale_q tbl) [] (committed w) = (Inr (map (\<lambda>i. [CInt i]) ids, None, None), d1)"
    "set ids = stale_ids ?t T" "tbl_of d1 = Some T" using my_stale [OF a(2)] by blast
  have f: "driver_error (ls_query srv (my_stale_q tbl) [] (committed w)) = (Inr (map (\<lambda>i. [CInt i]) ids, None, None), d1)"
    using d1(1) by (simp add: driver_error_def)
  note c = call_tx [OF q [unfolded lock_Query_def] a(1) f]
  obtain r2 w2 where e: "(if ids = [] then (Inr (Inr 0), w1)
      else lock_Exec srv HTx (my_clear_q tbl (length ids)) (map LInt ids) w1) = (r2, w2)" by fastforce
  have step: "committed w2 = committed w1 \<and> (faults w1 = [] \<longrightarrow> faults w2 = []) \<and>
      ((\<exists>n d2. r2 = Inr n \<and> txn w2 = Some d2 \<and> tbl_of d2 = Some (lt_cleanup ?t T)) \<or> isl r2 \<and> faults w1 \<noteq> [])" if "txn w1 = Some d1"
  proof (cases "ids = []")
    case True
    then show ?thesis using e that d1(2,3) no_stale [of ?t T] by auto
  next
    case False
    then have e': "lock_Exec srv HTx (my_clear_q tbl (length ids)) (map LInt ids) w1 = (r2, w2)" using e by simp
    obtain n d2 where d2: "ls_exec srv (my_clear_q tbl (length ids)) (map LInt ids) d1 = (Inr n, d2)" "tbl_of d2 = Some (lt_cleanup ?t T)"
      using my_clear [OF d1(3) False] clear_stale [OF d1(2)] by auto
    have f2: "driver_error (ls_exec srv (my_clear_q tbl (length ids)) (map LInt ids) d1) = (Inr n, d2)" using d2(1) by (simp add: driver_error_def)
    from call_tx [OF e' [unfolded lock_Exec_def] that f2] d2(2) show ?thesis by auto
  qed
  obtain k w3 where k: "commit_as ''cleanup stale locks'' ids w2 = (k, w3)" by fastforce
  show "isl r \<and> committed w' = committed w \<and> (faults w = [] \<longrightarrow> \<not> True) \<or>
      True \<and> tbl_of (committed w') = Some (lt_cleanup ?t T) \<and> (case r of Inr a \<Rightarrow> set a = stale_ids ?t T | Inl e \<Rightarrow> faults w \<noteq> [])"
  proof (cases "isl r1")
    case True
    then have "isl r \<and> w' = w1" using a(3) q by (auto simp: my_cleanup_body_def split: sum.splits)
    then show ?thesis using True c(1,5) by auto
  next
    case False
    then have r1: "r1 = Inr (map (\<lambda>i. [CInt i]) ids, None, None)" "txn w1 = Some d1" using c(5) by auto
    have fw: "faults w1 \<noteq> [] \<or> faults w2 \<noteq> [] \<Longrightarrow> faults w \<noteq> []" using c(3) step [OF r1(2)] by auto
    have "isl r \<and> w' = w2 \<and> isl r2 \<or> w' = w3 \<and> r = k \<and> \<not> isl r2"
      using a(3) q r1(1) e k by (auto simp: my_cleanup_body_def split: sum.splits)
    then show ?thesis
    proof (elim disjE conjE)
      assume "isl r" "w' = w2" "isl r2"
      then show ?thesis using step [OF r1(2)] c(1) fw by auto
    next
      assume g: "w' = w3" "r = k" "\<not> isl r2"
      then obtain d2 where d2: "txn w2 = Some d2" "tbl_of d2 = Some (lt_cleanup ?t T)" using step [OF r1(2)] by auto
      show ?thesis using commit_tx [OF k d2(1)] g(1,2) d2(2) d1(2) c(1) step [OF r1(2)] fw by (cases r) auto
    qed
  qed
qed

lemma missing_affected:
  assumes "txn w = Some d0" and "ls_exec srv q args d0 = (Inl e, d')"
  shows "isl (fst (exec_affected srv what q args w))"
proof -
  obtain r w1 where c: "lock_Exec srv HTx q args w = (r, w1)" by fastforce
  have f: "driver_error (ls_exec srv q args d0) = (Inl (Msg e), d')" using assms(2) by (simp add: driver_error_def)
  from call_tx(5) [OF c [unfolded lock_Exec_def] assms(1) f] show ?thesis using c by (auto simp: exec_affected_def)
qed

lemma in_lock_tx_fails:
  assumes "txn w = None" and "\<And>w1. txn w1 = Some (committed w) \<Longrightarrow> isl (fst (body w1))"
  shows "isl (fst (in_lock_tx x what body w))"
proof -
  obtain b w1 where b: "BeginTx w = (b, w1)" by fastforce
  have "isl (fst (body w1))" if "b = None" using assms(2) BeginTx_near(1) [OF b assms(1) that, of "\<lambda>_. 0" "\<lambda>_. ()"] by simp
  then show ?thesis using b by (cases b; cases "body w1"; cases "fst (body w1)") (auto simp: in_lock_tx_def split: prod.splits)
qed

lemma my_acquire_none: "txn w = None \<Longrightarrow> tbl_of (committed w) = None \<Longrightarrow> isl (fst (my_AcquireLock srv x tbl i who d w))"
proof (unfold my_AcquireLock_def, rule in_lock_tx_fails)
  fix w1 :: "'d world" assume w: "tbl_of (committed w) = None" "txn w1 = Some (committed w)"
  let ?a = "[LInt i, LStr who, LInt (duration_seconds d)]"
  obtain e d' where "ls_exec srv (my_insert_q tbl) ?a (committed w) = (Inl e, d')" using my_missing [OF w(1)] by blast
  from missing_affected [OF w(2) this, of "lock_msg ''acquire lock '' i ''''"]
  have "fst (my_take srv tbl i who (duration_seconds d) w1) \<noteq> None" by (auto simp: my_take_def Let_def split: prod.splits sum.splits)
  then show "isl (fst (my_acquire_body srv tbl i who d w1))" by (auto simp: my_acquire_body_def Let_def split: prod.splits option.splits)
qed

lemma my_update_none: "txn w = None \<Longrightarrow> tbl_of (committed w) = None \<Longrightarrow> isl (fst (my_UpdateLease srv x tbl i who d w))"
proof (unfold my_UpdateLease_def, rule in_lock_tx_fails)
  fix w1 :: "'d world" assume w: "tbl_of (committed w) = None" "txn w1 = Some (committed w)"
  let ?a = "[LInt (duration_seconds d), LInt i, LStr who]"
  obtain e d' where "ls_exec srv (my_update_q tbl) ?a (committed w) = (Inl e, d')" using my_missing [OF w(1)] by blast
  from missing_affected [OF w(2) this, of "lock_msg ''failed to update lease for lock '' i ''''"]
  show "isl (fst (my_update_body srv tbl i who d w1))" by (auto simp: my_update_body_def Let_def split: prod.splits sum.splits)
qed

lemma my_table_ops:
  "table_op tbl_of now (acquirable i) (acquirable i) (lt_acquire i who d)
    (\<lambda>t T a. ALockedBy a = who \<and> ALeaseExpiresAt a = lease_end t d) (my_AcquireLock srv x tbl i who d)"
  "table_op tbl_of now (\<lambda>t. owned i who) (\<lambda>t. owned i who) (\<lambda>t. lt_release i) (\<lambda>t T a. RLockID a = i) (my_ReleaseLock srv x tbl i who)"
  "table_op tbl_of now (\<lambda>t. renewable i who) (\<lambda>t T. renewable i who T \<and> lt_renew i d t T \<noteq> T) (lt_renew i d)
    (\<lambda>t T a. ULeaseExpiresAt a = lease_end t d) (my_UpdateLease srv x tbl i who d)"
  "table_op tbl_of now (\<lambda>t T. True) (\<lambda>t T. True) lt_cleanup (\<lambda>t T ids. set ids = stale_ids t T) (my_CleanupStaleLocks srv x tbl)"
  unfolding my_AcquireLock_def [abs_def] my_ReleaseLock_def [abs_def] my_UpdateLease_def [abs_def] my_CleanupStaleLocks_def [abs_def]
  by (rule my_acquire_op my_release_op my_update_op my_cleanup_op)+

end

text \<open>The store for MySQL keeps the contract.\<close>

sublocale my_lock_server \<subseteq> my: lock_table_store "mysqlStore srv x tbl" tbl_of now other for x
proof (rule lock_table_store.intro, unfold mysqlStore_def lock_store.select_convs)
  show "fst (my_CreateLockTable srv tbl w) = None" if "txn w = None" "faults w = []" for w
    using my_create_laws(4) [OF that(1) surjective_pairing that(2)] .
qed (rule my_quiet my_table_ops my_status_op | (erule (1) my_acquire_none my_update_none) |
     (erule (1) my_create_laws(2,3), (rule refl)?))+

context my_lock_server
begin

lemma my_lock_store: "lock_table_store (mysqlStore srv x tbl) tbl_of now other"
  by (rule my.lock_table_store_axioms)

end

end
