(* ===== verification/Table_Locker.thy ===== *)
theory Table_Locker
  imports Lock_MySQL
begin

text \<open>
  Locks kept in a table: the package \<open>lock/internal/table\<close>, the options of
  \<open>lock/table_locker_options.go\<close> and the constructors of \<open>lock/postgres.go\<close> and \<open>lock/mysql.go\<close>.
  Durations are nanoseconds. Log output is left out. \<open>retry.Do\<close> is an argument of \<open>Lock\<close> and
  \<open>Unlock\<close>: what it does in that call, with what is left of the back-off of the locker and with what
  happens to the server while it sleeps between two attempts.
\<close>

section \<open>Configuration\<close>

definition time_Second :: duration where
  "time_Second = 1000000000"

record ProbeConfig =
  IntervalDuration :: duration
  FailureThreshold :: nat

record table_Config =
  lc_TableName :: string
  lc_LockID :: int
  lc_LeaseDuration :: duration
  lc_HeartbeatInterval :: duration
  lc_LockTimeout :: ProbeConfig
  lc_UnlockTimeout :: ProbeConfig
  lc_RetryPolicy :: "(err \<Rightarrow> bool) option"

definition DefaultLockID :: int where
  "DefaultLockID = 4097083626"

definition DefaultLockTableName :: string where
  "DefaultLockTableName = ''goose_lock''"

datatype TableLockerOption =
    WithLockTableName string
  | WithTableLockID int
  | WithTableLeaseDuration duration
  | WithTableHeartbeatInterval duration
  | WithTableLockTimeout duration nat
  | WithTableUnlockTimeout duration nat
  | WithTableLogger
  | WithTableRetryPolicy "(err \<Rightarrow> bool) option"

text \<open>The checks of the two options for a time-out, which differ in the messages.\<close>

definition probe_config :: "string \<Rightarrow> duration \<Rightarrow> nat \<Rightarrow> err + ProbeConfig" where
  "probe_config what intervalDuration failureThreshold =
     (if intervalDuration \<le> 0 then Inl (Msg (what @ '' timeout interval duration must be positive''))
      else if failureThreshold = 0 then Inl (Msg (what @ '' timeout failure threshold must be positive''))
      else Inr \<lparr>IntervalDuration = intervalDuration, FailureThreshold = failureThreshold\<rparr>)"

fun apply_TableLockerOption :: "TableLockerOption \<Rightarrow> table_Config \<Rightarrow> err + table_Config" where
  "apply_TableLockerOption (WithLockTableName name) c =
     (if name = '''' then Inl (Msg ''lock table name must not be empty'') else Inr (c\<lparr>lc_TableName := name\<rparr>))"
| "apply_TableLockerOption (WithTableLockID lockID) c =
     (if lockID \<le> 0 then Inl (Msg (''lock ID must be greater than zero: '' @ FormatInt lockID)) else Inr (c\<lparr>lc_LockID := lockID\<rparr>))"
| "apply_TableLockerOption (WithTableLeaseDuration d) c =
     (if d \<le> 0 then Inl (Msg ''lease duration must be positive'') else Inr (c\<lparr>lc_LeaseDuration := d\<rparr>))"
| "apply_TableLockerOption (WithTableHeartbeatInterval d) c =
     (if d \<le> 0 then Inl (Msg ''heartbeat interval must be positive'') else Inr (c\<lparr>lc_HeartbeatInterval := d\<rparr>))"
| "apply_TableLockerOption (WithTableLockTimeout d n) c =
     (case probe_config ''lock'' d n of Inl e \<Rightarrow> Inl e | Inr p \<Rightarrow> Inr (c\<lparr>lc_LockTimeout := p\<rparr>))"
| "apply_TableLockerOption (WithTableUnlockTimeout d n) c =
     (case probe_config ''unlock'' d n of Inl e \<Rightarrow> Inl e | Inr p \<Rightarrow> Inr (c\<lparr>lc_UnlockTimeout := p\<rparr>))"
| "apply_TableLockerOption WithTableLogger c = Inr c"
| "apply_TableLockerOption (WithTableRetryPolicy p) c = Inr (c\<lparr>lc_RetryPolicy := p\<rparr>)"

fun apply_table_options :: "TableLockerOption list \<Rightarrow> table_Config \<Rightarrow> err + table_Config" where
  "apply_table_options [] c = Inr c"
| "apply_table_options (opt # opts) c =
     (case apply_TableLockerOption opt c of Inl e \<Rightarrow> Inl e | Inr c' \<Rightarrow> apply_table_options opts c')"

definition default_table_config :: table_Config where
  "default_table_config =
     \<lparr>lc_TableName = DefaultLockTableName, lc_LockID = DefaultLockID, lc_LeaseDuration = 30 * time_Second,
      lc_HeartbeatInterval = 5 * time_Second,
      lc_LockTimeout = \<lparr>IntervalDuration = 5 * time_Second, FailureThreshold = 60\<rparr>,
      lc_UnlockTimeout = \<lparr>IntervalDuration = 2 * time_Second, FailureThreshold = 30\<rparr>,
      lc_RetryPolicy = None\<rparr>"

section \<open>The locker\<close>

text \<open>
  The fields that stay as they are, and those that \<open>Lock\<close> and \<open>Unlock\<close> change. The logger and the
  table name, which the locker stores and never reads, are left out.
\<close>

record 'd table_locker =
  tl_store :: "'d lock_store"
  tl_lockID :: int
  tl_instanceID :: string
  tl_leaseDuration :: duration
  tl_heartbeatInterval :: duration
  tl_retryLock :: ProbeConfig
  tl_retryUnlock :: ProbeConfig
  tl_retryPolicy :: "(err \<Rightarrow> bool) option"

text \<open>The goroutine of the heartbeat: none, running, or ended because the context of \<open>Lock\<close> is done.\<close>

datatype heartbeat = NoHeartbeat | Beating | BeatEnded

record 'd locker_state =
  lk_mu :: bool
  lk_heartbeat :: heartbeat
  lk_world :: "'d world"

fun hex_digits :: "nat \<Rightarrow> string" where
  "hex_digits n = (let c = ''0123456789abcdef'' ! (n mod 16) in if n < 16 then [c] else hex_digits (n div 16) @ [c])"

declare hex_digits.simps [simp del]

definition pad_zeros :: "nat \<Rightarrow> string \<Rightarrow> string" where
  "pad_zeros n s = replicate (n - length s) (CHR ''0'') @ s"

text \<open>The random bytes, or none when the source of randomness fails and the clock is used.\<close>

definition randomHex :: "nat \<Rightarrow> nat list option \<Rightarrow> nat \<Rightarrow> string" where
  "randomHex n bytes clock =
     (case bytes of
        Some bs \<Rightarrow> concat (map (\<lambda>b. pad_zeros 2 (hex_digits b)) bs)
      | None \<Rightarrow> pad_zeros (n * 2) (hex_digits clock))"

record identity =
  id_hostname :: string
  id_pid :: nat
  id_bytes :: "nat list option"
  id_clock :: nat

definition instance_ID :: "identity \<Rightarrow> string" where
  "instance_ID me =
     (if id_hostname me = '''' then ''unknown-hostname'' else id_hostname me) @ ''-'' @ FormatNat (id_pid me) @ ''-'' @
     randomHex 4 (id_bytes me) (id_clock me)"

definition table_New :: "'d lock_store \<Rightarrow> identity \<Rightarrow> table_Config \<Rightarrow> 'd table_locker" where
  "table_New st me cfg =
     \<lparr>tl_store = st, tl_lockID = lc_LockID cfg, tl_instanceID = instance_ID me, tl_leaseDuration = lc_LeaseDuration cfg,
      tl_heartbeatInterval = lc_HeartbeatInterval cfg, tl_retryLock = lc_LockTimeout cfg, tl_retryUnlock = lc_UnlockTimeout cfg,
      tl_retryPolicy = lc_RetryPolicy cfg\<rparr>"

definition NewPostgresTableLocker ::
    "'d lock_server \<Rightarrow> ext \<Rightarrow> identity \<Rightarrow> TableLockerOption list \<Rightarrow> err + 'd table_locker" where
  "NewPostgresTableLocker srv x me opts =
     (case apply_table_options opts default_table_config of
        Inl e \<Rightarrow> Inl e
      | Inr cfg \<Rightarrow>
          (case lock_NewPostgres srv x (lc_TableName cfg) of
             Inl e \<Rightarrow> Inl (Wrap ''create lock store'' e)
           | Inr st \<Rightarrow> Inr (table_New st me cfg)))"

definition NewMySQLTableLocker ::
    "'d lock_server \<Rightarrow> ext \<Rightarrow> identity \<Rightarrow> TableLockerOption list \<Rightarrow> err + 'd table_locker" where
  "NewMySQLTableLocker srv x me opts =
     (case apply_table_options opts default_table_config of
        Inl e \<Rightarrow> Inl e
      | Inr cfg \<Rightarrow>
          (case NewMySQL srv x (lc_TableName cfg) of
             Inl e \<Rightarrow> Inl (Wrap ''create lock store'' e)
           | Inr st \<Rightarrow> Inr (table_New st me cfg)))"

definition shouldRetry :: "'d table_locker \<Rightarrow> err \<Rightarrow> bool" where
  "shouldRetry l e = (case tl_retryPolicy l of Some p \<Rightarrow> p e | None \<Rightarrow> True)"

section \<open>The heartbeat\<close>

definition stopHeartbeat :: "'d locker_state \<Rightarrow> 'd locker_state" where
  "stopHeartbeat s = s\<lparr>lk_heartbeat := NoHeartbeat\<rparr>"

definition startHeartbeat :: "'d locker_state \<Rightarrow> 'd locker_state" where
  "startHeartbeat s = (stopHeartbeat s)\<lparr>lk_heartbeat := Beating\<rparr>"

text \<open>
  One turn of the goroutine: the context is done, or the ticker fired. A failed renewal is logged
  and the loop goes on.
\<close>

definition heartbeat_turn :: "'d table_locker \<Rightarrow> bool \<Rightarrow> 'd locker_state \<Rightarrow> 'd locker_state" where
  "heartbeat_turn l ctxDone s =
     (if lk_heartbeat s \<noteq> Beating then s
      else if ctxDone then s\<lparr>lk_heartbeat := BeatEnded\<rparr>
      else
        (case UpdateLease (tl_store l) (tl_lockID l) (tl_instanceID l) (tl_leaseDuration l) (lk_world s) of
           (result, w) \<Rightarrow> s\<lparr>lk_world := w\<rparr>))"

section \<open>Lock and Unlock\<close>

type_synonym 'w retrier = "('w \<Rightarrow> attempt \<times> 'w) \<Rightarrow> 'w \<Rightarrow> err option \<times> 'w"

definition acquire_attempt :: "'d table_locker \<Rightarrow> 'd world \<Rightarrow> attempt \<times> 'd world" where
  "acquire_attempt l w =
     (case AcquireLock (tl_store l) (tl_lockID l) (tl_instanceID l) (tl_leaseDuration l) w of
        (Inr _, w1) \<Rightarrow> (Ended, w1)
      | (Inl e, w1) \<Rightarrow>
          (case CleanupStaleLocks (tl_store l) w1 of
             (_, w2) \<Rightarrow>
               (if shouldRetry l e then Retryable (Wrap ''acquire retryable lock'' e) else Permanent (Wrap ''acquire lock'' e), w2)))"

text \<open>\<open>Lock\<close> waits, here \<open>None\<close>, while the mutex of the locker is held.\<close>

definition table_Lock :: "'d table_locker \<Rightarrow> 'd world retrier \<Rightarrow> 'd locker_state \<Rightarrow> (err option \<times> 'd locker_state) option" where
  "table_Lock l retry s =
     (if lk_mu s then None
      else
        (case CreateLockTable (tl_store l) (lk_world s) of
           (Some e, w1) \<Rightarrow> Some (Some (Wrap ''ensure lock table exists'' e), s\<lparr>lk_world := w1\<rparr>)
         | (None, w1) \<Rightarrow>
             (case retry (acquire_attempt l) w1 of
                (Some e, w2) \<Rightarrow>
                  Some (Some (Wrap (lock_msg ''acquire lock '' (tl_lockID l) '' after retries'') e), s\<lparr>lk_world := w2\<rparr>)
              | (None, w2) \<Rightarrow> Some (None, startHeartbeat (s\<lparr>lk_mu := True, lk_world := w2\<rparr>)))))"

definition release_attempt :: "'d table_locker \<Rightarrow> 'd world \<Rightarrow> attempt \<times> 'd world" where
  "release_attempt l w =
     (case ReleaseLock (tl_store l) (tl_lockID l) (tl_instanceID l) w of
        (Inr _, w1) \<Rightarrow> (Ended, w1)
      | (Inl e, w1) \<Rightarrow>
          (if shouldRetry l e then Retryable (Wrap ''release retryable lock'' e) else Permanent (Wrap ''release lock'' e), w1))"

text \<open>The deferred unlocking of a mutex that is not locked ends the process.\<close>

definition table_Unlock :: "'d table_locker \<Rightarrow> 'd world retrier \<Rightarrow> 'd locker_state \<Rightarrow> err option \<times> 'd locker_state" where
  "table_Unlock l retry s =
     (let s1 = stopHeartbeat s
      in case retry (release_attempt l) (lk_world s1) of
           (r, w1) \<Rightarrow>
             (if lk_mu s then (r, s1\<lparr>lk_mu := False, lk_world := w1\<rparr>)
              else (Some (Panic ''sync: unlock of unlocked mutex''), s1\<lparr>lk_world := w1\<rparr>)))"

end
