(* ===== verification/Lock_System.thy ===== *)
theory Lock_System
  imports Table_Locker
begin

text \<open>
  Several instances with one lock. A step is one call of the store by one instance, the end of an
  instance (a crash, or the beginning of its \<open>Unlock\<close>), or anything else that happens to the server:
  time passes, faults come and go, other locks and other tables change. For an instance that holds
  the lock the system remembers the end of the lease that the store has reported to it.
\<close>

section \<open>The system\<close>

record 'd lock_system =
  sy_world :: "'d world"
  sy_holds :: "string \<Rightarrow> int option"

inductive lock_step ::
    "'d lock_store \<Rightarrow> ('d \<Rightarrow> lock_table option) \<Rightarrow> ('d \<Rightarrow> int) \<Rightarrow> int \<Rightarrow> (string \<Rightarrow> duration) \<Rightarrow> 'd lock_system \<Rightarrow> 'd lock_system \<Rightarrow> bool"
  for st tbl_of now lockID lease where
  created: "CreateLockTable st (sy_world y) = (r, w) \<Longrightarrow> lock_step st tbl_of now lockID lease y (y\<lparr>sy_world := w\<rparr>)"
| acquired: "sy_holds y i = None \<Longrightarrow> AcquireLock st lockID i (lease i) (sy_world y) = (Inr a, w) \<Longrightarrow>
    lock_step st tbl_of now lockID lease y (y\<lparr>sy_world := w, sy_holds := (sy_holds y)(i := Some (ALeaseExpiresAt a))\<rparr>)"
| not_acquired: "sy_holds y i = None \<Longrightarrow> AcquireLock st lockID i (lease i) (sy_world y) = (Inl e, w) \<Longrightarrow>
    lock_step st tbl_of now lockID lease y (y\<lparr>sy_world := w\<rparr>)"
| cleaned_up: "CleanupStaleLocks st (sy_world y) = (r, w) \<Longrightarrow> lock_step st tbl_of now lockID lease y (y\<lparr>sy_world := w\<rparr>)"
| renewed: "sy_holds y i = Some l \<Longrightarrow> UpdateLease st lockID i (lease i) (sy_world y) = (Inr u, w) \<Longrightarrow>
    lock_step st tbl_of now lockID lease y (y\<lparr>sy_world := w, sy_holds := (sy_holds y)(i := Some (ULeaseExpiresAt u))\<rparr>)"
| not_renewed: "sy_holds y i = Some l \<Longrightarrow> UpdateLease st lockID i (lease i) (sy_world y) = (Inl e, w) \<Longrightarrow>
    lock_step st tbl_of now lockID lease y (y\<lparr>sy_world := w\<rparr>)"
| released: "ReleaseLock st lockID i (sy_world y) = (r, w) \<Longrightarrow>
    lock_step st tbl_of now lockID lease y (y\<lparr>sy_world := w, sy_holds := (sy_holds y)(i := None)\<rparr>)"
| ended: "lock_step st tbl_of now lockID lease y (y\<lparr>sy_holds := (sy_holds y)(i := None)\<rparr>)"
| server: "txn w = None \<Longrightarrow> now (committed (sy_world y)) \<le> now (committed w) \<Longrightarrow>
    (\<And>T. tbl_of (committed (sy_world y)) = Some T \<Longrightarrow> \<exists>T'. tbl_of (committed w) = Some T' \<and> T' lockID = T lockID) \<Longrightarrow>
    lock_step st tbl_of now lockID lease y (y\<lparr>sy_world := w\<rparr>)"

inductive_cases lock_stepE: "lock_step st tbl_of now lockID lease y y'"

definition nobody_holds :: "'d world \<Rightarrow> 'd lock_system" where
  "nobody_holds w = \<lparr>sy_world = w, sy_holds = Map.empty\<rparr>"

section \<open>The invariant\<close>

text \<open>
  An instance whose lease has not run out is the owner in the table, for at least as long as it
  knows; and no instance knows of a lease beyond the longest it could have now.
\<close>

definition has_row :: "int \<Rightarrow> string \<Rightarrow> int \<Rightarrow> lock_table option \<Rightarrow> bool" where
  "has_row lockID i l t \<longleftrightarrow> (\<exists>T r e. t = Some T \<and> T lockID = Some r \<and> row_locked r \<and> row_by r = Some i \<and> row_lease r = Some e \<and> l \<le> e)"

definition lock_inv ::
    "('d \<Rightarrow> lock_table option) \<Rightarrow> ('d \<Rightarrow> int) \<Rightarrow> int \<Rightarrow> (string \<Rightarrow> duration) \<Rightarrow> 'd lock_system \<Rightarrow> bool" where
  "lock_inv tbl_of now lockID lease y \<longleftrightarrow> txn (sy_world y) = None \<and>
     (\<forall>i l. sy_holds y i = Some l \<longrightarrow> l \<le> lease_end (now (committed (sy_world y))) (lease i) \<and>
        (now (committed (sy_world y)) \<le> l \<longrightarrow> has_row lockID i l (tbl_of (committed (sy_world y)))))"

lemma lock_invD:
  assumes "lock_inv tbl_of now lockID lease y" and "sy_holds y i = Some l"
  shows "l \<le> lease_end (now (committed (sy_world y))) (lease i)"
    and "now (committed (sy_world y)) \<le> l \<Longrightarrow> has_row lockID i l (tbl_of (committed (sy_world y)))"
  using assms by (auto simp: lock_inv_def)

lemma inv_nobody: "txn w = None \<Longrightarrow> lock_inv tbl_of now lockID lease (nobody_holds w)"
  by (simp add: lock_inv_def nobody_holds_def)

text \<open>
  A step to another world keeps the invariant when it keeps the rows of the holders, except for the
  instances it changes.
\<close>

lemma inv_step:
  assumes "lock_inv tbl_of now lockID lease y" and "txn w = None" and "now (committed (sy_world y)) \<le> now (committed w)"
    and "\<And>i l. h i = Some l \<Longrightarrow> sy_holds y i = Some l \<and>
      (now (committed w) \<le> l \<longrightarrow> has_row lockID i l (tbl_of (committed (sy_world y))) \<longrightarrow> has_row lockID i l (tbl_of (committed w))) \<or>
      l \<le> lease_end (now (committed w)) (lease i) \<and> has_row lockID i l (tbl_of (committed w))"
  shows "lock_inv tbl_of now lockID lease (y\<lparr>sy_world := w, sy_holds := h\<rparr>)"
proof -
  have "l \<le> lease_end (now (committed w)) (lease i) \<and> (now (committed w) \<le> l \<longrightarrow> has_row lockID i l (tbl_of (committed w)))"
    if h: "h i = Some l" for i l
  proof (cases "l \<le> lease_end (now (committed w)) (lease i) \<and> has_row lockID i l (tbl_of (committed w))")
    case False
    then have k: "sy_holds y i = Some l"
      "now (committed w) \<le> l \<longrightarrow> has_row lockID i l (tbl_of (committed (sy_world y))) \<longrightarrow> has_row lockID i l (tbl_of (committed w))"
      using assms(4) [OF h] by auto
    note inv = lock_invD [OF assms(1) k(1)]
    show ?thesis using inv k(2) assms(3) by (auto simp: lease_end_def)
  qed auto
  then show ?thesis using assms(2) by (auto simp: lock_inv_def)
qed

lemma inv_world:
  assumes "lock_inv tbl_of now lockID lease y" and "txn w = None" and "now (committed (sy_world y)) \<le> now (committed w)"
    and "\<And>i l. sy_holds y i = Some l \<Longrightarrow> now (committed w) \<le> l \<Longrightarrow> has_row lockID i l (tbl_of (committed (sy_world y))) \<Longrightarrow>
      has_row lockID i l (tbl_of (committed w))"
  shows "lock_inv tbl_of now lockID lease (y\<lparr>sy_world := w\<rparr>)"
  using inv_step [OF assms(1-3), of "sy_holds y"] assms(4) by simp

text \<open>The effects on the table keep the rows of the instances with a lease.\<close>

lemma has_row_acquire: "has_row lockID i l (Some T) \<Longrightarrow> t \<le> l \<Longrightarrow> \<not> acquirable lockID t T"
  by (auto simp: has_row_def acquirable_def expired_def)

lemma has_row_cleanup: "has_row lockID i l (Some T) \<Longrightarrow> t \<le> l \<Longrightarrow> has_row lockID i l (Some (lt_cleanup t T))"
proof -
  assume a: "has_row lockID i l (Some T)" "t \<le> l"
  then obtain r e where r: "T lockID = Some r" "row_locked r" "row_by r = Some i" "row_lease r = Some e" "l \<le> e"
    by (auto simp: has_row_def)
  then have "lt_cleanup t T lockID = Some r" using a(2) by (simp add: lt_cleanup_def stale_def expired_def)
  with r show ?thesis by (simp add: has_row_def)
qed

lemma has_row_release: "has_row lockID i l (Some T) \<Longrightarrow> owned lockID j T \<Longrightarrow> j = i"
  by (auto simp: has_row_def owned_def)

lemma has_row_renew: "has_row lockID i l (Some T) \<Longrightarrow> renewable lockID j T \<Longrightarrow> j = i"
  by (auto simp: has_row_def renewable_def)

lemma has_row_renewed: "renewable lockID i T \<Longrightarrow> l \<le> lease_end t d \<Longrightarrow> has_row lockID i l (Some (lt_renew lockID d t T))"
  by (auto simp: has_row_def renewable_def lt_renew_def split: option.splits)

lemma has_row_acquired: "has_row lockID i (lease_end t d) (Some (lt_acquire lockID i d t T))"
  by (simp add: has_row_def lt_acquire_def)

lemma has_row_Some: "has_row lockID i l t \<Longrightarrow> \<exists>T. t = Some T"
  by (auto simp: has_row_def)

context lock_table_store
begin

text \<open>An operation keeps the rows of the holders whenever its effect does.\<close>

lemma op_keeps_rows:
  assumes "table_op tbl_of now cond sure eff res p" and "txn w = None" and "p w = (r, w')"
    and "has_row lockID i l (tbl_of (committed w))"
    and "\<And>T. tbl_of (committed w) = Some T \<Longrightarrow> cond (now (committed w)) T \<Longrightarrow> has_row lockID i l (Some T) \<Longrightarrow>
      has_row lockID i l (Some (eff (now (committed w)) T))"
  shows "has_row lockID i l (tbl_of (committed w'))"
proof -
  obtain T where T: "tbl_of (committed w) = Some T" using has_row_Some [OF assms(4)] by blast
  note l = table_opD [OF assms(1,2) T assms(3)]
  have "tbl_of (committed w') = Some T \<or> cond (now (committed w)) T \<and> tbl_of (committed w') = Some (eff (now (committed w)) T)"
    using l(1,2) by (cases r) auto
  then show ?thesis using assms(4,5) T by auto
qed

lemma quiet_world:
  "quiet_op now other p \<Longrightarrow> txn w = None \<Longrightarrow> p w = (r, w') \<Longrightarrow> txn w' = None \<and> now (committed w') = now (committed w)"
  using quiet_opD [of now other p w r w'] by (auto simp: lock_quiet_def calm_def)

lemma created_inv:
  assumes "lock_inv tbl_of now lockID lease y" and "CreateLockTable st (sy_world y) = (r, w)"
  shows "lock_inv tbl_of now lockID lease (y\<lparr>sy_world := w\<rparr>)"
proof (rule inv_world [OF assms(1)])
  have t: "txn (sy_world y) = None" using assms(1) by (simp add: lock_inv_def)
  show "txn w = None" "now (committed (sy_world y)) \<le> now (committed w)" using quiet_world [OF create_quiet t assms(2)] by auto
  show "has_row lockID i l (tbl_of (committed w))" if "has_row lockID i l (tbl_of (committed (sy_world y)))" for i l
    using create_ok [OF t, of w] create_err [OF t, of _ w] assms(2) that has_row_Some [OF that] by (cases r) auto
qed

lemma cleaned_inv:
  assumes "lock_inv tbl_of now lockID lease y" and "CleanupStaleLocks st (sy_world y) = (r, w)"
  shows "lock_inv tbl_of now lockID lease (y\<lparr>sy_world := w\<rparr>)"
proof (rule inv_world [OF assms(1)])
  have t: "txn (sy_world y) = None" using assms(1) by (simp add: lock_inv_def)
  note q = quiet_world [OF cleanup_quiet t assms(2)]
  show "txn w = None" "now (committed (sy_world y)) \<le> now (committed w)" using q by auto
  show "has_row lockID i l (tbl_of (committed w))"
    if "now (committed w) \<le> l" "has_row lockID i l (tbl_of (committed (sy_world y)))" for i l
    using op_keeps_rows [OF cleanup_op t assms(2) that(2)] has_row_cleanup q that(1) by simp
qed

lemma acquire_inv:
  assumes "lock_inv tbl_of now lockID lease y" and "sy_holds y j = None"
    and "AcquireLock st lockID j (lease j) (sy_world y) = (r, w)"
  shows "lock_inv tbl_of now lockID lease
     (y\<lparr>sy_world := w, sy_holds := (case r of Inl e \<Rightarrow> sy_holds y | Inr a \<Rightarrow> (sy_holds y)(j := Some (ALeaseExpiresAt a)))\<rparr>)"
proof (rule inv_step [OF assms(1)])
  have t: "txn (sy_world y) = None" using assms(1) by (simp add: lock_inv_def)
  note q = quiet_world [OF acquire_quiet t assms(3)]
  show "txn w = None" "now (committed (sy_world y)) \<le> now (committed w)" using q by auto
  fix i l assume h: "(case r of Inl e \<Rightarrow> sy_holds y | Inr a \<Rightarrow> (sy_holds y)(j := Some (ALeaseExpiresAt a))) i = Some l"
  have keep: "has_row lockID i l (tbl_of (committed w))"
    if "now (committed w) \<le> l" "has_row lockID i l (tbl_of (committed (sy_world y)))"
    using op_keeps_rows [OF acquire_op t assms(3) that(2)] has_row_acquire q that(1) by metis
  show "sy_holds y i = Some l \<and>
      (now (committed w) \<le> l \<longrightarrow> has_row lockID i l (tbl_of (committed (sy_world y))) \<longrightarrow> has_row lockID i l (tbl_of (committed w))) \<or>
      l \<le> lease_end (now (committed w)) (lease i) \<and> has_row lockID i l (tbl_of (committed w))"
  proof (cases "sy_holds y i = Some l")
    case False
    then obtain a where a: "r = Inr a" "i = j" "l = ALeaseExpiresAt a" using h by (auto split: sum.splits if_splits)
    have "l \<le> lease_end (now (committed w)) (lease i) \<and> has_row lockID i l (tbl_of (committed w))"
    proof (cases "tbl_of (committed (sy_world y))")
      case (Some T)
      from table_opD(1) [OF acquire_op t this assms(3) a(1)] show ?thesis using a q has_row_acquired by simp
    next
      case None
      show ?thesis using acquire_none [OF t None, of lockID j "lease j"] assms(3) a(1) by simp
    qed
    then show ?thesis by blast
  qed (use keep in blast)
qed

lemma renew_inv:
  assumes "lock_inv tbl_of now lockID lease y" and "sy_holds y j = Some l0"
    and "UpdateLease st lockID j (lease j) (sy_world y) = (r, w)"
  shows "lock_inv tbl_of now lockID lease
     (y\<lparr>sy_world := w, sy_holds := (case r of Inl e \<Rightarrow> sy_holds y | Inr u \<Rightarrow> (sy_holds y)(j := Some (ULeaseExpiresAt u)))\<rparr>)"
proof (rule inv_step [OF assms(1)])
  have t: "txn (sy_world y) = None" using assms(1) by (simp add: lock_inv_def)
  note q = quiet_world [OF update_quiet t assms(3)]
  show "txn w = None" "now (committed (sy_world y)) \<le> now (committed w)" using q by auto
  fix i l assume h: "(case r of Inl e \<Rightarrow> sy_holds y | Inr u \<Rightarrow> (sy_holds y)(j := Some (ULeaseExpiresAt u))) i = Some l"
  have keep: "has_row lockID i l (tbl_of (committed w))"
    if k: "sy_holds y i = Some l" and r: "has_row lockID i l (tbl_of (committed (sy_world y)))"
  proof (rule op_keeps_rows [OF update_op t assms(3) r])
    fix T assume "renewable lockID j T" "has_row lockID i l (Some T)"
    then have "j = i" by (metis has_row_renew)
    with \<open>renewable lockID j T\<close> lock_invD(1) [OF assms(1) k]
    show "has_row lockID i l (Some (lt_renew lockID (lease j) (now (committed (sy_world y))) T))" by (simp add: has_row_renewed)
  qed
  show "sy_holds y i = Some l \<and>
      (now (committed w) \<le> l \<longrightarrow> has_row lockID i l (tbl_of (committed (sy_world y))) \<longrightarrow> has_row lockID i l (tbl_of (committed w))) \<or>
      l \<le> lease_end (now (committed w)) (lease i) \<and> has_row lockID i l (tbl_of (committed w))"
  proof (cases "sy_holds y i = Some l")
    case False
    then obtain u where u: "r = Inr u" "i = j" "l = ULeaseExpiresAt u" using h by (auto split: sum.splits if_splits)
    have "l \<le> lease_end (now (committed w)) (lease i) \<and> has_row lockID i l (tbl_of (committed w))"
    proof (cases "tbl_of (committed (sy_world y))")
      case (Some T)
      from table_opD(1) [OF update_op t this assms(3) u(1)] show ?thesis using u q has_row_renewed by simp
    next
      case None
      show ?thesis using update_none [OF t None, of lockID j "lease j"] assms(3) u(1) by simp
    qed
    then show ?thesis by blast
  qed (use keep in blast)
qed

lemma release_inv:
  assumes "lock_inv tbl_of now lockID lease y" and "ReleaseLock st lockID j (sy_world y) = (r, w)"
  shows "lock_inv tbl_of now lockID lease (y\<lparr>sy_world := w, sy_holds := (sy_holds y)(j := None)\<rparr>)"
proof (rule inv_step [OF assms(1)])
  have t: "txn (sy_world y) = None" using assms(1) by (simp add: lock_inv_def)
  note q = quiet_world [OF release_quiet t assms(2)]
  show "txn w = None" "now (committed (sy_world y)) \<le> now (committed w)" using q by auto
  fix i l assume "((sy_holds y)(j := None)) i = Some l"
  then have i: "i \<noteq> j" "sy_holds y i = Some l" by (auto split: if_splits)
  have "has_row lockID i l (tbl_of (committed w))" if "has_row lockID i l (tbl_of (committed (sy_world y)))"
    using op_keeps_rows [OF release_op t assms(2) that] has_row_release i(1) by metis
  then show "sy_holds y i = Some l \<and>
      (now (committed w) \<le> l \<longrightarrow> has_row lockID i l (tbl_of (committed (sy_world y))) \<longrightarrow> has_row lockID i l (tbl_of (committed w))) \<or>
      l \<le> lease_end (now (committed w)) (lease i) \<and> has_row lockID i l (tbl_of (committed w))"
    using i(2) by blast
qed

lemma step_inv:
  assumes "lock_step st tbl_of now lockID lease y y'" and "lock_inv tbl_of now lockID lease y"
  shows "lock_inv tbl_of now lockID lease y'"
  using assms
proof (cases rule: lock_step.cases)
  case created
  then show ?thesis using created_inv [OF assms(2)] by simp
next
  case acquired
  from acquire_inv [OF assms(2) this(2,3)] show ?thesis by (simp add: acquired(1))
next
  case not_acquired
  from acquire_inv [OF assms(2) this(2,3)] show ?thesis by (simp add: not_acquired(1))
next
  case cleaned_up
  then show ?thesis using cleaned_inv [OF assms(2)] by simp
next
  case renewed
  from renew_inv [OF assms(2) this(2,3)] show ?thesis by (simp add: renewed(1))
next
  case not_renewed
  from renew_inv [OF assms(2) this(2,3)] show ?thesis by (simp add: not_renewed(1))
next
  case released
  then show ?thesis using release_inv [OF assms(2)] by simp
next
  case (ended i)
  then show ?thesis using assms(2) by (auto simp: lock_inv_def split: if_splits)
next
  case (server w)
  have "has_row lockID i l (tbl_of (committed w))" if "has_row lockID i l (tbl_of (committed (sy_world y)))" for i l
    using that server(4) by (fastforce simp: has_row_def)
  with inv_world [OF assms(2) server(2,3)] show ?thesis by (simp add: server(1))
qed

lemma reach_inv:
  assumes "(lock_step st tbl_of now lockID lease)\<^sup>*\<^sup>* (nobody_holds w) y" and "txn w = None"
  shows "lock_inv tbl_of now lockID lease y"
  using assms(1) by (induction rule: rtranclp_induct) (auto intro: inv_nobody [OF assms(2)] step_inv)

lemma exclusive:
  assumes "(lock_step st tbl_of now lockID lease)\<^sup>*\<^sup>* (nobody_holds w) y" and "txn w = None"
    and "sy_holds y i = Some l" and "now (committed (sy_world y)) \<le> l"
    and "sy_holds y j = Some l'" and "now (committed (sy_world y)) \<le> l'"
  shows "i = j"
  using lock_invD(2) [OF reach_inv [OF assms(1,2)] assms(3,4)] lock_invD(2) [OF reach_inv [OF assms(1,2)] assms(5,6)]
  by (auto simp: has_row_def)

end

end
