(* ===== verification/Lock_Props.thy ===== *)
theory Lock_Props
  imports Lock_System
begin

text \<open>
  \<open>Lock\<close>, \<open>Unlock\<close> and the heartbeat of a table locker as runs of the system of instances, what
  \<open>Lock\<close> does on a healthy server, and what a provider relies on.
\<close>

section \<open>Retrying\<close>

text \<open>
  What is documented of \<open>retry.Do\<close> with a back-off of at most \<open>n\<close> retries: it calls the function until
  it ends, fails for good or the retries are used up. A cancelled context may stop it before a call.
\<close>

definition retry_upto :: "nat \<Rightarrow> 'w retrier \<Rightarrow> bool" where
  "retry_upto n retry \<longleftrightarrow> (\<forall>f w. (\<exists>e. retry f w = (Some e, w)) \<or>
     (\<exists>k\<le>n. snd (retry f w) = snd (attempts k f w) \<and> (fst (retry f w) = None \<longleftrightarrow> fst (attempts k f w) = None)))"

lemma retry_cases:
  assumes "retry_upto n retry" and "retry f w = (r, w')"
  obtains "r \<noteq> None" and "w' = w" | k r' where "attempts k f w = (r', w')" and "r = None \<longleftrightarrow> r' = None"
proof -
  have "(\<exists>e. retry f w = (Some e, w)) \<or> (\<exists>k\<le>n. snd (retry f w) = snd (attempts k f w) \<and>
      (fst (retry f w) = None \<longleftrightarrow> fst (attempts k f w) = None))"
    using assms(1) unfolding retry_upto_def by blast
  then show thesis
  proof (elim disjE exE conjE)
    fix k assume "snd (retry f w) = snd (attempts k f w)" "(fst (retry f w) = None) = (fst (attempts k f w) = None)"
    with assms(2) show thesis by (intro that(2) [of k "fst (attempts k f w)"]) simp_all
  qed (use assms(2) that(1) in simp)
qed

text \<open>
  Between two attempts \<open>retry.Do\<close> sleeps, and meanwhile the clock moves and other instances go on. A
  pause is what they do to the world while it lasts; there is one for each retry. With pauses in
  which nothing happens these are the attempts above.
\<close>

fun attempts_in :: "('w \<Rightarrow> 'w) list \<Rightarrow> 'w retrier" where
  "attempts_in [] f w =
     (case f w of (Ended, w') \<Rightarrow> (None, w') | (Retryable e, w') \<Rightarrow> (Some e, w') | (Permanent e, w') \<Rightarrow> (Some e, w'))"
| "attempts_in (pause # pauses) f w =
     (case f w of (Ended, w') \<Rightarrow> (None, w') | (Retryable e, w') \<Rightarrow> attempts_in pauses f (pause w') | (Permanent e, w') \<Rightarrow> (Some e, w'))"

lemma attempts_undisturbed: "attempts k f w = attempts_in (replicate k id) f w"
  by (induction k arbitrary: w) (auto split: prod.splits attempt.splits)

text \<open>An invariant of the attempts: whatever a pause and a failed attempt keep and the last one establishes.\<close>

lemma attempts_in_induct:
  assumes "attempts_in pauses f w = (r, w')" and "P w"
    and "\<And>w w1 e. P w \<Longrightarrow> f w = (Retryable e, w1) \<or> f w = (Permanent e, w1) \<Longrightarrow> P w1"
    and "\<And>w w1. P w \<Longrightarrow> f w = (Ended, w1) \<Longrightarrow> Q w1"
    and "\<And>pause w. pause \<in> set pauses \<Longrightarrow> P w \<Longrightarrow> P (pause w)"
  shows "if r = None then Q w' else P w'"
  using assms(1,2,5)
proof (induction pauses arbitrary: w)
  case Nil
  then show ?case using assms(3,4) [OF Nil(2)] by (auto split: prod.splits attempt.splits)
next
  case (Cons pause pauses)
  obtain a w1 where a: "f w = (a, w1)" by fastforce
  show ?case
  proof (cases a)
    case (Retryable e)
    then have "P w1" using assms(3) [OF Cons.prems(2)] a by blast
    then show ?thesis using Cons.IH [of "pause w1"] Cons.prems(1,3) a Retryable by simp
  qed (use Cons.prems(1) assms(3,4) [OF Cons.prems(2)] a in auto)
qed

lemma attempts_induct:
  assumes "attempts k f w = (r, w')" and "P w"
    and "\<And>w w1 e. P w \<Longrightarrow> f w = (Retryable e, w1) \<or> f w = (Permanent e, w1) \<Longrightarrow> P w1"
    and "\<And>w w1. P w \<Longrightarrow> f w = (Ended, w1) \<Longrightarrow> Q w1"
  shows "if r = None then Q w' else P w'"
  by (rule attempts_in_induct [where P = P and Q = Q, OF assms(1) [unfolded attempts_undisturbed] assms(2)]) (use assms(3,4) in auto)

lemma attempts_quiet:
  assumes "\<And>v b v1. txn v = None \<Longrightarrow> f v = (b, v1) \<Longrightarrow> lock_quiet now other v v1" and "txn w = None" and "attempts k f w = (r, w')"
  shows "lock_quiet now other w w'"
proof -
  let ?P = "\<lambda>v. lock_quiet now other w v"
  have P: "?P w" using assms(2) by (simp add: lock_quiet_def calm_def)
  have step: "?P v1" if "?P v" "f v = (b, v1)" for v b v1
    using that assms(1) [of v b v1] lock_quiet_trans by (auto simp: lock_quiet_def calm_def)
  have "if r = None then ?P w' else ?P w'"
    by (rule attempts_induct [where P = ?P and Q = ?P, OF assms(3) P]) (use step in blast)+
  then show ?thesis by simp
qed

lemma retry_quiet:
  assumes "retry_upto n retry" and "\<And>v b v1. txn v = None \<Longrightarrow> f v = (b, v1) \<Longrightarrow> lock_quiet now other v v1"
    and "txn w = None" and "retry f w = (r, w')"
  shows "lock_quiet now other w w'"
proof (rule retry_cases [OF assms(1,4)])
  show "lock_quiet now other w w'" if "w' = w" using that assms(3) by (simp add: lock_quiet_def calm_def)
  show "lock_quiet now other w w'" if "attempts k f w = (r', w')" for k r' by (rule attempts_quiet [OF assms(2,3) that])
qed

text \<open>
  What everyone else leaves at the end of a pause: the time, and the row of the lock. The server stays
  healthy and the table stays there.
\<close>

definition leaves ::
    "('d \<Rightarrow> lock_table option) \<Rightarrow> ('d \<Rightarrow> int) \<Rightarrow> int \<Rightarrow> ('d world \<Rightarrow> 'd world) \<Rightarrow> int \<times> lock_row option \<Rightarrow> bool" where
  "leaves tbl_of now lockID pause at_end \<longleftrightarrow>
     (\<forall>v. txn v = None \<and> faults v = [] \<and> tbl_of (committed v) \<noteq> None \<longrightarrow> txn (pause v) = None \<and> faults (pause v) = [] \<and>
        now (committed (pause v)) = fst at_end \<and> (\<exists>T. tbl_of (committed (pause v)) = Some T \<and> T lockID = snd at_end))"

text \<open>The first time at which the lock can be taken: there is no row, it was released, or its lease has run out.\<close>

definition first_free :: "int \<Rightarrow> (int \<times> lock_row option) list \<Rightarrow> int option" where
  "first_free lockID sched = map_option fst (find (\<lambda>(t, row). acquirable lockID t (\<lambda>_. row)) sched)"

lemma acquirable_row: "acquirable i t (\<lambda>_. T i) = acquirable i t T"
  by (simp add: acquirable_def)

lemma first_free_Cons:
  "first_free i ((t, T i) # sched) = (if acquirable i t T then Some t else first_free i sched)"
  by (simp add: first_free_def acquirable_row)

section \<open>Runs of one instance\<close>

context lock_table_store
begin

abbreviation step where "step lockID lease \<equiv> lock_step st tbl_of now lockID lease"

lemma acquire_attempt_run:
  assumes "tl_store l = st" and "acquire_attempt l (sy_world y) = (a, w)" and "sy_holds y (tl_instanceID l) = None"
    and "lease (tl_instanceID l) = tl_leaseDuration l"
  shows "\<exists>y'. (step (tl_lockID l) lease)\<^sup>*\<^sup>* y y' \<and> sy_world y' = w \<and>
     (if a = Ended then \<exists>e. sy_holds y' = (sy_holds y)(tl_instanceID l := Some e) else sy_holds y' = sy_holds y)"
proof -
  let ?i = "tl_instanceID l" and ?id = "tl_lockID l"
  obtain r w1 where r: "AcquireLock st ?id ?i (lease ?i) (sy_world y) = (r, w1)" by fastforce
  show ?thesis
  proof (cases r)
    case (Inr b)
    then have "a = Ended" "w = w1" using assms(1,2,4) r by (auto simp: acquire_attempt_def)
    moreover have "step ?id lease y (y\<lparr>sy_world := w1, sy_holds := (sy_holds y)(?i := Some (ALeaseExpiresAt b))\<rparr>)"
      using r Inr by (intro lock_step.acquired [OF assms(3)]) simp
    ultimately show ?thesis
      by (intro exI [of _ "y\<lparr>sy_world := w1, sy_holds := (sy_holds y)(?i := Some (ALeaseExpiresAt b))\<rparr>"]) auto
  next
    case (Inl e)
    obtain c w2 where c: "CleanupStaleLocks st w1 = (c, w2)" by fastforce
    have a: "a \<noteq> Ended" "w = w2" using assms(1,2,4) r Inl c by (auto simp: acquire_attempt_def split: if_splits)
    have "step ?id lease y (y\<lparr>sy_world := w1\<rparr>)" using r Inl by (intro lock_step.not_acquired [OF assms(3)]) simp
    moreover have "step ?id lease (y\<lparr>sy_world := w1\<rparr>) (y\<lparr>sy_world := w2\<rparr>)"
      using lock_step.cleaned_up [of st "y\<lparr>sy_world := w1\<rparr>" c w2 tbl_of now ?id lease] c by simp
    ultimately have "(step ?id lease)\<^sup>*\<^sup>* y (y\<lparr>sy_world := w2\<rparr>)" by (meson converse_rtranclp_into_rtranclp r_into_rtranclp)
    then show ?thesis using a by (intro exI [of _ "y\<lparr>sy_world := w2\<rparr>"]) simp
  qed
qed

lemma release_attempt_run:
  assumes "tl_store l = st" and "release_attempt l (sy_world y) = (a, w)"
  shows "step (tl_lockID l) lease y (y\<lparr>sy_world := w, sy_holds := (sy_holds y)(tl_instanceID l := None)\<rparr>)"
proof -
  obtain r where "ReleaseLock st (tl_lockID l) (tl_instanceID l) (sy_world y) = (r, w)"
    using assms by (cases "ReleaseLock st (tl_lockID l) (tl_instanceID l) (sy_world y)")
      (auto simp: release_attempt_def split: sum.splits if_splits)
  then show ?thesis by (rule lock_step.released)
qed

lemma Lock_run:
  assumes "tl_store l = st" and "retry_upto n retry" and "table_Lock l retry s = Some (r, s')"
    and "sy_world y = lk_world s" and "sy_holds y (tl_instanceID l) = None" and "lease (tl_instanceID l) = tl_leaseDuration l"
  shows "\<exists>y'. (step (tl_lockID l) lease)\<^sup>*\<^sup>* y y' \<and> sy_world y' = lk_world s' \<and>
     (if r = None then lk_mu s' \<and> lk_heartbeat s' = Beating \<and> (\<exists>e. sy_holds y' = (sy_holds y)(tl_instanceID l := Some e))
      else \<not> lk_mu s' \<and> sy_holds y' = sy_holds y)"
proof -
  let ?i = "tl_instanceID l" and ?id = "tl_lockID l"
  have mu: "\<not> lk_mu s" using assms(3) by (auto simp: table_Lock_def split: if_splits)
  obtain c w1 where c: "CreateLockTable st (lk_world s) = (c, w1)" by fastforce
  let ?y1 = "y\<lparr>sy_world := w1\<rparr>"
  have s1: "(step ?id lease)\<^sup>*\<^sup>* y ?y1" using lock_step.created [of st y c w1] c assms(4) by (simp add: r_into_rtranclp)
  show ?thesis
  proof (cases c)
    case (Some e)
    then have "r \<noteq> None" "s' = s\<lparr>lk_world := w1\<rparr>" using assms(1,3) c mu by (auto simp: table_Lock_def)
    then show ?thesis using s1 mu by (intro exI [of _ ?y1]) simp
  next
    case None
    obtain b w2 where b: "retry (acquire_attempt l) w1 = (b, w2)" by fastforce
    have s': "if b = None then r = None \<and> s' = startHeartbeat (s\<lparr>lk_mu := True, lk_world := w2\<rparr>)
        else r \<noteq> None \<and> s' = s\<lparr>lk_world := w2\<rparr>"
      using assms(1,3) c None b mu by (auto simp: table_Lock_def split: option.splits)
    let ?P = "\<lambda>w. \<exists>y'. (step ?id lease)\<^sup>*\<^sup>* y y' \<and> sy_world y' = w \<and> sy_holds y' = sy_holds y"
    let ?Q = "\<lambda>w. \<exists>y' e. (step ?id lease)\<^sup>*\<^sup>* y y' \<and> sy_world y' = w \<and> sy_holds y' = (sy_holds y)(?i := Some e)"
    have P1: "?P w1" using s1 by (intro exI [of _ ?y1]) simp
    have step1: "if a = Ended then ?Q v1 else ?P v1" if p: "?P v" and f: "acquire_attempt l v = (a, v1)" for v v1 a
    proof -
      obtain y1 where y1: "(step ?id lease)\<^sup>*\<^sup>* y y1" "sy_world y1 = v" "sy_holds y1 = sy_holds y" using p by blast
      obtain y2 where "(step ?id lease)\<^sup>*\<^sup>* y1 y2" "sy_world y2 = v1"
        "if a = Ended then \<exists>e. sy_holds y2 = (sy_holds y1)(?i := Some e) else sy_holds y2 = sy_holds y1"
        using acquire_attempt_run [of l y1 a v1 lease] assms(1,5,6) y1 f by auto
      with y1 show ?thesis by (auto split: if_splits intro: rtranclp_trans)
    qed
    have "if b = None then ?Q w2 else ?P w2"
    proof (rule retry_cases [OF assms(2) b])
      fix k r' assume k: "attempts k (acquire_attempt l) w1 = (r', w2)" "b = None \<longleftrightarrow> r' = None"
      have "if r' = None then ?Q w2 else ?P w2"
        by (rule attempts_induct [where P = ?P and Q = ?Q, OF k(1) P1]) (use step1 in fastforce)+
      then show ?thesis using k(2) by simp
    qed (use P1 in auto)
    then show ?thesis using s' mu by (auto simp: startHeartbeat_def stopHeartbeat_def split: if_splits)
  qed
qed

lemma Unlock_run:
  assumes "tl_store l = st" and "retry_upto n retry" and "table_Unlock l retry s = (r, s')"
    and "sy_world y = lk_world s" and "lk_mu s"
  shows "\<exists>y'. (step (tl_lockID l) lease)\<^sup>*\<^sup>* y y' \<and> sy_world y' = lk_world s' \<and>
     sy_holds y' = (sy_holds y)(tl_instanceID l := None) \<and> \<not> lk_mu s' \<and> lk_heartbeat s' = NoHeartbeat"
proof -
  let ?i = "tl_instanceID l" and ?id = "tl_lockID l"
  obtain b w2 where b: "retry (release_attempt l) (lk_world s) = (b, w2)" by fastforce
  have s': "s' = (stopHeartbeat s)\<lparr>lk_mu := False, lk_world := w2\<rparr>"
    using assms(3,5) b by (auto simp: table_Unlock_def Let_def stopHeartbeat_def)
  let ?P = "\<lambda>w. (step ?id lease)\<^sup>*\<^sup>* y (y\<lparr>sy_world := w, sy_holds := (sy_holds y)(?i := None)\<rparr>)"
  have e: "y\<lparr>sy_world := lk_world s, sy_holds := h\<rparr> = y\<lparr>sy_holds := h\<rparr>" for h using assms(4) by (cases y) simp
  have P1: "?P (lk_world s)" unfolding e by (rule r_into_rtranclp) (rule lock_step.ended)
  have step1: "?P v1" if "?P v" and "release_attempt l v = (a, v1)" for v v1 a
    using release_attempt_run [OF assms(1), of "y\<lparr>sy_world := v, sy_holds := (sy_holds y)(?i := None)\<rparr>" a v1 lease] that
    by (simp add: rtranclp.rtrancl_into_rtrancl)
  have "?P w2"
  proof (rule retry_cases [OF assms(2) b])
    fix k r' assume k: "attempts k (release_attempt l) (lk_world s) = (r', w2)"
    have "if r' = None then ?P w2 else ?P w2"
      by (rule attempts_induct [where P = ?P and Q = ?P, OF k P1]) (use step1 in blast)+
    then show ?thesis by (simp split: if_splits)
  qed (use P1 in simp)
  then show ?thesis
    by (intro exI [of _ "y\<lparr>sy_world := w2, sy_holds := (sy_holds y)(?i := None)\<rparr>"]) (simp add: s' stopHeartbeat_def)
qed

lemma heartbeat_run:
  assumes "tl_store l = st" and "sy_world y = lk_world s" and "sy_holds y (tl_instanceID l) = Some e"
    and "lease (tl_instanceID l) = tl_leaseDuration l" and "heartbeat_turn l ctxDone s = s'"
  shows "\<exists>y' e'. (step (tl_lockID l) lease)\<^sup>*\<^sup>* y y' \<and> sy_world y' = lk_world s' \<and>
     sy_holds y' = (sy_holds y)(tl_instanceID l := Some e') \<and> lk_mu s' = lk_mu s"
proof (cases "lk_heartbeat s = Beating \<and> \<not> ctxDone")
  case True
  let ?i = "tl_instanceID l" and ?id = "tl_lockID l"
  obtain r w where r: "UpdateLease st ?id ?i (lease ?i) (sy_world y) = (r, w)" by fastforce
  have s': "s' = s\<lparr>lk_world := w\<rparr>" using assms True r by (auto simp: heartbeat_turn_def)
  show ?thesis
  proof (cases r)
    case (Inl x)
    have "step ?id lease y (y\<lparr>sy_world := w\<rparr>)" using r Inl by (intro lock_step.not_renewed [OF assms(3)]) simp
    then show ?thesis using s' assms(3) by (intro exI [of _ "y\<lparr>sy_world := w\<rparr>"] exI [of _ e]) (simp add: r_into_rtranclp fun_upd_idem)
  next
    case (Inr u)
    have "step ?id lease y (y\<lparr>sy_world := w, sy_holds := (sy_holds y)(?i := Some (ULeaseExpiresAt u))\<rparr>)"
      using r Inr by (intro lock_step.renewed [OF assms(3)]) simp
    then show ?thesis using s'
      by (intro exI [of _ "y\<lparr>sy_world := w, sy_holds := (sy_holds y)(?i := Some (ULeaseExpiresAt u))\<rparr>"] exI [of _ "ULeaseExpiresAt u"])
        (simp add: r_into_rtranclp)
  qed
next
  case False
  then have "lk_world s' = lk_world s" "lk_mu s' = lk_mu s" using assms(5) [symmetric] by (auto simp: heartbeat_turn_def split: if_splits)
  then show ?thesis using assms(2,3) by (intro exI [of _ y] exI [of _ e]) (simp add: fun_upd_idem)
qed

text \<open>On a healthy server an attempt ends exactly when the lock is free or its lease has run out.\<close>

lemma attempt_healthy:
  assumes "tl_store l = st" and "txn w = None" and "faults w = []" and "tbl_of (committed w) = Some T"
    and "acquire_attempt l w = (a, w')"
  shows "txn w' = None" and "faults w' = []" and "now (committed w') = now (committed w)"
    and "if acquirable (tl_lockID l) (now (committed w)) T
         then a = Ended \<and> tbl_of (committed w') = Some (lt_acquire (tl_lockID l) (tl_instanceID l) (tl_leaseDuration l) (now (committed w)) T)
         else a \<noteq> Ended \<and> (\<exists>T'. tbl_of (committed w') = Some T' \<and> T' (tl_lockID l) = T (tl_lockID l))"
proof -
  let ?i = "tl_instanceID l" and ?id = "tl_lockID l" and ?d = "tl_leaseDuration l" and ?t = "now (committed w)"
  obtain r w1 where r: "AcquireLock st ?id ?i ?d w = (r, w1)" by fastforce
  note l = table_opD [OF acquire_op assms(2,4) r]
  have q1: "txn w1 = None" "faults w1 = []" "now (committed w1) = ?t"
    using quiet_opD [OF acquire_quiet assms(2) r] assms(3) by (auto simp: lock_quiet_def calm_def)
  obtain c w2 where c: "CleanupStaleLocks st w1 = (c, w2)" by fastforce
  have q2: "txn w2 = None" "faults w2 = []" "now (committed w2) = ?t"
    using quiet_opD [OF cleanup_quiet q1(1) c] q1 by (auto simp: lock_quiet_def calm_def)
  have w': "w' = (case r of Inl _ \<Rightarrow> w2 | Inr _ \<Rightarrow> w1)" "a = Ended \<longleftrightarrow> \<not> isl r"
    using assms(1,5) r c by (auto simp: acquire_attempt_def split: sum.splits if_splits)
  show "txn w' = None" "faults w' = []" "now (committed w') = ?t" using q1 q2 w'(1) by (auto split: sum.splits)
  show "if acquirable ?id ?t T then a = Ended \<and> tbl_of (committed w') = Some (lt_acquire ?id ?i ?d ?t T)
      else a \<noteq> Ended \<and> (\<exists>T'. tbl_of (committed w') = Some T' \<and> T' ?id = T ?id)"
  proof (cases "acquirable ?id ?t T")
    case True
    then obtain b where "r = Inr b" using l(3) [OF assms(3)] by blast
    with True l(1) w' show ?thesis by simp
  next
    case False
    then obtain e where e: "r = Inl e" using l(4) [OF assms(3)] by blast
    then have T1: "tbl_of (committed w1) = Some T" using l(2) [OF e] False by blast
    have "\<exists>T'. tbl_of (committed w2) = Some T' \<and> T' ?id = T ?id"
    proof -
      from table_opD(1,2) [OF cleanup_op q1(1) T1 c] have "tbl_of (committed w2) \<in> {Some T, Some (lt_cleanup ?t T)}"
        using q1(3) by (cases c) auto
      moreover have "lt_cleanup ?t T ?id = T ?id" using False by (auto simp: acquirable_def lt_cleanup_def stale_def split: option.splits)
      ultimately show ?thesis by auto
    qed
    then show ?thesis using False e w' by simp
  qed
qed

lemma attempts_in_healthy:
  assumes "tl_store l = st" and "\<forall>e. shouldRetry l e"
    and "txn w = None" and "faults w = []" and "tbl_of (committed w) = Some T"
    and "list_all2 (leaves tbl_of now (tl_lockID l)) pauses sched" and "attempts_in pauses (acquire_attempt l) w = (r, w')"
  shows "\<exists>T'. tbl_of (committed w') = Some T' \<and>
     (case first_free (tl_lockID l) ((now (committed w), T (tl_lockID l)) # sched) of
        Some t \<Rightarrow> r = None \<and> now (committed w') = t \<and> T' (tl_lockID l) =
          Some \<lparr>row_locked = True, row_by = Some (tl_instanceID l), row_lease = Some (lease_end t (tl_leaseDuration l))\<rparr>
      | None \<Rightarrow> r \<noteq> None \<and> T' (tl_lockID l) = snd (last ((now (committed w), T (tl_lockID l)) # sched)))"
  using assms(3-7)
proof (induction pauses arbitrary: w T sched)
  case Nil
  obtain a w1 where a: "acquire_attempt l w = (a, w1)" by fastforce
  note h = attempt_healthy [OF assms(1) Nil(1-3) a]
  have "sched = []" using Nil(4) by simp
  then show ?case using Nil(5) a h(3,4) by (cases a) (auto simp: first_free_def acquirable_row lt_acquire_def split: if_splits)
next
  case (Cons pause pauses)
  let ?id = "tl_lockID l"
  obtain at_end sched' where sched: "sched = at_end # sched'" and lv: "leaves tbl_of now ?id pause at_end" and rest: "list_all2 (leaves tbl_of now ?id) pauses sched'"
    using Cons.prems(4) by (cases sched) auto
  obtain a w1 where a: "acquire_attempt l w = (a, w1)" by fastforce
  note h = attempt_healthy [OF assms(1) Cons.prems(1-3) a]
  show ?case
  proof (cases "acquirable ?id (now (committed w)) T")
    case True
    then show ?thesis using Cons.prems(5) a h(3,4) by (auto simp: first_free_Cons lt_acquire_def)
  next
    case False
    then obtain e where e: "a = Retryable e"
      using h(4) a assms(2) by (auto simp: acquire_attempt_def split: sum.splits prod.splits)
    obtain T1 where "tbl_of (committed w1) = Some T1" using h(4) False by auto
    then obtain T2 where p: "txn (pause w1) = None" "faults (pause w1) = []" "tbl_of (committed (pause w1)) = Some T2"
      "(now (committed (pause w1)), T2 ?id) = at_end"
      using lv h(1,2) unfolding leaves_def by (cases at_end) force
    have "attempts_in pauses (acquire_attempt l) (pause w1) = (r, w')" using Cons.prems(5) a e by simp
    from Cons.IH [OF p(1-3) rest this] show ?thesis using False last_ConsR [of "at_end # sched'" "(now (committed w), T ?id)"] unfolding p(4) sched by (simp only: first_free_Cons if_False list.distinct simp_thms)
  qed
qed

lemma Lock_healthy:
  assumes "tl_store l = st" and "\<forall>e. shouldRetry l e" and "\<not> lk_mu s" and "txn (lk_world s) = None" and "faults (lk_world s) = []"
    and "list_all2 (leaves tbl_of now (tl_lockID l)) pauses sched"
    and "at_call = (now (committed (lk_world s)), case tbl_of (committed (lk_world s)) of None \<Rightarrow> None | Some T \<Rightarrow> T (tl_lockID l))"
  shows "\<exists>r s' T'. table_Lock l (attempts_in pauses) s = Some (r, s') \<and> tbl_of (committed (lk_world s')) = Some T' \<and>
     (case first_free (tl_lockID l) (at_call # sched) of
        Some t \<Rightarrow> r = None \<and> lk_mu s' \<and> lk_heartbeat s' = Beating \<and> now (committed (lk_world s')) = t \<and> T' (tl_lockID l) =
          Some \<lparr>row_locked = True, row_by = Some (tl_instanceID l), row_lease = Some (lease_end t (tl_leaseDuration l))\<rparr>
      | None \<Rightarrow> r \<noteq> None \<and> \<not> lk_mu s' \<and> T' (tl_lockID l) = snd (last (at_call # sched)))"
proof -
  obtain c w1 where c: "CreateLockTable st (lk_world s) = (c, w1)" by fastforce
  have c0: "c = None" using create_healthy [OF assms(4,5)] c by simp
  let ?T = "case tbl_of (committed (lk_world s)) of None \<Rightarrow> Map.empty | Some T \<Rightarrow> T"
  have q: "txn w1 = None" "faults w1 = []" "now (committed w1) = now (committed (lk_world s))"
    using quiet_opD [OF create_quiet assms(4) c] assms(5) by (auto simp: lock_quiet_def calm_def)
  have T: "tbl_of (committed w1) = Some ?T" using create_ok [OF assms(4) c [unfolded c0]] by simp
  have at: "at_call = (now (committed w1), ?T (tl_lockID l))" using assms(7) q(3) by (simp split: option.splits)
  obtain r w2 where r: "attempts_in pauses (acquire_attempt l) w1 = (r, w2)" by fastforce
  have lock: "table_Lock l (attempts_in pauses) s = Some (if r = None then (None, startHeartbeat (s\<lparr>lk_mu := True, lk_world := w2\<rparr>))
      else (map_option (Wrap (lock_msg ''acquire lock '' (tl_lockID l) '' after retries'')) r, s\<lparr>lk_world := w2\<rparr>))"
    using c c0 r assms(1,3) by (cases r) (simp_all add: table_Lock_def)
  from attempts_in_healthy [OF assms(1,2) q(1,2) T assms(6) r] at assms(3) show ?thesis
    unfolding lock by (auto simp: startHeartbeat_def stopHeartbeat_def split: option.splits)
qed

text \<open>
  With pauses that are runs of the other instances, \<open>Lock\<close> is still a run of the system, so exclusion
  holds while it waits.
\<close>

lemma Lock_run_paused:
  assumes "tl_store l = st" and "lease (tl_instanceID l) = tl_leaseDuration l"
    and "\<forall>pause\<in>set pauses. \<forall>y. sy_holds y (tl_instanceID l) = None \<longrightarrow>
      (\<exists>y'. (step (tl_lockID l) lease)\<^sup>*\<^sup>* y y' \<and> sy_world y' = pause (sy_world y) \<and> sy_holds y' (tl_instanceID l) = None)"
    and "sy_world y = lk_world s" and "sy_holds y (tl_instanceID l) = None" and "table_Lock l (attempts_in pauses) s = Some (r, s')"
  shows "\<exists>y'. (step (tl_lockID l) lease)\<^sup>*\<^sup>* y y' \<and> sy_world y' = lk_world s' \<and> (sy_holds y' (tl_instanceID l) \<noteq> None \<longleftrightarrow> r = None)"
proof -
  let ?i = "tl_instanceID l" and ?id = "tl_lockID l"
  define P where "P w \<longleftrightarrow> (\<exists>y'. (step ?id lease)\<^sup>*\<^sup>* y y' \<and> sy_world y' = w \<and> sy_holds y' ?i = None)" for w
  define Q where "Q w \<longleftrightarrow> (\<exists>y'. (step ?id lease)\<^sup>*\<^sup>* y y' \<and> sy_world y' = w \<and> sy_holds y' ?i \<noteq> None)" for w
  obtain c w1 where c: "CreateLockTable st (lk_world s) = (c, w1)" by fastforce
  have "(step ?id lease)\<^sup>*\<^sup>* y (y\<lparr>sy_world := w1\<rparr>)" using lock_step.created [of st y c w1] c assms(4) by (simp add: r_into_rtranclp)
  then have P1: "P w1" using assms(5) by (auto simp: P_def intro!: exI [of _ "y\<lparr>sy_world := w1\<rparr>"])
  have attempt: "if a = Ended then Q v1 else P v1" if p: "P v" and f: "acquire_attempt l v = (a, v1)" for v v1 a
  proof -
    obtain y1 where y1: "(step ?id lease)\<^sup>*\<^sup>* y y1" "sy_world y1 = v" "sy_holds y1 ?i = None" using p unfolding P_def by blast
    obtain y2 where "(step ?id lease)\<^sup>*\<^sup>* y1 y2" "sy_world y2 = v1"
      "if a = Ended then \<exists>e. sy_holds y2 = (sy_holds y1)(?i := Some e) else sy_holds y2 = sy_holds y1"
      using acquire_attempt_run [of l y1 a v1 lease] assms(1,2) y1 f by auto
    with y1 show ?thesis unfolding P_def Q_def by (auto split: if_splits intro: rtranclp_trans)
  qed
  have pause: "P (pause v)" if m: "pause \<in> set pauses" and p: "P v" for pause v
  proof -
    obtain y1 where y1: "(step ?id lease)\<^sup>*\<^sup>* y y1" "sy_world y1 = v" "sy_holds y1 ?i = None" using p unfolding P_def by blast
    with assms(3) m obtain y2 where "(step ?id lease)\<^sup>*\<^sup>* y1 y2" "sy_world y2 = pause v" "sy_holds y2 ?i = None" by blast
    with y1 show ?thesis unfolding P_def by (blast intro: rtranclp_trans)
  qed
  show ?thesis
  proof (cases "c = None")
    case True
    obtain b w2 where b: "attempts_in pauses (acquire_attempt l) w1 = (b, w2)" by fastforce
    have "if b = None then Q w2 else P w2"
      by (rule attempts_in_induct [where P = P and Q = Q, OF b P1]) (use attempt pause in fastforce)+
    then show ?thesis using True c b assms(1,6)
      by (auto simp: table_Lock_def P_def Q_def startHeartbeat_def stopHeartbeat_def split: if_splits option.splits)
  next
    case False
    then show ?thesis using P1 c assms(1,6) by (auto simp: table_Lock_def P_def split: if_splits option.splits)
  qed
qed

text \<open>What a provider relies on: no transaction is left open and the rest of the database is untouched.\<close>

lemma attempt_quiet:
  assumes "tl_store l = st" and "txn w = None"
  shows "acquire_attempt l w = (a, w') \<Longrightarrow> lock_quiet now other w w'" and "release_attempt l w = (a, w') \<Longrightarrow> lock_quiet now other w w'"
proof -
  obtain r w1 where r: "AcquireLock st (tl_lockID l) (tl_instanceID l) (tl_leaseDuration l) w = (r, w1)" by fastforce
  obtain c w2 where c: "CleanupStaleLocks st w1 = (c, w2)" by fastforce
  note q = quiet_opD [OF acquire_quiet assms(2) r]
  have "txn w1 = None" using q by (simp add: lock_quiet_def calm_def)
  note q2 = lock_quiet_trans [OF q quiet_opD [OF cleanup_quiet this c]]
  show "lock_quiet now other w w'" if "acquire_attempt l w = (a, w')"
    using that assms(1) r c q q2 by (auto simp: acquire_attempt_def split: sum.splits)
  obtain r' w1' where r': "ReleaseLock st (tl_lockID l) (tl_instanceID l) w = (r', w1')" by fastforce
  show "lock_quiet now other w w'" if "release_attempt l w = (a, w')"
    using that assms(1) r' quiet_opD [OF release_quiet assms(2) r'] by (auto simp: release_attempt_def split: sum.splits)
qed

text \<open>
  The interface \<open>Locker\<close> as the provider sees it: the mutex and the heartbeat are the locker's own.
  The mutex of the provider makes sure that the locker's is free at \<open>Lock\<close> and held at \<open>Unlock\<close>.
\<close>

lemma Lock_quiet:
  assumes "tl_store l = st" and "retry_upto n retry" and "txn (lk_world s) = None" and "table_Lock l retry s = Some (r, s')"
  shows "lock_quiet now other (lk_world s) (lk_world s')"
proof -
  obtain c w1 where c: "CreateLockTable st (lk_world s) = (c, w1)" by fastforce
  note q1 = quiet_opD [OF create_quiet assms(3) c]
  have t1: "txn w1 = None" using q1 by (simp add: lock_quiet_def calm_def)
  obtain b w2 where b: "retry (acquire_attempt l) w1 = (b, w2)" by fastforce
  have q2: "lock_quiet now other (lk_world s) w2"
    using lock_quiet_trans [OF q1 retry_quiet [OF assms(2) attempt_quiet(1) [OF assms(1)] t1 b]] .
  show ?thesis using assms(1,4) c b q1 q2
    by (auto simp: table_Lock_def startHeartbeat_def stopHeartbeat_def split: if_splits option.splits)
qed

lemma Unlock_quiet:
  assumes "tl_store l = st" and "retry_upto n retry" and "txn (lk_world s) = None" and "table_Unlock l retry s = (r, s')"
  shows "lock_quiet now other (lk_world s) (lk_world s')"
proof -
  obtain b w2 where b: "retry (release_attempt l) (lk_world s) = (b, w2)" by fastforce
  have "lk_world s' = w2" using assms(4) b by (auto simp: table_Unlock_def stopHeartbeat_def Let_def split: if_splits)
  with retry_quiet [OF assms(2) attempt_quiet(2) [OF assms(1)] assms(3) b] show ?thesis by simp
qed

end

end
