(* ===== verification/Session_Locker.thy ===== *)
theory Session_Locker
  imports Lock_Props
begin

text \<open>
  Session-level advisory locks of PostgreSQL: \<open>lock/session_locker_options.go\<close> and the session locker
  of \<open>lock/postgres.go\<close>. The connection is that of the provider. A server answers each session, so the
  laws below are about one server per session over one state.
\<close>

section \<open>Options\<close>

record sessionLockerConfig =
  sl_lockID :: int
  sl_lockProbe :: ProbeConfig
  sl_unlockProbe :: ProbeConfig

datatype SessionLockerOption = WithLockID int | WithLockTimeout nat nat | WithUnlockTimeout nat nat

text \<open>\<open>time.Duration(period) * time.Second\<close>: both the conversion from \<open>uint64\<close> and the product wrap.\<close>

definition period_duration :: "nat \<Rightarrow> duration" where
  "period_duration period = wrap64 (wrap64 (int period) * time_Second)"

definition session_probe :: "nat \<Rightarrow> nat \<Rightarrow> err + ProbeConfig" where
  "session_probe period failureThreshold =
     (if period < 1 then Inl (Msg ''period must be greater than 0, minimum is 1'')
      else if failureThreshold < 1 then Inl (Msg ''failure threshold must be greater than 0, minimum is 1'')
      else Inr \<lparr>IntervalDuration = period_duration period, FailureThreshold = failureThreshold\<rparr>)"

fun apply_SessionLockerOption :: "SessionLockerOption \<Rightarrow> sessionLockerConfig \<Rightarrow> err + sessionLockerConfig" where
  "apply_SessionLockerOption (WithLockID lockID) c = Inr (c\<lparr>sl_lockID := lockID\<rparr>)"
| "apply_SessionLockerOption (WithLockTimeout period n) c =
     (case session_probe period n of Inl e \<Rightarrow> Inl e | Inr p \<Rightarrow> Inr (c\<lparr>sl_lockProbe := p\<rparr>))"
| "apply_SessionLockerOption (WithUnlockTimeout period n) c =
     (case session_probe period n of Inl e \<Rightarrow> Inl e | Inr p \<Rightarrow> Inr (c\<lparr>sl_unlockProbe := p\<rparr>))"

fun apply_session_options :: "SessionLockerOption list \<Rightarrow> sessionLockerConfig \<Rightarrow> err + sessionLockerConfig" where
  "apply_session_options [] c = Inr c"
| "apply_session_options (opt # opts) c =
     (case apply_SessionLockerOption opt c of Inl e \<Rightarrow> Inl e | Inr c' \<Rightarrow> apply_session_options opts c')"

section \<open>The session locker\<close>

record postgresSessionLocker =
  se_lockID :: int
  se_retryLock :: ProbeConfig
  se_retryUnlock :: ProbeConfig

definition default_session_config :: sessionLockerConfig where
  "default_session_config =
     \<lparr>sl_lockID = DefaultLockID,
      sl_lockProbe = \<lparr>IntervalDuration = 5 * time_Second, FailureThreshold = 60\<rparr>,
      sl_unlockProbe = \<lparr>IntervalDuration = 2 * time_Second, FailureThreshold = 30\<rparr>\<rparr>"

definition NewPostgresSessionLocker :: "SessionLockerOption list \<Rightarrow> err + postgresSessionLocker" where
  "NewPostgresSessionLocker opts =
     (case apply_session_options opts default_session_config of
        Inl e \<Rightarrow> Inl e
      | Inr cfg \<Rightarrow> Inr \<lparr>se_lockID = sl_lockID cfg, se_retryLock = sl_lockProbe cfg, se_retryUnlock = sl_unlockProbe cfg\<rparr>)"

definition try_lock_q :: string where
  "try_lock_q = ''SELECT pg_try_advisory_lock($1)''"

definition unlock_q :: string where
  "unlock_q = ''SELECT pg_advisory_unlock($1)''"

definition advisory_attempt :: "'d lock_server \<Rightarrow> string \<Rightarrow> string \<Rightarrow> string \<Rightarrow> int \<Rightarrow> 'd world \<Rightarrow> attempt \<times> 'd world" where
  "advisory_attempt srv q failed refused lockID w =
     (case lock_QueryRow srv HConn q [LInt lockID] w of
        (r, w1) \<Rightarrow>
          (case (case r of Inl e \<Rightarrow> Inl e | Inr row \<Rightarrow> (case row of [c] \<Rightarrow> cell_bool c | _ \<Rightarrow> Inl scan_error)) of
             Inl e \<Rightarrow> (Permanent (Wrap failed e), w1)
           | Inr b \<Rightarrow> (if b then Ended else Retryable (Msg refused), w1)))"

definition SessionLock :: "'d lock_server \<Rightarrow> postgresSessionLocker \<Rightarrow> 'd world retrier \<Rightarrow> 'd world \<Rightarrow> err option \<times> 'd world" where
  "SessionLock srv l retry w =
     retry (advisory_attempt srv try_lock_q ''failed to execute pg_try_advisory_lock'' ''failed to acquire lock'' (se_lockID l)) w"

definition SessionUnlock :: "'d lock_server \<Rightarrow> postgresSessionLocker \<Rightarrow> 'd world retrier \<Rightarrow> 'd world \<Rightarrow> err option \<times> 'd world" where
  "SessionUnlock srv l retry w =
     retry (advisory_attempt srv unlock_q ''failed to execute pg_advisory_unlock'' ''failed to unlock session'' (se_lockID l)) w"

section \<open>What the server promises\<close>

text \<open>
  An advisory lock belongs to a session, which may take it again: the number says how many times it
  has been taken besides the first.
\<close>

type_synonym 's advisory = "int \<Rightarrow> ('s \<times> nat) option"

definition grantable :: "'s \<Rightarrow> int \<Rightarrow> 's advisory \<Rightarrow> bool" where
  "grantable s i A \<longleftrightarrow> (case A i of None \<Rightarrow> True | Some (s', n) \<Rightarrow> s' = s)"

definition adv_lock :: "'s \<Rightarrow> int \<Rightarrow> 's advisory \<Rightarrow> 's advisory" where
  "adv_lock s i A = (if \<not> grantable s i A then A else A(i \<mapsto> (s, case A i of None \<Rightarrow> 0 | Some (_, n) \<Rightarrow> n + 1)))"

definition adv_holds :: "'s \<Rightarrow> int \<Rightarrow> 's advisory \<Rightarrow> bool" where
  "adv_holds s i A \<longleftrightarrow> (case A i of None \<Rightarrow> False | Some (s', n) \<Rightarrow> s' = s)"

definition adv_unlock :: "'s \<Rightarrow> int \<Rightarrow> 's advisory \<Rightarrow> 's advisory" where
  "adv_unlock s i A = (if \<not> adv_holds s i A then A
     else A(i := (case A i of Some (_, Suc n) \<Rightarrow> Some (s, n) | _ \<Rightarrow> None)))"

locale advisory_server =
  fixes srv :: "'s \<Rightarrow> 'd lock_server" and adv :: "'d \<Rightarrow> 's advisory" and now :: "'d \<Rightarrow> int" and other :: "'d \<Rightarrow> 'o"
  assumes keeps_advisory: "q \<in> {try_lock_q, unlock_q} \<Longrightarrow> keeps now other (ls_query (srv s) q args)"
    and try_lock: "\<exists>d'. ls_query (srv s) try_lock_q [LInt i] d = (Inr ([[CBool (grantable s i (adv d))]], None, None), d') \<and>
      adv d' = adv_lock s i (adv d)"
    and unlock: "\<exists>d'. ls_query (srv s) unlock_q [LInt i] d = (Inr ([[CBool (adv_holds s i (adv d))]], None, None), d') \<and>
      adv d' = adv_unlock s i (adv d)"

lemma call_on_conn: "call HConn f w = call HDB f w"
  by (simp add: call_def usable_def cur_def put_def split: prod.splits fault.splits)

lemma conn_is_db: "lock_QueryRow srv HConn q args w = lock_QueryRow srv HDB q args w"
  by (simp add: lock_QueryRow_def lock_Query_def call_on_conn)

lemma advisory_healthy:
  assumes "faults w = []" and "txn w = None"
    and "ls_query srv q [LInt i] (committed w) = (Inr ([[CBool b]], None, None), d')"
    and "advisory_attempt srv q f m i w = (a, w')"
  shows "a = Ended \<longleftrightarrow> b" and "committed w' = d'" and "\<exists>e. \<not> b \<longrightarrow> a = Retryable e" and "faults w' = []" and "txn w' = None"
proof -
  obtain r w1 where r: "lock_QueryRow srv HDB q [LInt i] w = (r, w1)" by fastforce
  have k: "keeps (\<lambda>_. 0) (\<lambda>_. ()) (ls_query srv q [LInt i])" by (simp add: keeps_def)
  have c: "calm w w1" using query_row_quiet [OF r assms(2) k] by (simp add: lock_quiet_def)
  have "r = Inr [CBool b]" "committed w1 = d'" using query_row_db(2) [OF r assms(2,3)] assms(1) by (auto simp: first_row_def)
  with c assms(1,4) r show "a = Ended \<longleftrightarrow> b" "committed w' = d'" "\<exists>e. \<not> b \<longrightarrow> a = Retryable e" "faults w' = []" "txn w' = None"
    by (auto simp: advisory_attempt_def conn_is_db cell_bool_def calm_def split: if_splits)
qed

context advisory_server
begin

lemma session_quiet:
  assumes "retry_upto n retry" and "txn w = None"
  shows "SessionLock (srv s) l retry w = (r, w') \<Longrightarrow> lock_quiet now other w w'"
    and "SessionUnlock (srv s) l retry w = (r, w') \<Longrightarrow> lock_quiet now other w w'"
proof -
  have attempt: "lock_quiet now other v v1" if "q \<in> {try_lock_q, unlock_q}" "txn v = None" "advisory_attempt (srv s) q f m i v = (b, v1)"
    for q f m i v b v1
  proof -
    obtain r1 where "lock_QueryRow (srv s) HDB q [LInt i] v = (r1, v1)"
      using \<open>advisory_attempt (srv s) q f m i v = (b, v1)\<close> by (auto simp: advisory_attempt_def conn_is_db split: prod.splits sum.splits)
    from query_row_quiet [OF this \<open>txn v = None\<close> keeps_advisory [OF \<open>q \<in> {try_lock_q, unlock_q}\<close>]] show ?thesis .
  qed
  show "lock_quiet now other w w'" if "SessionLock (srv s) l retry w = (r, w')"
    by (rule retry_quiet [OF assms(1) _ assms(2) that [unfolded SessionLock_def]]) (rule attempt; simp)
  show "lock_quiet now other w w'" if "SessionUnlock (srv s) l retry w = (r, w')"
    by (rule retry_quiet [OF assms(1) _ assms(2) that [unfolded SessionUnlock_def]]) (rule attempt; simp)
qed

text \<open>On a healthy server the first attempt decides when the lock is granted, and all fail when it is not.\<close>

lemma SessionLock_healthy:
  assumes "faults w = []" and "txn w = None" and "SessionLock (srv s) l (attempts k) w = (r, w')"
  shows "r = None \<longleftrightarrow> grantable s (se_lockID l) (adv (committed w))"
    and "adv (committed w') = adv_lock s (se_lockID l) (adv (committed w))" and "faults w' = []" and "txn w' = None"
proof -
  let ?i = "se_lockID l" and ?f = "advisory_attempt (srv s) try_lock_q ''failed to execute pg_try_advisory_lock'' ''failed to acquire lock'' (se_lockID l)"
  have "(r = None \<longleftrightarrow> grantable s ?i (adv (committed w))) \<and> adv (committed w') = adv_lock s ?i (adv (committed w)) \<and>
      faults w' = [] \<and> txn w' = None"
    using assms unfolding SessionLock_def
  proof (induction k arbitrary: w)
    case 0
    obtain a w1 where a: "?f w = (a, w1)" by fastforce
    obtain d' where d': "ls_query (srv s) try_lock_q [LInt ?i] (committed w) = (Inr ([[CBool (grantable s ?i (adv (committed w)))]], None, None), d')"
      "adv d' = adv_lock s ?i (adv (committed w))" using try_lock by blast
    note h = advisory_healthy [OF 0(1,2) d'(1) a]
    show ?case using 0(3) a h d'(2) by (cases a) auto
  next
    case (Suc k)
    obtain a w1 where a: "?f w = (a, w1)" by fastforce
    obtain d' where d': "ls_query (srv s) try_lock_q [LInt ?i] (committed w) = (Inr ([[CBool (grantable s ?i (adv (committed w)))]], None, None), d')"
      "adv d' = adv_lock s ?i (adv (committed w))" using try_lock by blast
    note h = advisory_healthy [OF Suc(2,3) d'(1) a]
    show ?case
    proof (cases "grantable s ?i (adv (committed w))")
      case True
      then show ?thesis using Suc(4) a h d'(2) by (cases a) auto
    next
      case False
      then have "adv (committed w1) = adv (committed w)" using h(2) d'(2) by (simp add: adv_lock_def)
      moreover obtain e where "a = Retryable e" using h(3) False by blast
      ultimately show ?thesis using Suc(1) [OF h(4,5)] Suc(4) a by simp
    qed
  qed
  then show "r = None \<longleftrightarrow> grantable s ?i (adv (committed w))" "adv (committed w') = adv_lock s ?i (adv (committed w))"
    "faults w' = []" "txn w' = None" by auto
qed

lemma SessionUnlock_healthy:
  assumes "faults w = []" and "txn w = None" and "SessionUnlock (srv s) l (attempts k) w = (r, w')"
    and "adv_holds s (se_lockID l) (adv (committed w))"
  shows "r = None \<and> adv (committed w') = adv_unlock s (se_lockID l) (adv (committed w))"
proof -
  let ?i = "se_lockID l" and ?f = "advisory_attempt (srv s) unlock_q ''failed to execute pg_advisory_unlock'' ''failed to unlock session'' (se_lockID l)"
  obtain a w1 where a: "?f w = (a, w1)" by fastforce
  obtain d' where d': "ls_query (srv s) unlock_q [LInt ?i] (committed w) = (Inr ([[CBool (adv_holds s ?i (adv (committed w)))]], None, None), d')"
    "adv d' = adv_unlock s ?i (adv (committed w))" using unlock by blast
  note h = advisory_healthy [OF assms(1,2) d'(1) a]
  show ?thesis using assms(3,4) a h d'(2) unfolding SessionUnlock_def by (cases k; cases a) auto
qed

end

end
