(* ===== verification/Lock_Ref.thy ===== *)
theory Lock_Ref
  imports Session_Locker "HOL-Library.AList"
begin

text \<open>
  A reference server that executes the statements of the lock stores and of the session locker on a
  table, a clock and the advisory locks, with the version table beside them. The laws assumed of a
  server hold for it.
\<close>

section \<open>The server\<close>

record lock_db =
  db_rows :: "(int \<times> lock_row) list option"
  db_now :: int
  db_adv :: "(int \<times> nat \<times> nat) list"
  db_versions :: "version list option"

abbreviation lock_tbl :: string where "lock_tbl \<equiv> ''goose_lock''"

definition db_table :: "lock_db \<Rightarrow> lock_table option" where
  "db_table d = map_option map_of (db_rows d)"

datatype lock_stmt =
    SExists | SCreate | SAcquire | SRelease | SUpdate | SStatus | SCleanup
  | SInsert | STake | SSelect | SMyRelease | SMyUpdate | SLease | SStale | STry | SUnlock

definition lock_stmts :: "(string \<times> lock_stmt) list" where
  "lock_stmts =
     [(pg_exists_q lock_tbl, SExists), (pg_create_q lock_tbl, SCreate), (pg_acquire_q lock_tbl, SAcquire),
      (pg_release_q lock_tbl, SRelease), (pg_update_q lock_tbl, SUpdate), (pg_status_q lock_tbl, SStatus),
      (pg_cleanup_q lock_tbl, SCleanup),
      (fst (my_exists_q lock_tbl), SExists), (my_create_q lock_tbl, SCreate), (my_insert_q lock_tbl, SInsert),
      (my_take_q lock_tbl, STake), (my_select_q lock_tbl, SSelect), (my_release_q lock_tbl, SMyRelease),
      (my_update_q lock_tbl, SMyUpdate), (my_lease_q lock_tbl, SLease), (my_status_q lock_tbl, SStatus),
      (my_stale_q lock_tbl, SStale), (try_lock_q, STry), (unlock_q, SUnlock)]"

definition clear_prefix :: string where
  "clear_prefix = butlast (my_clear_q lock_tbl 0)"

definition interval_seconds :: "string \<Rightarrow> int" where
  "interval_seconds s =
     (let p = take (length s - 8) s
      in if p \<noteq> [] \<and> hd p = CHR ''-'' then - int (the (digits_val 0 (tl p))) else int (the (digits_val 0 p)))"

definition new_row :: "string \<Rightarrow> int \<Rightarrow> int \<Rightarrow> lock_row" where
  "new_row who t n = \<lparr>row_locked = True, row_by = Some who, row_lease = Some (t + n * 1000000)\<rparr>"

definition stale_keys :: "int \<Rightarrow> (int \<times> lock_row) list \<Rightarrow> int list" where
  "stale_keys t R = filter (\<lambda>i. case map_of R i of None \<Rightarrow> False | Some r \<Rightarrow> stale t r) (remdups (map fst R))"

definition exec_stmt :: "lock_stmt \<Rightarrow> larg list \<Rightarrow> int \<Rightarrow> (int \<times> lock_row) list \<Rightarrow> (string + (string + nat)) \<times> (int \<times> lock_row) list" where
  "exec_stmt k args t R =
     (let T = map_of R; change = (\<lambda>b R'. if b then (Inr (Inr 1), R') else (Inr (Inr 0), R))
      in case (k, args) of
           (SInsert, [LInt i, LStr who, LInt n]) \<Rightarrow> change (T i = None) (AList.update i (new_row who t n) R)
         | (STake, [LStr who, LInt n, LInt i]) \<Rightarrow> change (T i \<noteq> None \<and> acquirable i t T) (AList.update i (new_row who t n) R)
         | (SMyRelease, [LInt i, LStr who]) \<Rightarrow> change (owned i who T) (AList.update i row_cleared R)
         | (SMyUpdate, [LInt n, LInt i, LStr who]) \<Rightarrow>
             change (renewable i who T) (AList.update i ((the (T i))\<lparr>row_lease := Some (t + n * 1000000)\<rparr>) R)
         | _ \<Rightarrow> (Inl ''unknown statement'', R))"

definition query_stmt ::
    "lock_stmt \<Rightarrow> larg list \<Rightarrow> int \<Rightarrow> (int \<times> lock_row) list \<Rightarrow>
     (string + (lcell list list \<times> string option \<times> string option)) \<times> (int \<times> lock_row) list" where
  "query_stmt k args t R =
     (let T = map_of R;
          give = (\<lambda>b row R'. if b then (Inr ([row], None, None), R') else (Inr ([], None, None), R))
      in case (k, args) of
           (SAcquire, [LInt i, LStr who, LStr s]) \<Rightarrow>
             give (acquirable i t T) [CStr who, CTime (t + interval_seconds s * 1000000)]
               (AList.update i (new_row who t (interval_seconds s)) R)
         | (SRelease, [LInt i, LStr who]) \<Rightarrow> give (owned i who T) [CInt i] (AList.update i row_cleared R)
         | (SUpdate, [LStr s, LInt i, LStr who]) \<Rightarrow>
             give (renewable i who T) [CTime (t + interval_seconds s * 1000000)]
               (AList.update i ((the (T i))\<lparr>row_lease := Some (t + interval_seconds s * 1000000)\<rparr>) R)
         | (SStatus, [LInt i]) \<Rightarrow> (Inr (case T i of None \<Rightarrow> [] | Some r \<Rightarrow> [row_cells r None], None, None), R)
         | (SSelect, [LInt i]) \<Rightarrow>
             (Inr (case T i of None \<Rightarrow> [] | Some r \<Rightarrow> [[opt_cell CStr (row_by r), opt_cell CTime (row_lease r)]], None, None), R)
         | (SLease, [LInt i]) \<Rightarrow> (Inr (case T i of None \<Rightarrow> [] | Some r \<Rightarrow> [[opt_cell CTime (row_lease r)]], None, None), R)
         | (SStale, []) \<Rightarrow> (Inr (map (\<lambda>i. [CInt i]) (stale_keys t R), None, None), R)
         | (SCleanup, []) \<Rightarrow>
             (Inr (map (\<lambda>i. [CInt i]) (stale_keys t R), None, None),
              map (\<lambda>(i, r). (i, if stale t r then row_cleared else r)) R)
         | _ \<Rightarrow> (Inl ''unknown query'', R))"

definition with_rows :: "lock_db \<Rightarrow> 'r \<times> (int \<times> lock_row) list \<Rightarrow> 'r \<times> lock_db" where
  "with_rows d p = (fst p, d\<lparr>db_rows := Some (snd p)\<rparr>)"

definition adv_of :: "lock_db \<Rightarrow> nat advisory" where
  "adv_of d = map_of (db_adv d)"

definition set_adv :: "int \<Rightarrow> (nat \<times> nat) option \<Rightarrow> lock_db \<Rightarrow> lock_db" where
  "set_adv i x d = d\<lparr>db_adv := (case x of None \<Rightarrow> filter (\<lambda>(j, _). j \<noteq> i) (db_adv d) | Some y \<Rightarrow> (i, y) # db_adv d)\<rparr>"

definition ref_exec_lock :: "string \<Rightarrow> larg list \<Rightarrow> lock_db \<Rightarrow> (string + (string + nat)) \<times> lock_db" where
  "ref_exec_lock q args d =
     (if map_of lock_stmts q = Some SCreate
      then (if db_rows d = None then (Inr (Inr 0), d\<lparr>db_rows := Some []\<rparr>) else (Inl ''table exists'', d))
      else
        (case db_rows d of
           None \<Rightarrow> (Inl ''no such table'', d)
         | Some R \<Rightarrow>
             (if take (length clear_prefix) q = clear_prefix
              then (Inr (Inr (length args)),
                    d\<lparr>db_rows := Some (map (\<lambda>(i, r). (i, if LInt i \<in> set args then row_cleared else r)) R)\<rparr>)
              else (case map_of lock_stmts q of None \<Rightarrow> (Inl ''unknown statement'', d) | Some k \<Rightarrow> with_rows d (exec_stmt k args (db_now d) R)))))"

definition ref_query_lock ::
    "nat \<Rightarrow> string \<Rightarrow> larg list \<Rightarrow> lock_db \<Rightarrow> (string + (lcell list list \<times> string option \<times> string option)) \<times> lock_db" where
  "ref_query_lock s q args d =
     (case map_of lock_stmts q of
        None \<Rightarrow> (Inl ''unknown query'', d)
      | Some k \<Rightarrow>
          (case (k, args) of
             (SExists, _) \<Rightarrow> (Inr ([[CBool (db_rows d \<noteq> None)]], None, None), d)
           | (STry, [LInt i]) \<Rightarrow>
               (Inr ([[CBool (grantable s i (adv_of d))]], None, None),
                if grantable s i (adv_of d) then set_adv i (adv_lock s i (adv_of d) i) d else d)
           | (SUnlock, [LInt i]) \<Rightarrow>
               (Inr ([[CBool (adv_holds s i (adv_of d))]], None, None),
                if adv_holds s i (adv_of d) then set_adv i (adv_unlock s i (adv_of d) i) d else d)
           | _ \<Rightarrow> (case db_rows d of None \<Rightarrow> (Inl ''no such table'', d) | Some R \<Rightarrow> with_rows d (query_stmt k args (db_now d) R))))"

definition ref_lock_server :: "nat \<Rightarrow> lock_db lock_server" where
  "ref_lock_server s = \<lparr>ls_exec = ref_exec_lock, ls_query = ref_query_lock s\<rparr>"

section \<open>Its laws\<close>

lemma lock_stmts_distinct: "distinct (map fst lock_stmts)"
  by code_simp

lemma stmt_kind: "(q, k) \<in> set lock_stmts \<Longrightarrow> map_of lock_stmts q = Some k"
  using lock_stmts_distinct by (rule map_of_is_SomeI)

lemma stmt_kinds [simp]:
  "map_of lock_stmts (pg_exists_q lock_tbl) = Some SExists" "map_of lock_stmts (pg_create_q lock_tbl) = Some SCreate"
  "map_of lock_stmts (pg_acquire_q lock_tbl) = Some SAcquire" "map_of lock_stmts (pg_release_q lock_tbl) = Some SRelease"
  "map_of lock_stmts (pg_update_q lock_tbl) = Some SUpdate" "map_of lock_stmts (pg_status_q lock_tbl) = Some SStatus"
  "map_of lock_stmts (pg_cleanup_q lock_tbl) = Some SCleanup" "map_of lock_stmts (fst (my_exists_q lock_tbl)) = Some SExists"
  "map_of lock_stmts (my_create_q lock_tbl) = Some SCreate" "map_of lock_stmts (my_insert_q lock_tbl) = Some SInsert"
  "map_of lock_stmts (my_take_q lock_tbl) = Some STake" "map_of lock_stmts (my_select_q lock_tbl) = Some SSelect"
  "map_of lock_stmts (my_release_q lock_tbl) = Some SMyRelease" "map_of lock_stmts (my_update_q lock_tbl) = Some SMyUpdate"
  "map_of lock_stmts (my_lease_q lock_tbl) = Some SLease" "map_of lock_stmts (my_status_q lock_tbl) = Some SStatus"
  "map_of lock_stmts (my_stale_q lock_tbl) = Some SStale" "map_of lock_stmts try_lock_q = Some STry"
  "map_of lock_stmts unlock_q = Some SUnlock"
  by (rule stmt_kind; simp add: lock_stmts_def)+

lemma not_clear [simp]:
  "take (length clear_prefix) (my_insert_q lock_tbl) \<noteq> clear_prefix" "take (length clear_prefix) (my_take_q lock_tbl) \<noteq> clear_prefix"
  "take (length clear_prefix) (my_release_q lock_tbl) \<noteq> clear_prefix" "take (length clear_prefix) (my_update_q lock_tbl) \<noteq> clear_prefix"
  by code_simp+

lemma is_clear [simp]: "take (length clear_prefix) (my_clear_q lock_tbl n) = clear_prefix"
proof -
  have p: "my_clear_q lock_tbl n = clear_prefix @ placeholders n @ '')''" for n by (simp add: my_clear_q_def clear_prefix_def nl_def tab_def)
  show ?thesis by (simp add: p)
qed

lemma clear_kind [simp]: "map_of lock_stmts (my_clear_q lock_tbl n) \<noteq> Some SCreate"
proof
  assume "map_of lock_stmts (my_clear_q lock_tbl n) = Some SCreate"
  then have "(my_clear_q lock_tbl n, SCreate) \<in> set lock_stmts" by (rule map_of_SomeD)
  then have "my_clear_q lock_tbl n \<in> {pg_create_q lock_tbl, my_create_q lock_tbl}" by (simp add: lock_stmts_def)
  moreover have "take (length clear_prefix) (pg_create_q lock_tbl) \<noteq> clear_prefix"
    "take (length clear_prefix) (my_create_q lock_tbl) \<noteq> clear_prefix" by code_simp+
  ultimately show False using is_clear [of n] by (metis insertE singletonD)
qed

lemma interval_seconds_format [simp]: "interval_seconds (FormatInt n @ '' seconds'') = n"
proof -
  have d: "hd (nat_digits k) \<noteq> CHR ''-''" for k
  proof -
    obtain i where "hd (nat_digits k) = digit_char i" "i < 10" using nat_digits_chars [of "hd (nat_digits k)" k] by auto
    then show ?thesis by (simp add: digit_char_sign)
  qed
  show ?thesis by (simp add: interval_seconds_def FormatInt_def digits_val_nat_digits d Let_def)
qed

lemma ref_keeps [simp]:
  "keeps db_now db_versions (ls_exec (ref_lock_server s) q args)" "keeps db_now db_versions (ls_query (ref_lock_server s) q args)"
  by (auto simp: keeps_def ref_lock_server_def ref_exec_lock_def ref_query_lock_def with_rows_def set_adv_def
      split: option.split lock_stmt.split list.split larg.split)

lemma stale_keys_set: "set (stale_keys t R) = stale_ids t (map_of R)"
proof -
  have "i \<in> set (stale_keys t R) \<longleftrightarrow> i \<in> stale_ids t (map_of R)" for i
    by (cases "map_of R i") (auto simp: stale_keys_def stale_ids_def dest: map_of_SomeD intro: rev_image_eqI)
  then show ?thesis by blast
qed

lemma map_of_cleanup: "map_of (map (\<lambda>(i, r). (i, if stale t r then row_cleared else r)) R) = lt_cleanup t (map_of R)"
proof
  show "map_of (map (\<lambda>(i, r). (i, if stale t r then row_cleared else r)) R) i = lt_cleanup t (map_of R) i" for i
    by (induction R) (auto simp: lt_cleanup_def)
qed

lemma map_of_clear: "map_of (map (\<lambda>(i, r). (i, if LInt i \<in> set (map LInt ids) then row_cleared else r)) R) =
    (\<lambda>i. if i \<in> set ids \<and> map_of R i \<noteq> None then Some row_cleared else map_of R i)"
proof
  show "map_of (map (\<lambda>(i, r). (i, if LInt i \<in> set (map LInt ids) then row_cleared else r)) R) i =
      (if i \<in> set ids \<and> map_of R i \<noteq> None then Some row_cleared else map_of R i)" for i
    by (induction R) (auto split: if_splits)
qed

lemmas ref_lock_defs = ref_lock_server_def ref_exec_lock_def ref_query_lock_def exec_stmt_def query_stmt_def Let_def
  db_table_def new_row_def with_rows_def AList.update_conv'

interpretation ref_pg: pg_lock_server "ref_lock_server s" lock_tbl db_table db_now db_versions for s
proof (unfold_locales, goal_cases)
  case (3 d q args)
  then show ?case by (auto simp: ref_lock_defs)
next
  case (4 d)
  then show ?case by (simp add: ref_lock_defs)
next
  case (5 d)
  then show ?case by (auto simp: ref_lock_defs)
next
  case (6 d T i who n)
  then show ?case by (auto simp: ref_lock_defs)
next
  case (7 d T i who)
  then show ?case by (auto simp: ref_lock_defs lt_release_def)
next
  case (8 d T n i who)
  then show ?case by (auto simp: ref_lock_defs renewable_def split: option.splits)
next
  case (9 d T i)
  then show ?case by (auto simp: ref_lock_defs)
next
  case (10 d T)
  then show ?case by (auto simp: ref_lock_defs stale_keys_set map_of_cleanup intro!: exI [of _ "stale_keys (db_now d) (the (db_rows d))"])
qed simp_all

interpretation ref_my: my_lock_server "ref_lock_server s" lock_tbl db_table db_now db_versions for s
proof (unfold_locales, goal_cases)
  case (3 d q args)
  then show ?case by (auto simp: ref_lock_defs)
next
  case (4 q args d)
  then have "map_of lock_stmts q = Some SExists" using stmt_kinds(8) by simp
  then show ?case by (simp add: ref_lock_defs)
next
  case (5 d)
  then show ?case by (auto simp: ref_lock_defs)
next
  case (6 d T i who n)
  then show ?case by (auto simp: ref_lock_defs)
next
  case (7 d T i row who n)
  then show ?case by (auto simp: ref_lock_defs)
next
  case (8 d T i)
  then show ?case by (auto simp: ref_lock_defs)
next
  case (9 d T i who)
  then show ?case by (auto simp: ref_lock_defs lt_release_def)
next
  case (10 d T n i who)
  then show ?case by (auto simp: ref_lock_defs renewable_def split: option.splits)
next
  case (11 d T i)
  then show ?case by (auto simp: ref_lock_defs)
next
  case (12 d T i)
  then show ?case by (auto simp: ref_lock_defs)
next
  case (13 d T)
  then show ?case
    by (auto simp: ref_lock_defs stale_keys_set intro!: exI [of _ "stale_keys (db_now d) (the (db_rows d))"])
next
  case (14 d T ids)
  then show ?case using map_of_clear [of ids] by (auto simp: ref_lock_defs)
qed simp_all

interpretation ref_adv: advisory_server ref_lock_server adv_of db_now db_versions
proof (unfold_locales, goal_cases)
  case (2 s i d)
  have "adv_of (set_adv i (Some y) d) = (adv_of d)(i \<mapsto> y)" for y by (simp add: adv_of_def set_adv_def)
  then show ?case by (auto simp: ref_lock_server_def ref_query_lock_def adv_lock_def)
next
  case (3 s i d)
  have "adv_of (set_adv i x d) = (adv_of d)(i := x)" for x
  proof
    have "map_of (filter (\<lambda>(j, _). j \<noteq> i) xs) j = (if j = i then None else map_of xs j)" for xs :: "(int \<times> nat \<times> nat) list" and j
      by (induction xs) auto
    then show "adv_of (set_adv i x d) j = ((adv_of d)(i := x)) j" for j
      by (cases x) (simp_all add: adv_of_def set_adv_def)
  qed
  then show ?case by (auto simp: ref_lock_server_def ref_query_lock_def adv_unlock_def)
qed simp_all

end
