(* ===== verification/Lock_Claims.thy ===== *)
theory Lock_Claims
  imports Lock_Ref
begin

text \<open>The properties of the lock components, and their instances on the reference server.\<close>

section \<open>Configuration\<close>

definition config_ok :: "table_Config \<Rightarrow> bool" where
  "config_ok c \<longleftrightarrow> lc_TableName c \<noteq> '''' \<and> 0 < lc_LockID c \<and> 0 < lc_LeaseDuration c \<and> 0 < lc_HeartbeatInterval c \<and>
     0 < IntervalDuration (lc_LockTimeout c) \<and> 0 < FailureThreshold (lc_LockTimeout c) \<and>
     0 < IntervalDuration (lc_UnlockTimeout c) \<and> 0 < FailureThreshold (lc_UnlockTimeout c)"

lemma option_config_ok:
  assumes "config_ok c" and "apply_TableLockerOption opt c = Inr c'"
  shows "config_ok c'"
  using assms by (cases opt) (auto simp: config_ok_def probe_config_def split: if_splits)

lemma options_config_ok: "config_ok c \<Longrightarrow> apply_table_options opts c = Inr c' \<Longrightarrow> config_ok c'"
  by (induction opts arbitrary: c) (auto split: sum.splits dest: option_config_ok)

lemma default_config_ok: "config_ok default_table_config"
  by (simp add: config_ok_def default_table_config_def DefaultLockID_def DefaultLockTableName_def time_Second_def)

text \<open>
  A table locker made with any options that are accepted has a positive lock id, lease, heartbeat
  interval and retry intervals, at least one retry, and a store with a table name.
\<close>

lemma table_locker_well_formed:
  assumes "NewPostgresTableLocker srv x me opts = Inr l \<or> NewMySQLTableLocker srv x me opts = Inr l"
  shows "0 < tl_lockID l \<and> 0 < tl_leaseDuration l \<and> 0 < tl_heartbeatInterval l \<and>
     0 < IntervalDuration (tl_retryLock l) \<and> 0 < FailureThreshold (tl_retryLock l) \<and>
     0 < IntervalDuration (tl_retryUnlock l) \<and> 0 < FailureThreshold (tl_retryUnlock l) \<and>
     (\<exists>tbl. tbl \<noteq> '''' \<and> tl_store l \<in> {postgresStore srv x tbl, mysqlStore srv x tbl})"
proof -
  obtain c where c: "apply_table_options opts default_table_config = Inr c"
    and l: "l = table_New (postgresStore srv x (lc_TableName c)) me c \<or> l = table_New (mysqlStore srv x (lc_TableName c)) me c"
    using assms by (auto simp: NewPostgresTableLocker_def NewMySQLTableLocker_def lock_NewPostgres_def NewMySQL_def
        split: sum.splits if_splits)
  have ok: "config_ok c" by (rule options_config_ok [OF default_config_ok c])
  from l show ?thesis
  proof (elim disjE)
    assume "l = table_New (postgresStore srv x (lc_TableName c)) me c"
    then show ?thesis using ok by (simp add: config_ok_def table_New_def) blast
  next
    assume "l = table_New (mysqlStore srv x (lc_TableName c)) me c"
    then show ?thesis using ok by (simp add: config_ok_def table_New_def) blast
  qed
qed

section \<open>The contract of the stores\<close>

text \<open>One of the two stores, over a server that gives its statements their meaning.\<close>

definition served_store :: "'d lock_store \<Rightarrow> ('d \<Rightarrow> lock_table option) \<Rightarrow> ('d \<Rightarrow> int) \<Rightarrow> ('d \<Rightarrow> 'o) \<Rightarrow> bool" where
  "served_store st tbl_of now other \<longleftrightarrow> (\<exists>srv x tbl. append_laws x \<and>
     (pg_lock_server srv tbl tbl_of now other \<and> st = postgresStore srv x tbl \<or>
      my_lock_server srv tbl tbl_of now other \<and> st = mysqlStore srv x tbl))"

lemma served_store_laws: "served_store st tbl_of now other \<Longrightarrow> lock_table_store st tbl_of now other"
  by (auto simp: served_store_def pg_lock_setup_def pg_lock_setup_axioms_def
      intro: pg_lock_setup.pg_lock_store my_lock_server.my_lock_store)

text \<open>
  C8: over any server that gives their statements the meaning of SQL, the PostgreSQL store and the
  MySQL store refine the same lock table: the single statement of the one and the transaction of
  several statements of the other acquire a lock exactly when it is free or its lease has run out,
  release and renew it exactly for its owner, and clean up exactly the stale locks; a call with an
  error has had no effect or its whole effect, whatever the driver does.
\<close>

theorem lock_stores_contract:
  shows "(pg_lock_server srv tbl tbl_of now other \<and> append_laws x \<longrightarrow> lock_table_store (postgresStore srv x tbl) tbl_of now other) \<and>
     (my_lock_server srv tbl tbl_of now other \<longrightarrow> lock_table_store (mysqlStore srv x tbl) tbl_of now other)"
proof (intro conjI impI)
  assume a: "pg_lock_server srv tbl tbl_of now other \<and> append_laws x"
  then have "pg_lock_setup srv tbl tbl_of now other x" by (simp add: pg_lock_setup_def pg_lock_setup_axioms_def)
  then show "lock_table_store (postgresStore srv x tbl) tbl_of now other" by (rule pg_lock_setup.pg_lock_store)
next
  assume "my_lock_server srv tbl tbl_of now other"
  then show "lock_table_store (mysqlStore srv x tbl) tbl_of now other" by (rule my_lock_server.my_lock_store)
qed

section \<open>Exclusion\<close>

text \<open>
  C7: however the calls of any number of instances, crashes, lost answers, other users and the clock
  interleave, an instance whose lease (as the store last reported it) has not run out is the owner of
  the lock in the table, and no other instance has an unexpired lease.
\<close>

theorem table_lock_exclusive:
  assumes "served_store st tbl_of now other" and "txn w = None"
    and "(lock_step st tbl_of now lockID lease)\<^sup>*\<^sup>* (nobody_holds w) y"
    and "sy_holds y i = Some l" and "now (committed (sy_world y)) \<le> l"
  shows "has_row lockID i l (tbl_of (committed (sy_world y))) \<and>
     (\<forall>j l'. sy_holds y j = Some l' \<and> now (committed (sy_world y)) \<le> l' \<longrightarrow> j = i)"
proof -
  have "lock_inv tbl_of now lockID lease y" by (rule lock_table_store.reach_inv [OF served_store_laws [OF assms(1)] assms(3,2)])
  from lock_invD(2) [OF this assms(4,5)] lock_table_store.exclusive [OF served_store_laws [OF assms(1)] assms(3,2)] assms(4,5) show ?thesis by blast
qed

text \<open>
  C15: \<open>Lock\<close>, \<open>Unlock\<close> and every turn of the heartbeat are runs of the system of instances. After
  \<open>Lock\<close> the instance holds the lock, its mutex is held and its heartbeat runs if there was no error,
  and neither its mutex nor the lock is held if there was one; after \<open>Unlock\<close> the mutex is free, the
  heartbeat has stopped and the instance does not hold the lock, with an error or without.
\<close>

theorem table_locker_runs:
  assumes "served_store (tl_store l) tbl_of now other" and "retry_upto n retry" and "sy_world y = lk_world s"
    and "lease (tl_instanceID l) = tl_leaseDuration l"
  shows "(table_Lock l retry s = Some (r, s1) \<and> sy_holds y (tl_instanceID l) = None \<longrightarrow>
     (\<exists>y'. (lock_step (tl_store l) tbl_of now (tl_lockID l) lease)\<^sup>*\<^sup>* y y' \<and> sy_world y' = lk_world s1 \<and>
       (if r = None then lk_mu s1 \<and> lk_heartbeat s1 = Beating \<and> (\<exists>e. sy_holds y' = (sy_holds y)(tl_instanceID l := Some e))
        else \<not> lk_mu s1 \<and> sy_holds y' = sy_holds y))) \<and>
     (table_Unlock l retry s = (r, s2) \<and> lk_mu s \<longrightarrow>
     (\<exists>y'. (lock_step (tl_store l) tbl_of now (tl_lockID l) lease)\<^sup>*\<^sup>* y y' \<and> sy_world y' = lk_world s2 \<and>
       sy_holds y' = (sy_holds y)(tl_instanceID l := None) \<and> \<not> lk_mu s2 \<and> lk_heartbeat s2 = NoHeartbeat)) \<and>
     (heartbeat_turn l ctxDone s = s3 \<and> sy_holds y (tl_instanceID l) = Some e \<longrightarrow>
     (\<exists>y' e'. (lock_step (tl_store l) tbl_of now (tl_lockID l) lease)\<^sup>*\<^sup>* y y' \<and> sy_world y' = lk_world s3 \<and>
       sy_holds y' = (sy_holds y)(tl_instanceID l := Some e') \<and> lk_mu s3 = lk_mu s))"
proof (intro conjI impI; elim conjE)
  assume "table_Lock l retry s = Some (r, s1)" "sy_holds y (tl_instanceID l) = None"
  from lock_table_store.Lock_run [where l = l and retry = retry and s = s and y = y and lease = lease,
      OF served_store_laws [OF assms(1)] refl assms(2) this(1) assms(3) this(2) assms(4)]
  show "\<exists>y'. (lock_step (tl_store l) tbl_of now (tl_lockID l) lease)\<^sup>*\<^sup>* y y' \<and> sy_world y' = lk_world s1 \<and>
     (if r = None then lk_mu s1 \<and> lk_heartbeat s1 = Beating \<and> (\<exists>e. sy_holds y' = (sy_holds y)(tl_instanceID l := Some e))
      else \<not> lk_mu s1 \<and> sy_holds y' = sy_holds y)" .
next
  assume "table_Unlock l retry s = (r, s2)" "lk_mu s"
  from lock_table_store.Unlock_run [where l = l and retry = retry and s = s and y = y and lease = lease,
      OF served_store_laws [OF assms(1)] refl assms(2) this(1) assms(3) this(2)]
  show "\<exists>y'. (lock_step (tl_store l) tbl_of now (tl_lockID l) lease)\<^sup>*\<^sup>* y y' \<and> sy_world y' = lk_world s2 \<and>
     sy_holds y' = (sy_holds y)(tl_instanceID l := None) \<and> \<not> lk_mu s2 \<and> lk_heartbeat s2 = NoHeartbeat" .
next
  assume "heartbeat_turn l ctxDone s = s3" "sy_holds y (tl_instanceID l) = Some e"
  from lock_table_store.heartbeat_run [where l = l and s = s and y = y and lease = lease,
      OF served_store_laws [OF assms(1)] refl assms(3) this(2) assms(4) this(1)]
  show "\<exists>y' e'. (lock_step (tl_store l) tbl_of now (tl_lockID l) lease)\<^sup>*\<^sup>* y y' \<and> sy_world y' = lk_world s3 \<and>
     sy_holds y' = (sy_holds y)(tl_instanceID l := Some e') \<and> lk_mu s3 = lk_mu s" .
qed

section \<open>Lock on a healthy server\<close>

text \<open>
  C16: \<open>Lock\<close> waits for the lock. Between two attempts it sleeps; \<open>pauses\<close>, one for each retry that the
  back-off allows, are what the clock and the other instances do meanwhile, and \<open>sched\<close> is the time and
  the row of the lock they leave at the end of each. On a server that stays healthy, with a context
  that is not cancelled and a policy that retries, \<open>Lock\<close> returns without an error exactly when at the
  call or after one of the pauses there is no row, the lock has been released or its lease has run
  out. It takes the lock at the first such time, with a lease that starts then, and its mutex is held
  and its heartbeat runs; otherwise it gives up after the last pause, its mutex is free and the row of
  the holder untouched. A missing table is created.
\<close>

theorem Lock_waits:
  assumes "served_store (tl_store l) tbl_of now other" and "\<forall>e. shouldRetry l e" and "\<not> lk_mu s"
    and "txn (lk_world s) = None" and "faults (lk_world s) = []" and "list_all2 (leaves tbl_of now (tl_lockID l)) pauses sched"
    and "at_call = (now (committed (lk_world s)), case tbl_of (committed (lk_world s)) of None \<Rightarrow> None | Some T \<Rightarrow> T (tl_lockID l))"
  shows "\<exists>r s' T'. table_Lock l (attempts_in pauses) s = Some (r, s') \<and> tbl_of (committed (lk_world s')) = Some T' \<and>
     (case first_free (tl_lockID l) (at_call # sched) of
        Some t \<Rightarrow> r = None \<and> lk_mu s' \<and> lk_heartbeat s' = Beating \<and> now (committed (lk_world s')) = t \<and> T' (tl_lockID l) =
          Some \<lparr>row_locked = True, row_by = Some (tl_instanceID l), row_lease = Some (lease_end t (tl_leaseDuration l))\<rparr>
      | None \<Rightarrow> r \<noteq> None \<and> \<not> lk_mu s' \<and> T' (tl_lockID l) = snd (last (at_call # sched)))"
  by (rule lock_table_store.Lock_healthy [OF served_store_laws [OF assms(1)] refl assms(2-7)])

text \<open>
  While \<open>Lock\<close> waits the other instances may do anything that steps of the system allow: it is still a
  run of the system, in which the instance holds the lock at the end if there was no error.
\<close>

lemma table_Lock_interleaved:
  assumes "served_store (tl_store l) tbl_of now other" and "lease (tl_instanceID l) = tl_leaseDuration l"
    and "\<forall>pause\<in>set pauses. \<forall>y. sy_holds y (tl_instanceID l) = None \<longrightarrow>
      (\<exists>y'. (lock_step (tl_store l) tbl_of now (tl_lockID l) lease)\<^sup>*\<^sup>* y y' \<and> sy_world y' = pause (sy_world y) \<and>
        sy_holds y' (tl_instanceID l) = None)"
    and "sy_world y = lk_world s" and "sy_holds y (tl_instanceID l) = None" and "table_Lock l (attempts_in pauses) s = Some (r, s')"
  shows "\<exists>y'. (lock_step (tl_store l) tbl_of now (tl_lockID l) lease)\<^sup>*\<^sup>* y y' \<and> sy_world y' = lk_world s' \<and>
     (sy_holds y' (tl_instanceID l) \<noteq> None \<longleftrightarrow> r = None)"
  by (rule lock_table_store.Lock_run_paused [OF served_store_laws [OF assms(1)] refl assms(2-6)])

text \<open>
  C36: a lease of less than a second is accepted, but it is rounded to zero seconds: as soon as the
  clock of the server has moved, any other instance acquires the lock.
\<close>

theorem short_lease_expires_at_once:
  assumes "served_store st tbl_of now other" and "0 < d" and "d < time_Second"
    and "txn w = None" and "tbl_of (committed w) = Some T" and "AcquireLock st lockID i d w = (Inr a, w1)"
    and "txn w2 = None" and "faults w2 = []" and "tbl_of (committed w2) = tbl_of (committed w1)"
    and "now (committed w) < now (committed w2)"
  shows "apply_TableLockerOption (WithTableLeaseDuration d) c = Inr (c\<lparr>lc_LeaseDuration := d\<rparr>) \<and>
     ALeaseExpiresAt a = now (committed w) \<and> (\<exists>b. fst (AcquireLock st lockID j d' w2) = Inr b)"
proof -
  have z: "duration_seconds d = 0" using assms(2,3) by (simp add: duration_seconds_def time_Second_def)
  note l = table_opD(1) [OF lock_table_store.acquire_op [OF served_store_laws [OF assms(1)]] assms(4,5,6) refl]
  let ?T = "lt_acquire lockID i d (now (committed w)) T"
  have T2: "tbl_of (committed w2) = Some ?T" using l assms(9) by simp
  have "acquirable lockID (now (committed w2)) ?T"
    using assms(10) z by (simp add: acquirable_def lt_acquire_def expired_def lease_end_def)
  then have "\<exists>b. fst (AcquireLock st lockID j d' w2) = Inr b"
    using table_opD(3) [OF lock_table_store.acquire_op [OF served_store_laws [OF assms(1)]] assms(7) T2 surjective_pairing assms(8)] by blast
  then show ?thesis using assms(2) l z by (simp add: lease_end_def)
qed

section \<open>Session locks\<close>

text \<open>
  C18: \<open>SessionLock\<close> and \<open>SessionUnlock\<close> are a round trip on the advisory locks of the server, and while
  a session holds the lock \<open>SessionLock\<close> of every other session fails, however often it retries.
\<close>

theorem session_lock_roundtrip:
  assumes "advisory_server srv adv now other" and "faults w = []" and "txn w = None"
    and "adv (committed w) (se_lockID l) = None" and "s' \<noteq> s" and "se_lockID l' = se_lockID l"
  shows "\<exists>w1 w2. SessionLock (srv s) l (attempts k) w = (None, w1) \<and> adv_holds s (se_lockID l) (adv (committed w1)) \<and>
     fst (SessionLock (srv s') l' (attempts k') w1) \<noteq> None \<and>
     SessionUnlock (srv s) l (attempts m) w1 = (None, w2) \<and> adv (committed w2) = adv (committed w)"
proof -
  let ?i = "se_lockID l"
  obtain r w1 where r: "SessionLock (srv s) l (attempts k) w = (r, w1)" by fastforce
  note h = advisory_server.SessionLock_healthy [OF assms(1-3) r]
  have A: "adv (committed w1) = (adv (committed w))(?i \<mapsto> (s, 0))" using h(2) assms(4) by (simp add: adv_lock_def grantable_def)
  have holds: "adv_holds s ?i (adv (committed w1))" by (simp add: A adv_holds_def)
  obtain r' w1' where r': "SessionLock (srv s') l' (attempts k') w1 = (r', w1')" by fastforce
  have "r' \<noteq> None" using advisory_server.SessionLock_healthy(1) [OF assms(1) h(3,4) r'] A assms(5,6) by (simp add: grantable_def)
  moreover obtain u w2 where u: "SessionUnlock (srv s) l (attempts m) w1 = (u, w2)" by fastforce
  moreover have "u = None \<and> adv (committed w2) = adv (committed w)"
    using advisory_server.SessionUnlock_healthy [OF assms(1) h(3,4) u holds] A assms(4)
    by (auto simp: adv_unlock_def adv_holds_def fun_upd_idem)
  moreover have "r = None" using h(1) assms(4) by (simp add: grantable_def)
  ultimately show ?thesis using r r' holds by auto
qed

text \<open>
  C35: the retry interval of a session locker is the period in seconds, positive and exact, for every
  period up to 9223372036; the next period is accepted too, and its interval is negative, because
  the product is taken modulo \<open>2 ^ 64\<close>.
\<close>

theorem session_period_bounds:
  assumes "session_probe period n = Inr p"
  shows "in_int64 (IntervalDuration p) \<and> FailureThreshold p = n \<and> 1 \<le> n \<and>
     (period \<le> 9223372036 \<longrightarrow> IntervalDuration p = int period * time_Second \<and> 0 < IntervalDuration p) \<and>
     (period = 9223372037 \<longrightarrow> IntervalDuration p < 0)"
proof -
  have p: "p = \<lparr>IntervalDuration = period_duration period, FailureThreshold = n\<rparr>" "1 \<le> n" "1 \<le> period"
    using assms by (auto simp: session_probe_def split: if_splits)
  have "period_duration period = int period * time_Second" if "period \<le> 9223372036"
  proof -
    have "in_int64 (int period)" "in_int64 (int period * time_Second)"
      using that by (auto simp: in_int64_def MinInt64_def MaxInt64_def time_Second_def)
    then show ?thesis by (simp add: period_duration_def wrap64_id)
  qed
  moreover have "period_duration 9223372037 < 0" by (simp add: period_duration_def wrap64_def time_Second_def)
  moreover have "in_int64 (period_duration period)" by (simp add: period_duration_def wrap64_in_range)
  ultimately show ?thesis using p by (auto simp: time_Second_def)
qed

section \<open>Locks and the provider\<close>

text \<open>
  A table locker as a provider uses it: with the mutex of the provider held, the mutex of the locker is
  free at \<open>Lock\<close> and held, with the heartbeat running, at \<open>Unlock\<close>.
\<close>

definition table_lock_ops :: "'d table_locker \<Rightarrow> 'd world retrier \<Rightarrow> 'd world retrier \<Rightarrow> 'd lock_ops" where
  "table_lock_ops l r1 r2 =
     \<lparr>L_Lock = (\<lambda>w. case table_Lock l r1 \<lparr>lk_mu = False, lk_heartbeat = NoHeartbeat, lk_world = w\<rparr> of
          Some (r, s) \<Rightarrow> (r, lk_world s) | None \<Rightarrow> (None, w)),
      L_Unlock = (\<lambda>w. case table_Unlock l r2 \<lparr>lk_mu = True, lk_heartbeat = Beating, lk_world = w\<rparr> of (r, s) \<Rightarrow> (r, lk_world s))\<rparr>"

text \<open>
  C17: the table locker and the session locker meet what a provider relies on of its locker, for every
  failure of the driver: they leave no transaction open, return the connections they take, and do
  not touch the version table.
\<close>

theorem lockers_meet_provider_laws:
  assumes "retry_upto n r1" and "retry_upto m r2"
  shows "(served_store (tl_store l) tbl_of now view \<longrightarrow> locker_laws view (Some (table_lock_ops l r1 r2))) \<and>
     (advisory_server srv adv now view \<longrightarrow>
      locker_laws view (Some \<lparr>L_Lock = SessionLock (srv s) sl r1, L_Unlock = SessionUnlock (srv s) sl r2\<rparr>))"
proof (intro conjI impI)
  assume st: "served_store (tl_store l) tbl_of now view"
  have lock: "lock_quiet now view w w'" if "txn w = None" "L_Lock (table_lock_ops l r1 r2) w = (r, w')" for w r w'
  proof -
    let ?s = "\<lparr>lk_mu = False, lk_heartbeat = NoHeartbeat, lk_world = w\<rparr>"
    obtain r' s' where s': "table_Lock l r1 ?s = Some (r', s')"
      by (cases "CreateLockTable (tl_store l) w"; cases "fst (CreateLockTable (tl_store l) w)";
          cases "r1 (acquire_attempt l) (snd (CreateLockTable (tl_store l) w))";
          cases "fst (r1 (acquire_attempt l) (snd (CreateLockTable (tl_store l) w)))") (auto simp: table_Lock_def)
    from lock_table_store.Lock_quiet [OF served_store_laws [OF st] refl assms(1) _ s'] that s' show ?thesis by (simp add: table_lock_ops_def)
  qed
  have "lock_quiet now view w w'" if "txn w = None" "L_Unlock (table_lock_ops l r1 r2) w = (r, w')" for w r w'
  proof -
    let ?s = "\<lparr>lk_mu = True, lk_heartbeat = Beating, lk_world = w\<rparr>"
    obtain r' s' where s': "table_Unlock l r2 ?s = (r', s')" by fastforce
    from lock_table_store.Unlock_quiet [OF served_store_laws [OF st] refl assms(2) _ s'] that s' show ?thesis by (simp add: table_lock_ops_def)
  qed
  with lock show "locker_laws view (Some (table_lock_ops l r1 r2))" by (fastforce simp: locker_laws_def lock_quiet_def)
next
  assume adv: "advisory_server srv adv now view"
  show "locker_laws view (Some \<lparr>L_Lock = SessionLock (srv s) sl r1, L_Unlock = SessionUnlock (srv s) sl r2\<rparr>)"
    using advisory_server.session_quiet(1) [OF adv assms(1)] advisory_server.session_quiet(2) [OF adv assms(2)]
    by (fastforce simp: locker_laws_def lock_quiet_def)
qed

section \<open>Instances on the reference server\<close>

interpretation ref_setup: pg_lock_setup "ref_lock_server s" lock_tbl db_table db_now db_versions ref_ext for s
  using ref_ext_laws(1) by unfold_locales

lemma ref_served:
  "served_store (postgresStore (ref_lock_server s) ref_ext lock_tbl) db_table db_now db_versions"
  "served_store (mysqlStore (ref_lock_server s) ref_ext lock_tbl) db_table db_now db_versions"
  unfolding served_store_def using ref_pg.pg_lock_server_axioms ref_my.my_lock_server_axioms ref_ext_laws(1) by blast+

abbreviation ref_lock_store :: "lock_db lock_store" where
  "ref_lock_store \<equiv> postgresStore (ref_lock_server 0) ref_ext lock_tbl"

definition ref_db :: "(int \<times> lock_row) list option \<Rightarrow> int \<Rightarrow> lock_db world" where
  "ref_db R t = \<lparr>committed = \<lparr>db_rows = R, db_now = t, db_adv = [], db_versions = None\<rparr>, txn = None, faults = [], conns = 0\<rparr>"

definition ref_me :: identity where
  "ref_me = \<lparr>id_hostname = ''h'', id_pid = 7, id_bytes = Some [1, 171, 0, 255], id_clock = 0\<rparr>"

definition ref_locker :: "lock_db table_locker" where
  "ref_locker = table_New ref_lock_store ref_me default_table_config"

definition ref_row :: "string \<Rightarrow> int \<Rightarrow> lock_row" where
  "ref_row who t = \<lparr>row_locked = True, row_by = Some who, row_lease = Some t\<rparr>"

lemma ref_db_sel [simp]:
  "txn (ref_db R t) = None" "faults (ref_db R t) = []" "db_table (committed (ref_db R t)) = map_option map_of R"
  "db_now (committed (ref_db R t)) = t"
  by (simp_all add: ref_db_def db_table_def)

lemma retry_upto_attempts: "retry_upto k (attempts k)"
  by (auto simp: retry_upto_def)

lemma ref_locker_made:
  "NewPostgresTableLocker (ref_lock_server 0) ref_ext ref_me [] = Inr ref_locker" "tl_instanceID ref_locker = ''h-7-01ab00ff''"
proof -
  show "NewPostgresTableLocker (ref_lock_server 0) ref_ext ref_me [] = Inr ref_locker"
    by (simp add: NewPostgresTableLocker_def ref_locker_def default_table_config_def DefaultLockTableName_def lock_NewPostgres_def)
  show "tl_instanceID ref_locker = ''h-7-01ab00ff''" by code_simp
qed

theorem lock_stores_contract_witness:
  "lock_table_store (postgresStore (ref_lock_server 0) ref_ext lock_tbl) db_table db_now db_versions \<and>
   lock_table_store (mysqlStore (ref_lock_server 0) ref_ext lock_tbl) db_table db_now db_versions"
  using lock_stores_contract [of "ref_lock_server 0" lock_tbl db_table db_now db_versions ref_ext]
    ref_pg.pg_lock_server_axioms ref_my.my_lock_server_axioms ref_setup.appends by blast

lemma ref_acquired:
  "AcquireLock ref_lock_store 1 ''a'' time_Second (ref_db (Some []) 5) =
     (Inr \<lparr>ALockedBy = ''a'', ALeaseExpiresAt = 1000005\<rparr>, ref_db (Some [(1, ref_row ''a'' 1000005)]) 5)"
  by code_simp

theorem table_lock_exclusive_witness:
  "(lock_step ref_lock_store db_table db_now 1 (\<lambda>_. time_Second))\<^sup>*\<^sup>* (nobody_holds (ref_db (Some []) 5))
     \<lparr>sy_world = ref_db (Some [(1, ref_row ''a'' 1000005)]) 5, sy_holds = [''a'' \<mapsto> 1000005]\<rparr> \<and>
   has_row 1 ''a'' 1000005 (db_table (committed (ref_db (Some [(1, ref_row ''a'' 1000005)]) 5)))"
proof -
  let ?y = "\<lparr>sy_world = ref_db (Some [(1, ref_row ''a'' 1000005)]) 5, sy_holds = [''a'' \<mapsto> 1000005]\<rparr>"
  have "lock_step ref_lock_store db_table db_now 1 (\<lambda>_. time_Second) (nobody_holds (ref_db (Some []) 5)) ?y"
    using ref_acquired lock_step.acquired [of "nobody_holds (ref_db (Some []) 5)" "''a''" ref_lock_store 1 "\<lambda>_. time_Second"
        "\<lparr>ALockedBy = ''a'', ALeaseExpiresAt = 1000005\<rparr>" "ref_db (Some [(1, ref_row ''a'' 1000005)]) 5" db_table db_now]
    by (simp add: nobody_holds_def)
  then have r: "(lock_step ref_lock_store db_table db_now 1 (\<lambda>_. time_Second))\<^sup>*\<^sup>* (nobody_holds (ref_db (Some []) 5)) ?y"
    by (rule r_into_rtranclp)
  then show ?thesis using table_lock_exclusive [OF ref_served(1) _ r, of "''a''" 1000005] by simp
qed

definition ref_idle :: "lock_db world \<Rightarrow> lock_db locker_state" where
  "ref_idle w = \<lparr>lk_mu = False, lk_heartbeat = NoHeartbeat, lk_world = w\<rparr>"

lemma ref_locked:
  "table_Lock ref_locker (attempts 0) (ref_idle (ref_db None 5)) =
     Some (None, \<lparr>lk_mu = True, lk_heartbeat = Beating,
       lk_world = ref_db (Some [(DefaultLockID, ref_row (tl_instanceID ref_locker) 30000005)]) 5\<rparr>)"
  by code_simp

lemma ref_locker_store [simp]: "tl_store ref_locker = ref_lock_store"
  by (simp add: ref_locker_def table_New_def)

theorem table_locker_runs_witness:
  "\<exists>y' e. (lock_step ref_lock_store db_table db_now (tl_lockID ref_locker) (\<lambda>_. tl_leaseDuration ref_locker))\<^sup>*\<^sup>*
     (nobody_holds (ref_db None 5)) y' \<and>
     sy_world y' = ref_db (Some [(DefaultLockID, ref_row (tl_instanceID ref_locker) 30000005)]) 5 \<and>
     sy_holds y' = [tl_instanceID ref_locker \<mapsto> e]"
  using table_locker_runs [of ref_locker db_table db_now db_versions 0 "attempts 0" "nobody_holds (ref_db None 5)"
      "ref_idle (ref_db None 5)" "\<lambda>_. tl_leaseDuration ref_locker" None] ref_served(1) [of 0] retry_upto_attempts [of 0] ref_locked
  by (simp add: ref_idle_def nobody_holds_def) fastforce

text \<open>The holder still has the lock after the first pause and has released it after the second.\<close>

theorem Lock_waits_witness:
  "\<exists>s' T'. table_Lock ref_locker (attempts_in
       [\<lambda>_. ref_db (Some [(DefaultLockID, ref_row ''a'' 900)]) 500, \<lambda>_. ref_db (Some [(DefaultLockID, row_cleared)]) 800])
       (ref_idle (ref_db (Some [(DefaultLockID, ref_row ''a'' 900)]) 5)) = Some (None, s') \<and>
     db_table (committed (lk_world s')) = Some T' \<and> T' DefaultLockID = Some (ref_row (tl_instanceID ref_locker) 30000800)"
proof -
  let ?p = "[\<lambda>_. ref_db (Some [(DefaultLockID, ref_row ''a'' 900)]) 500, \<lambda>_. ref_db (Some [(DefaultLockID, row_cleared)]) 800]"
  let ?s = "ref_idle (ref_db (Some [(DefaultLockID, ref_row ''a'' 900)]) 5)"
  let ?sched = "[(500, Some (ref_row ''a'' 900)), (800, Some row_cleared)]"
  have id: "tl_lockID ref_locker = DefaultLockID" "\<forall>e. shouldRetry ref_locker e" "tl_leaseDuration ref_locker = 30 * time_Second"
    by (simp_all add: ref_locker_def table_New_def default_table_config_def shouldRetry_def)
  have "list_all2 (leaves db_table db_now (tl_lockID ref_locker)) ?p ?sched" by (simp add: leaves_def id)
  from Lock_waits [OF ref_served(1) [of 0, folded ref_locker_store] id(2) _ _ _ this, of ?s "(5, Some (ref_row ''a'' 900))"] show ?thesis
    by (simp add: id ref_idle_def first_free_def acquirable_def ref_row_def row_cleared_def expired_def lease_end_def
        duration_seconds_def time_Second_def) blast
qed

theorem short_lease_expires_at_once_witness:
  "\<exists>b. fst (AcquireLock ref_lock_store 1 ''b'' time_Second (ref_db (Some [(1, ref_row ''a'' 5)]) 6)) = Inr b"
proof -
  have "AcquireLock ref_lock_store 1 ''a'' 500000000 (ref_db (Some []) 5) =
     (Inr \<lparr>ALockedBy = ''a'', ALeaseExpiresAt = 5\<rparr>, ref_db (Some [(1, ref_row ''a'' 5)]) 5)" by code_simp
  from short_lease_expires_at_once [OF ref_served(1) _ _ _ _ this, of Map.empty "ref_db (Some [(1, ref_row ''a'' 5)]) 6"]
  show ?thesis by (simp add: time_Second_def)
qed

definition ref_session :: postgresSessionLocker where
  "ref_session = \<lparr>se_lockID = DefaultLockID, se_retryLock = sl_lockProbe default_session_config,
     se_retryUnlock = sl_unlockProbe default_session_config\<rparr>"

theorem session_lock_roundtrip_witness:
  "\<exists>w1 w2. SessionLock (ref_lock_server 0) ref_session (attempts 3) (ref_db None 5) = (None, w1) \<and>
     fst (SessionLock (ref_lock_server 1) ref_session (attempts 2) w1) \<noteq> None \<and>
     SessionUnlock (ref_lock_server 0) ref_session (attempts 1) w1 = (None, w2) \<and> adv_of (committed w2) = Map.empty"
proof -
  have e: "adv_of (committed (ref_db None 5)) = Map.empty" by (simp add: adv_of_def ref_db_def)
  then show ?thesis
    using session_lock_roundtrip [OF ref_adv.advisory_server_axioms, of "ref_db None 5" ref_session 1 0 ref_session 3 2 1] by auto
qed

theorem session_period_bounds_witness:
  "session_probe 9223372037 1 = Inr \<lparr>IntervalDuration = - 9223372036709551616, FailureThreshold = 1\<rparr> \<and>
   session_probe 5 60 = Inr \<lparr>IntervalDuration = 5 * time_Second, FailureThreshold = 60\<rparr>"
proof -
  have a: "session_probe 9223372037 1 = Inr \<lparr>IntervalDuration = - 9223372036709551616, FailureThreshold = 1\<rparr>"
    by (simp add: session_probe_def period_duration_def wrap64_def time_Second_def)
  obtain p where p: "session_probe 5 60 = Inr p" by (simp add: session_probe_def)
  from session_period_bounds [OF p] p a show ?thesis by (cases p) simp
qed

theorem lockers_meet_provider_laws_witness:
  "locker_laws db_versions (Some (table_lock_ops ref_locker (attempts 60) (attempts 30))) \<and>
   locker_laws db_versions (Some \<lparr>L_Lock = SessionLock (ref_lock_server 0) ref_session (attempts 60),
     L_Unlock = SessionUnlock (ref_lock_server 0) ref_session (attempts 30)\<rparr>)"
  using lockers_meet_provider_laws [OF retry_upto_attempts retry_upto_attempts, of ref_locker db_table db_now db_versions
      60 30 ref_lock_server adv_of 0 ref_session] ref_served(1) [of 0] ref_adv.advisory_server_axioms by simp

end
