(* ===== verification/Legacy_Files.thy ===== *)
theory Legacy_Files
  imports Legacy_Ops
begin

text \<open>
  The operations on migration files and the commands: \<open>helpers.go\<close> (the names), \<open>create.go\<close>, \<open>fix.go\<close>,
  the split into versioned and timestamped migrations of \<open>migrate.go\<close>, and \<open>run\<close> of \<open>goose.go\<close>. The
  tables of the package \<open>unicode\<close>, the clock and the failures of the operating system are parameters.
\<close>

section \<open>Names\<close>

type_synonym rune = nat

record unicode =
  u_decode :: "string \<Rightarrow> rune list"
  u_encode :: "rune list \<Rightarrow> string"
  u_letter :: "rune \<Rightarrow> bool"
  u_number :: "rune \<Rightarrow> bool"
  u_lower :: "rune \<Rightarrow> rune"
  u_upper :: "rune \<Rightarrow> rune"

datatype camelSnakeStateMachine = CsIdle | FirstAlphaNum | AlphaNum | Delimiter

definition isAlphaNum :: "unicode \<Rightarrow> rune \<Rightarrow> bool" where
  "isAlphaNum u r \<longleftrightarrow> u_letter u r \<or> u_number u r"

fun cs_next :: "unicode \<Rightarrow> camelSnakeStateMachine \<Rightarrow> rune \<Rightarrow> camelSnakeStateMachine" where
  "cs_next u CsIdle r = (if isAlphaNum u r then FirstAlphaNum else CsIdle)"
| "cs_next u FirstAlphaNum r = (if isAlphaNum u r then AlphaNum else Delimiter)"
| "cs_next u AlphaNum r = (if isAlphaNum u r then AlphaNum else Delimiter)"
| "cs_next u Delimiter r = (if isAlphaNum u r then FirstAlphaNum else CsIdle)"

fun camel_loop :: "unicode \<Rightarrow> camelSnakeStateMachine \<Rightarrow> rune list \<Rightarrow> rune list" where
  "camel_loop u s [] = []"
| "camel_loop u s (r # rs) =
     (let s' = cs_next u s r
      in (case s' of FirstAlphaNum \<Rightarrow> [u_upper u r] | AlphaNum \<Rightarrow> [u_lower u r] | _ \<Rightarrow> []) @ camel_loop u s' rs)"

definition camelCase :: "unicode \<Rightarrow> string \<Rightarrow> string" where
  "camelCase u str = u_encode u (camel_loop u CsIdle (u_decode u str))"

fun snake_loop :: "unicode \<Rightarrow> camelSnakeStateMachine \<Rightarrow> rune list \<Rightarrow> rune list \<times> camelSnakeStateMachine" where
  "snake_loop u s [] = ([], s)"
| "snake_loop u s (r # rs) =
     (let s' = cs_next u s r; (out, end) = snake_loop u s' rs
      in ((case s' of FirstAlphaNum \<Rightarrow> [u_lower u r] | AlphaNum \<Rightarrow> [u_lower u r] | Delimiter \<Rightarrow> [95] | CsIdle \<Rightarrow> []) @ out, end))"

definition snakeCase :: "unicode \<Rightarrow> string \<Rightarrow> string" where
  "snakeCase u str =
     (case snake_loop u CsIdle (u_decode u str) of
        (out, end) \<Rightarrow> u_encode u (if end = CsIdle \<and> out \<noteq> [] \<and> last out = 95 then butlast out else out))"

section \<open>Versions that are time stamps\<close>

definition is_leap :: "nat \<Rightarrow> bool" where
  "is_leap y \<longleftrightarrow> y mod 4 = 0 \<and> (y mod 100 \<noteq> 0 \<or> y mod 400 = 0)"

definition days_in :: "nat \<Rightarrow> nat \<Rightarrow> nat" where
  "days_in m y = (if m = 2 then if is_leap y then 29 else 28 else if m \<in> {4, 6, 9, 11} then 30 else 31)"

text \<open>\<open>time.Parse\<close> with the layout 20060102150405, for a text of digits.\<close>

definition time_Parse :: "string \<Rightarrow> (nat \<times> nat \<times> nat \<times> nat \<times> nat \<times> nat) option" where
  "time_Parse s =
     (if length s \<noteq> 14 \<or> digits_val 0 s = None then None
      else
        (let f = (\<lambda>a n. the (digits_val 0 (take n (drop a s))));
             y = f 0 4; mo = f 4 2; d = f 6 2; h = f 8 2; mi = f 10 2; se = f 12 2
         in if 1 \<le> mo \<and> mo \<le> 12 \<and> 1 \<le> d \<and> d \<le> days_in mo y \<and> h < 24 \<and> mi < 60 \<and> se < 60
            then Some (y, mo, d, h, mi, se) else None))"

definition before_epoch :: "nat \<times> nat \<times> nat \<times> nat \<times> nat \<times> nat \<Rightarrow> bool" where
  "before_epoch t \<longleftrightarrow> fst t < 1970"

definition after_epoch :: "nat \<times> nat \<times> nat \<times> nat \<times> nat \<times> nat \<Rightarrow> bool" where
  "after_epoch t \<longleftrightarrow> 1970 \<le> fst t \<and> t \<noteq> (1970, 1, 1, 0, 0, 0)"

definition versioned :: "Migration list \<Rightarrow> Migration list" where
  "versioned ms =
     filter (\<lambda>m. case time_Parse (FormatInt (Version m)) of None \<Rightarrow> True | Some t \<Rightarrow> before_epoch t) ms"

definition timestamped :: "Migration list \<Rightarrow> Migration list" where
  "timestamped ms =
     filter (\<lambda>m. case time_Parse (FormatInt (Version m)) of None \<Rightarrow> False | Some t \<Rightarrow> after_epoch t) ms"

text \<open>The format \<open>%05v\<close> of an integer.\<close>

definition seqVersion :: "version \<Rightarrow> string" where
  "seqVersion v =
     (let pad = (\<lambda>w s. replicate (w - length s) (CHR ''0'') @ s)
      in if v < 0 then CHR ''-'' # pad 4 (nat_digits (nat (- v))) else pad 5 (nat_digits (nat v)))"

section \<open>Create\<close>

record os =
  os_fs :: base_fs
  os_fail :: "path \<Rightarrow> err option"

definition os_exists :: "os \<Rightarrow> path \<Rightarrow> bool" where
  "os_exists sys f \<longleftrightarrow> map_of (b_files (os_fs sys)) f \<noteq> None"

definition os_write :: "os \<Rightarrow> path \<Rightarrow> string \<Rightarrow> os" where
  "os_write sys f text =
     sys\<lparr>os_fs := (os_fs sys)\<lparr>b_files := b_files (os_fs sys) @ [(f, Inr \<lparr>f_reader = (text, None), f_close = None\<rparr>)]\<rparr>\<rparr>"

definition sqlMigrationTemplate :: string where
  "sqlMigrationTemplate =
     ''-- +goose Up'' @ nl @ ''SELECT '' @ sq @ ''up SQL query'' @ sq @ '';'' @ nl @ nl @
     ''-- +goose Down'' @ nl @ ''SELECT '' @ sq @ ''down SQL query'' @ sq @ '';'' @ nl"

definition goSQLMigrationTemplate :: "string \<Rightarrow> string" where
  "goSQLMigrationTemplate camelName =
     ''package migrations'' @ nl @ nl @ ''import ('' @ nl @ tab @ dq @ ''context'' @ dq @ nl @ tab @ dq @ ''database/sql'' @ dq @ nl @
     tab @ dq @ ''github.com/pressly/goose/v3'' @ dq @ nl @ '')'' @ nl @ nl @
     ''func init() {'' @ nl @ tab @ ''goose.AddMigrationContext(up'' @ camelName @ '', down'' @ camelName @ '')'' @ nl @ ''}'' @ nl @ nl @
     ''func up'' @ camelName @ ''(ctx context.Context, tx *sql.Tx) error {'' @ nl @
     tab @ ''// This code is executed when the migration is applied.'' @ nl @ tab @ ''return nil'' @ nl @ ''}'' @ nl @ nl @
     ''func down'' @ camelName @ ''(ctx context.Context, tx *sql.Tx) error {'' @ nl @
     tab @ ''// This code is executed when the migration is rolled back.'' @ nl @ tab @ ''return nil'' @ nl @ ''}'' @ nl"

definition next_version :: "Migration list \<Rightarrow> version" where
  "next_version ms = (case Last (versioned ms) of Inr m \<Rightarrow> wrap64 (Version m + 1) | Inl _ \<Rightarrow> 1)"

text \<open>The version of a new file: the clock, or the next number after the versioned migrations.\<close>

definition create_version :: "os \<Rightarrow> bool \<Rightarrow> string \<Rightarrow> path \<Rightarrow> registry \<Rightarrow> (err + string) \<times> registry" where
  "create_version sys sequential now dir reg =
     (if \<not> sequential then (Inr now, reg)
      else
        (case collectMigrationsFS (os_fs sys) dir minVersion maxVersion reg of
           (Inl e, reg1) \<Rightarrow>
             (if errors_Is e ErrNoMigrationFiles then (Inr (seqVersion (next_version [])), reg1) else (Inl e, reg1))
         | (Inr ms, reg1) \<Rightarrow> (Inr (seqVersion (next_version ms)), reg1)))"

text \<open>A template gives the text it writes, all of it or what it wrote before it failed.\<close>

definition CreateWithTemplate ::
    "unicode \<Rightarrow> bool \<Rightarrow> string \<Rightarrow> path \<Rightarrow> (string \<Rightarrow> string \<Rightarrow> string \<times> err option) option \<Rightarrow> string \<Rightarrow> string \<Rightarrow>
     os \<Rightarrow> registry \<Rightarrow> err option \<times> os \<times> registry" where
  "CreateWithTemplate u sequential now dir tmpl name migrationType sys reg =
     (case create_version sys sequential now dir reg of
        (Inl e, reg1) \<Rightarrow> (Some e, sys, reg1)
      | (Inr version, reg1) \<Rightarrow>
          (let f = path_Join dir (version @ ''_'' @ snakeCase u name @ ''.'' @ migrationType);
               body = (case tmpl of
                         Some t \<Rightarrow> t version (camelCase u name)
                       | None \<Rightarrow> (if migrationType = ''go'' then goSQLMigrationTemplate (camelCase u name)
                                  else sqlMigrationTemplate, None))
           in if os_exists sys f then (Some (Msg ''failed to create migration file: %!w(<nil>)''), sys, reg1)
              else
                (case os_fail sys f of
                   Some e \<Rightarrow> (Some (Wrap ''failed to create migration file'' e), sys, reg1)
                 | None \<Rightarrow>
                     (map_option (Wrap ''failed to execute tmpl'') (snd body), os_write sys f (fst body), reg1))))"

definition Create ::
    "unicode \<Rightarrow> bool \<Rightarrow> string \<Rightarrow> path \<Rightarrow> string \<Rightarrow> string \<Rightarrow> os \<Rightarrow> registry \<Rightarrow> err option \<times> os \<times> registry" where
  "Create u sequential now dir name migrationType sys reg =
     CreateWithTemplate u sequential now dir None name migrationType sys reg"

section \<open>Fix\<close>

text \<open>\<open>os.Rename\<close> replaces a file that has the new name.\<close>

definition os_Rename :: "path \<Rightarrow> path \<Rightarrow> os \<Rightarrow> err option \<times> os" where
  "os_Rename old new sys =
     (case os_fail sys old of
        Some e \<Rightarrow> (Some e, sys)
      | None \<Rightarrow>
          (if \<not> os_exists sys old then (Some (Sent ErrNotExist), sys)
           else if new = old then (None, sys)
           else (None, sys\<lparr>os_fs := (os_fs sys)\<lparr>b_files :=
                  map (\<lambda>(f, c). (if f = old then new else f, c)) (filter (\<lambda>(f, c). f \<noteq> new) (b_files (os_fs sys)))\<rparr>\<rparr>)))"

definition fixed_path :: "Migration \<Rightarrow> version \<Rightarrow> path" where
  "fixed_path m version = Replace1 (MSourcePath m) (FormatInt (Version m)) (seqVersion version)"

fun fix_loop :: "Migration list \<Rightarrow> version \<Rightarrow> os \<Rightarrow> err option \<times> os" where
  "fix_loop [] version sys = (None, sys)"
| "fix_loop (m # ms) version sys =
     (case os_Rename (MSourcePath m) (fixed_path m version) sys of
        (Some e, sys1) \<Rightarrow> (Some e, sys1)
      | (None, sys1) \<Rightarrow> fix_loop ms (wrap64 (version + 1)) sys1)"

definition Fix :: "path \<Rightarrow> os \<Rightarrow> registry \<Rightarrow> err option \<times> os \<times> registry" where
  "Fix dir sys reg =
     (case collectMigrationsFS (os_fs sys) dir minVersion maxVersion reg of
        (Inl e, reg1) \<Rightarrow> (Some e, sys, reg1)
      | (Inr ms, reg1) \<Rightarrow> (case fix_loop (timestamped ms) (next_version ms) sys of (r, sys1) \<Rightarrow> (r, sys1, reg1)))"

section \<open>Commands\<close>

text \<open>
  \<open>run\<close>: the state is the package's and the operating system's; a command that does not return is
  \<open>None\<close>. The sequential flag and the clock are arguments.
\<close>

definition create_command :: "unicode \<Rightarrow> bool \<Rightarrow> string \<Rightarrow> path \<Rightarrow> string list \<Rightarrow> os \<Rightarrow> registry \<Rightarrow> err option \<times> os \<times> registry" where
  "create_command u sequential now dir args sys reg =
     (if args = [] then (Some (Msg ''create must be of form: goose DRIVER DBSTRING [OPTIONS] create NAME [go|sql]''), sys, reg)
      else Create u sequential now dir (hd args) (if length args = 2 then args ! 1 else ''go'') sys reg)"

definition on_db :: "err option \<times> 'd lstate \<Rightarrow> os \<Rightarrow> (err option \<times> 'd lstate \<times> os) option" where
  "on_db r sys = Some (fst r, snd r, sys)"

definition run ::
    "unicode \<Rightarrow> bool \<Rightarrow> string \<Rightarrow> 'd package \<Rightarrow> string \<Rightarrow> path \<Rightarrow> string list \<Rightarrow> OptionsFunc list \<Rightarrow>
     'd lstate \<Rightarrow> os \<Rightarrow> (err option \<times> 'd lstate \<times> os) option" where
  "run u sequential now g command dir args opts s sys =
     (if command = ''up'' then on_db (legacy_Up g dir opts s) sys
      else if command = ''up-by-one'' then on_db (legacy_UpByOne g dir opts s) sys
      else if command = ''up-to''
      then
        (if args = [] then Some (Some (Msg ''up-to must be of form: goose DRIVER DBSTRING [OPTIONS] up-to VERSION''), s, sys)
         else
           (case ParseInt (hd args) of
              Inl e \<Rightarrow> Some (Some (Msg (''version must be a number (got '' @ sq @ hd args @ sq @ '')'')), s, sys)
            | Inr version \<Rightarrow> on_db (legacy_UpTo g dir version opts s) sys))
      else if command = ''create''
      then (case create_command u sequential now dir args sys (lreg s) of (r, sys1, reg) \<Rightarrow> Some (r, s\<lparr>lreg := reg\<rparr>, sys1))
      else if command = ''down'' then on_db (legacy_Down g dir opts s) sys
      else if command = ''down-to''
      then
        (if args = [] then Some (Some (Msg ''down-to must be of form: goose DRIVER DBSTRING [OPTIONS] down-to VERSION''), s, sys)
         else
           (case ParseInt (hd args) of
              Inl e \<Rightarrow> Some (Some (Msg (''version must be a number (got '' @ sq @ hd args @ sq @ '')'')), s, sys)
            | Inr version \<Rightarrow> map_option (\<lambda>r. (fst r, snd r, sys)) (legacy_DownTo g dir version opts s)))
      else if command = ''fix''
      then (case Fix dir sys (lreg s) of (r, sys1, reg) \<Rightarrow> Some (r, s\<lparr>lreg := reg\<rparr>, sys1))
      else if command = ''redo'' then on_db (legacy_Redo g dir opts s) sys
      else if command = ''reset'' then map_option (\<lambda>r. (fst r, snd r, sys)) (legacy_Reset g dir opts s)
      else if command = ''status'' then (case legacy_Status g dir opts s of ((r, out), s1) \<Rightarrow> Some (r, s1, sys))
      else if command = ''version''
      then (case legacy_Version g dir opts s of (Inl e, s1) \<Rightarrow> Some (Some e, s1, sys) | (Inr _, s1) \<Rightarrow> Some (None, s1, sys))
      else Some (Some (Msg (Quote command @ '': no such command'')), s, sys))"

end
