(* ===== verification/Migration_Stats.thy ===== *)
theory Migration_Stats
  imports Provider_Run
begin

text \<open>
  The package \<open>internal/migrationstats\<close> behind \<open>goose validate\<close>: what is read of a SQL file with the SQL
  parser, and of a Go file from its syntax tree. The parser of Go is a parameter; of the trees it
  gives only what the package looks at is kept, everything else is \<open>Other\<close>.
\<close>

section \<open>Go files\<close>

datatype go_expr = Ident string | SelectorExpr go_expr string | CallExpr go_expr "go_expr list" | OtherExpr

datatype go_stmt = ExprStmt go_expr | OtherStmt

datatype go_decl = FuncDecl string "go_stmt list option" | OtherDecl

definition registerGoFuncName :: string where "registerGoFuncName = ''AddMigration''"
definition registerGoFuncNameNoTx :: string where "registerGoFuncNameNoTx = ''AddMigrationNoTx''"
definition registerGoFuncNameContext :: string where "registerGoFuncNameContext = ''AddMigrationContext''"
definition registerGoFuncNameNoTxContext :: string where "registerGoFuncNameNoTxContext = ''AddMigrationNoTxContext''"

record goMigration =
  gm_name :: string
  gm_useTx :: "bool option"
  gm_upFuncName :: string
  gm_downFuncName :: string

definition no_goMigration :: goMigration where
  "no_goMigration = \<lparr>gm_name = '''', gm_useTx = None, gm_upFuncName = '''', gm_downFuncName = ''''\<rparr>"

definition selector_call :: "go_stmt \<Rightarrow> (string \<times> go_expr list) option" where
  "selector_call s = (case s of ExprStmt (CallExpr (SelectorExpr _ f) args) \<Rightarrow> Some (f, args) | _ \<Rightarrow> None)"

definition registers_tx :: "string \<Rightarrow> bool option" where
  "registers_tx f =
     (if f = registerGoFuncName \<or> f = registerGoFuncNameContext then Some True
      else if f = registerGoFuncNameNoTx \<or> f = registerGoFuncNameNoTxContext then Some False
      else None)"

definition getNameFromExpr :: "go_expr \<Rightarrow> err + string" where
  "getNameFromExpr e =
     (case e of Ident n \<Rightarrow> Inr n | _ \<Rightarrow> Inl (Msg ''failed to assert argument identifier: got *ast.Ident''))"

fun init_statements :: "go_stmt list \<Rightarrow> goMigration \<Rightarrow> err + goMigration" where
  "init_statements [] gf = Inr gf"
| "init_statements (statement # rest) gf =
     (case selector_call statement of
        None \<Rightarrow> init_statements rest gf
      | Some (funcName, args) \<Rightarrow>
          (case registers_tx funcName of
             None \<Rightarrow> init_statements rest gf
           | Some b \<Rightarrow>
               (if gm_name gf \<noteq> ''''
                then Inl (Msg (''found duplicate registered functions:'' @ nl @ ''previous: '' @ gm_name gf @ nl @ ''current: '' @ funcName))
                else
                  (case args of
                     [a, b'] \<Rightarrow>
                       (case getNameFromExpr a of
                          Inl e \<Rightarrow> Inl e
                        | Inr up \<Rightarrow>
                            (case getNameFromExpr b' of
                               Inl e \<Rightarrow> Inl e
                             | Inr down \<Rightarrow>
                                 init_statements rest (gf\<lparr>gm_useTx := Some b, gm_name := funcName, gm_upFuncName := up, gm_downFuncName := down\<rparr>)))
                   | _ \<Rightarrow> Inl (Msg (''registered goose functions have 2 arguments: got '' @ FormatNat (length args)))))))"

definition parseInitFunc :: "go_stmt list option \<Rightarrow> err + goMigration" where
  "parseInitFunc body =
     (case body of
        None \<Rightarrow> Inl (Msg ''no function body'')
      | Some stmts \<Rightarrow>
          (if stmts = [] then Inl (Msg ''no registered goose functions'')
           else
             (case init_statements stmts no_goMigration of
                Inl e \<Rightarrow> Inl e
              | Inr gf \<Rightarrow>
                  (if registers_tx (gm_name gf) = None
                   then Inl (Msg (''goose register function must be one of: '' @ registerGoFuncName @ '', '' @ registerGoFuncNameNoTx @
                     '', '' @ registerGoFuncNameContext @ '', '' @ registerGoFuncNameNoTxContext))
                   else if gm_useTx gf = None then Inl (Msg ''validation error: failed to identify transaction: got nil bool'')
                   else if gm_upFuncName gf = '''' then Inl (Msg ''validation error: up function is empty string'')
                   else if gm_downFuncName gf = '''' then Inl (Msg ''validation error: down function is empty string'')
                   else Inr gf))))"

fun init_decl :: "go_decl list \<Rightarrow> err + goMigration" where
  "init_decl [] = Inl (Msg ''no init function'')"
| "init_decl (d # ds) =
     (case d of
        FuncDecl name body \<Rightarrow> (if name = ''init'' then parseInitFunc body else init_decl ds)
      | OtherDecl \<Rightarrow> init_decl ds)"

type_synonym go_parser = "reader \<Rightarrow> err + go_decl list"

definition parseGoFile :: "go_parser \<Rightarrow> reader \<Rightarrow> err + goMigration" where
  "parseGoFile gp r = (case gp r of Inl e \<Rightarrow> Inl e | Inr decls \<Rightarrow> init_decl decls)"

section \<open>SQL files\<close>

record sql_counts =
  sc_useTx :: bool
  sc_upCount :: nat
  sc_downCount :: nat

definition parseSQLFile :: "'x ext_scheme \<Rightarrow> reader \<Rightarrow> err + sql_counts" where
  "parseSQLFile x r =
     (case snd r of
        Some e \<Rightarrow> Inl e
      | None \<Rightarrow>
          (case ParseSQLMigration x (fst r, None) DirectionUp of
             Inl e \<Rightarrow> Inl e
           | Inr (upStatements, txUp) \<Rightarrow>
               (case ParseSQLMigration x (fst r, None) DirectionDown of
                  Inl e \<Rightarrow> Inl e
                | Inr (downStatements, txDown) \<Rightarrow>
                    (if txUp \<noteq> txDown then Inl (Msg ''up and down statements must have the same transaction mode'')
                     else Inr \<lparr>sc_useTx = txUp, sc_upCount = length upStatements, sc_downCount = length downStatements\<rparr>))))"

section \<open>The statistics of files\<close>

record Stats =
  S_FileName :: path
  S_Version :: version
  S_Tx :: bool
  S_UpCount :: nat
  S_DownCount :: nat

definition nilAsNumber :: "string \<Rightarrow> nat" where
  "nilAsNumber s = (if s \<noteq> ''nil'' then 1 else 0)"

definition stats_of_file :: "'x ext_scheme \<Rightarrow> go_parser \<Rightarrow> path \<Rightarrow> reader \<Rightarrow> err + Stats" where
  "stats_of_file x gp filename r =
     (case NumericComponent filename of
        Inl e \<Rightarrow> Inl (Wrap (''failed to get version from file '' @ Quote filename) e)
      | Inr v \<Rightarrow>
          (let failed = (\<lambda>e. Inl (Wrap (''failed to parse file '' @ Quote filename) e));
               stats = (\<lambda>tx up down. Inr \<lparr>S_FileName = filename, S_Version = v, S_Tx = tx, S_UpCount = up, S_DownCount = down\<rparr>)
           in if Ext filename = ''.sql''
              then (case parseSQLFile x r of Inl e \<Rightarrow> failed e | Inr m \<Rightarrow> stats (sc_useTx m) (sc_upCount m) (sc_downCount m))
              else if Ext filename = ''.go''
              then
                (case parseGoFile gp r of
                   Inl e \<Rightarrow> failed e
                 | Inr m \<Rightarrow>
                     (case gm_useTx m of
                        None \<Rightarrow> Inl (Panic ''invalid memory address or nil pointer dereference'')
                      | Some tx \<Rightarrow> stats tx (nilAsNumber (gm_upFuncName m)) (nilAsNumber (gm_downFuncName m))))
              else stats False 0 0))"

definition migration_file :: "path \<Rightarrow> bool" where
  "migration_file filename \<longleftrightarrow> Ext filename = ''.sql'' \<or> Ext filename = ''.go''"

text \<open>The walker of files, which closes a file without looking at the error, with the callback of \<open>GatherStats\<close>.\<close>

fun Walk :: "fs \<Rightarrow> (path \<Rightarrow> reader \<Rightarrow> err + 'a) \<Rightarrow> path list \<Rightarrow> err + 'a list" where
  "Walk fsys fn [] = Inr []"
| "Walk fsys fn (filename # filenames) =
     (if \<not> migration_file filename then Walk fsys fn filenames
      else
        (case fs_Open fsys filename of
           Inl e \<Rightarrow> Inl e
         | Inr f \<Rightarrow>
             (case fn filename (f_reader f) of
                Inl e \<Rightarrow> Inl e
              | Inr a \<Rightarrow> (case Walk fsys fn filenames of Inl e \<Rightarrow> Inl e | Inr as \<Rightarrow> Inr (a # as)))))"

definition GatherStats :: "'x ext_scheme \<Rightarrow> go_parser \<Rightarrow> fs \<Rightarrow> path list \<Rightarrow> err + Stats list" where
  "GatherStats x gp fsys filenames = Walk fsys (stats_of_file x gp) filenames"

section \<open>What is registered\<close>

definition registrations :: "go_stmt list \<Rightarrow> (string \<times> go_expr list) list" where
  "registrations stmts = filter (\<lambda>(f, _). registers_tx f \<noteq> None) (List.map_filter selector_call stmts)"

lemma registrations_Nil [simp]: "registrations [] = []"
  by (simp add: registrations_def List.map_filter_def)

lemma registrations_Cons [simp]:
  "registrations (s # ss) =
     (case selector_call s of None \<Rightarrow> registrations ss
      | Some (f, args) \<Rightarrow> if registers_tx f = None then registrations ss else (f, args) # registrations ss)"
  by (auto simp: registrations_def List.map_filter_def split: option.splits)

definition registered_as :: "string \<Rightarrow> string \<Rightarrow> string \<Rightarrow> goMigration" where
  "registered_as f up down = \<lparr>gm_name = f, gm_useTx = registers_tx f, gm_upFuncName = up, gm_downFuncName = down\<rparr>"

lemma getNameFromExpr_ok [simp]: "getNameFromExpr e = Inr n \<longleftrightarrow> e = Ident n"
  by (cases e) (auto simp: getNameFromExpr_def)

lemma registers_tx_name: "registers_tx f = Some b \<Longrightarrow> f \<noteq> ''''"
  by (auto simp: registers_tx_def registerGoFuncName_def registerGoFuncNameContext_def registerGoFuncNameNoTx_def
      registerGoFuncNameNoTxContext_def split: if_splits)

text \<open>Once a registration has been seen a second one is an error; before, the first one is taken.\<close>

lemma init_statements_after:
  "gm_name gf \<noteq> '''' \<Longrightarrow> init_statements ss gf = Inr gf' \<longleftrightarrow> registrations ss = [] \<and> gf' = gf"
  by (induction ss) (auto split: option.splits)

lemma init_statements_first:
  "init_statements ss no_goMigration = Inr gf \<longleftrightarrow>
     registrations ss = [] \<and> gf = no_goMigration \<or>
     (\<exists>f up down. registrations ss = [(f, [Ident up, Ident down])] \<and> gf = registered_as f up down)"
proof (induction ss)
  case (Cons s ss)
  show ?case
  proof (cases "selector_call s")
    case (Some fa)
    obtain f args where fa: "fa = (f, args)" by fastforce
    show ?thesis
    proof (cases "registers_tx f")
      case (Some b)
      show ?thesis
      proof (cases "\<exists>up down. args = [Ident up, Ident down]")
        case True
        then obtain up down where a: "args = [Ident up, Ident down]" by blast
        have n: "getNameFromExpr (Ident n) = Inr n" for n by simp
        have s: "init_statements (s # ss) no_goMigration = init_statements ss (registered_as f up down)"
          using \<open>selector_call s = Some fa\<close> Some fa a by (simp add: no_goMigration_def registered_as_def n)
        have f: "gm_name (registered_as f up down) \<noteq> ''''" using registers_tx_name [OF Some] by (simp add: registered_as_def)
        show ?thesis unfolding s init_statements_after [OF f] using \<open>selector_call s = Some fa\<close> Some fa a by auto
      next
        case False
        then have "\<not> (\<exists>g. init_statements (s # ss) no_goMigration = Inr g)"
          using \<open>selector_call s = Some fa\<close> Some fa
          by (auto simp: no_goMigration_def split: list.splits sum.splits)
        then show ?thesis using \<open>selector_call s = Some fa\<close> Some fa False by auto
      qed
    qed (use \<open>selector_call s = Some fa\<close> fa Cons in simp)
  qed (use Cons in simp)
qed auto

section \<open>Properties\<close>

text \<open>
  The first \<open>init\<close> function of a Go file is accepted exactly when it registers one migration, by
  one of the four functions that take two functions, with two names as arguments; what is found is
  that registration, with a transaction unless the name says otherwise.
\<close>

theorem parseInitFunc_exact:
  "parseInitFunc body = Inr gf \<longleftrightarrow>
     (\<exists>stmts f up down. body = Some stmts \<and> registrations stmts = [(f, [Ident up, Ident down])] \<and>
        up \<noteq> '''' \<and> down \<noteq> '''' \<and> gf = registered_as f up down)"
proof (cases body)
  case (Some stmts)
  have r: "registers_tx f \<noteq> None" if "registrations stmts = [(f, args)]" for f args
  proof -
    have "(f, args) \<in> set (registrations stmts)" using that by simp
    then show ?thesis by (auto simp: registrations_def)
  qed
  have e: "registers_tx (gm_name no_goMigration) = None" using registers_tx_name [of "''''"]
    by (cases "registers_tx ''''") (auto simp: no_goMigration_def)
  show ?thesis
  proof (cases "init_statements stmts no_goMigration")
    case (Inl x)
    then show ?thesis using Some init_statements_first [of stmts] by (auto simp: parseInitFunc_def)
  next
    case (Inr g)
    from init_statements_first [of stmts g] Inr consider "registrations stmts = []" "g = no_goMigration"
      | f up down where "registrations stmts = [(f, [Ident up, Ident down])]" "g = registered_as f up down" by blast
    then show ?thesis
    proof cases
      case 1
      then show ?thesis using Some Inr e by (auto simp: parseInitFunc_def)
    next
      case 2
      then have "stmts \<noteq> []" by auto
      then show ?thesis using Some Inr 2 r [OF 2(1)] by (auto simp: parseInitFunc_def registered_as_def)
    qed
  qed
qed (simp add: parseInitFunc_def)

text \<open>
  The registration that \<open>init\<close> runs in the program built with the file, as \<open>register.go\<close> carries it
  out; the argument \<open>nil\<close> is the nil function.
\<close>

definition run_registration :: "path \<Rightarrow> string \<Rightarrow> string \<Rightarrow> string \<Rightarrow> registry \<Rightarrow> err + registry" where
  "run_registration filename f up down =
     (let fn = (\<lambda>name. if name = ''nil'' then None else Some (Fn name));
          add = (if f = ''AddMigration'' then AddMigration else if f = ''AddMigrationNoTx'' then AddMigrationNoTx
                 else if f = ''AddMigrationContext'' then AddMigrationContext else AddMigrationNoTxContext)
      in add filename (fn up) (fn down))"

definition registers_init :: "go_decl list \<Rightarrow> (string \<times> go_expr list) list \<Rightarrow> bool" where
  "registers_init decls calls \<longleftrightarrow>
     (\<exists>stmts. find (\<lambda>d. case d of FuncDecl name _ \<Rightarrow> name = ''init'' | OtherDecl \<Rightarrow> False) decls = Some (FuncDecl ''init'' (Some stmts)) \<and>
        registrations stmts = calls)"

text \<open>
  What the statistics of one file say of the migration that goose gets from it. For a SQL file it is
  what the provider gets when it parses the file to run it. For a Go file it is the migration that
  the one registration in its first \<open>init\<close> adds to an empty registry: its version, whether a provider
  runs it in a transaction, and whether it is empty in a direction.
\<close>

definition stats_right :: "'x ext_scheme \<Rightarrow> go_parser \<Rightarrow> fs \<Rightarrow> path \<Rightarrow> Stats \<Rightarrow> bool" where
  "stats_right x gp fsys f s \<longleftrightarrow> S_FileName s = f \<and> NumericComponent f = Inr (S_Version s) \<and>
     (if Ext f = ''.sql''
      then (\<exists>p. ParseAllFromFS x fsys f = Inr p \<and>
        S_Tx s = P_UseTx p \<and> S_UpCount s = length (P_Up p) \<and> S_DownCount s = length (P_Down p))
      else (\<exists>g decls call up down m. fs_Open fsys f = Inr g \<and> gp (f_reader g) = Inr decls \<and>
        registers_init decls [(call, [Ident up, Ident down])] \<and> up \<noteq> '''' \<and> down \<noteq> '''' \<and>
        run_registration f call up down [] = Inr [(S_Version s, m)] \<and>
        useTx m True = Inr (S_Tx s) \<and> useTx m False = Inr (S_Tx s) \<and>
        S_UpCount s = (if isEmpty m True then 0 else 1) \<and> S_DownCount s = (if isEmpty m False then 0 else 1)))"

lemma init_decl_exact:
  "init_decl decls = Inr gf \<longleftrightarrow>
     (\<exists>f up down. registers_init decls [(f, [Ident up, Ident down])] \<and> up \<noteq> '''' \<and> down \<noteq> '''' \<and> gf = registered_as f up down)"
proof (induction decls)
  case (Cons d ds)
  show ?case
  proof (cases "\<exists>body. d = FuncDecl ''init'' body")
    case True
    then obtain body where "d = FuncDecl ''init'' body" by blast
    then show ?thesis by (auto simp: registers_init_def parseInitFunc_exact)
  next
    case False
    then have "init_decl (d # ds) = init_decl ds" "registers_init (d # ds) calls = registers_init ds calls" for calls
      by (cases d; auto simp: registers_init_def)+
    then show ?thesis using Cons by simp
  qed
qed (simp add: registers_init_def)

text \<open>The transaction mode and the counts read off the names are those of the migration that is registered.\<close>

lemma named_registration:
  assumes "NumericComponent filename = Inr v"
  shows "\<exists>m. AddNamedMigrationContext filename u d [] = Inr [(v, m)] \<and> (\<forall>dir. useTx m dir = Inr True) \<and>
      (isEmpty m True \<longleftrightarrow> u = None) \<and> (isEmpty m False \<longleftrightarrow> d = None)"
    and "\<exists>m. AddNamedMigrationNoTxContext filename u d [] = Inr [(v, m)] \<and> (\<forall>dir. useTx m dir = Inr False) \<and>
      (isEmpty m True \<longleftrightarrow> u = None) \<and> (isEmpty m False \<longleftrightarrow> d = None)"
proof -
  define m where "m tx up' down' = (NewGoMigration v (Some up') (Some down'))\<lparr>MSourcePath := filename, UseTx := tx\<rparr>" for tx up' down'
  have m: "Type (m tx up' down') = TypeGo" "goUp (m tx up' down') = updateMode up'" "goDown (m tx up' down') = updateMode down'" for tx up' down'
    by (simp_all add: m_def NewGoMigration_def set_up_funcs_def set_down_funcs_def Let_def)
  note defs = AddNamedMigrationContext_def AddNamedMigrationNoTxContext_def register_def panic_on_def m_def [symmetric] assms Let_def
  show "\<exists>m. AddNamedMigrationContext filename u d [] = Inr [(v, m)] \<and> (\<forall>dir. useTx m dir = Inr True) \<and>
      (isEmpty m True \<longleftrightarrow> u = None) \<and> (isEmpty m False \<longleftrightarrow> d = None)"
    "\<exists>m. AddNamedMigrationNoTxContext filename u d [] = Inr [(v, m)] \<and> (\<forall>dir. useTx m dir = Inr False) \<and>
      (isEmpty m True \<longleftrightarrow> u = None) \<and> (isEmpty m False \<longleftrightarrow> d = None)"
    by (simp_all add: defs) (simp_all add: useTx_def isEmpty_def m updateMode_def)
qed

lemma withContext_None [simp]: "withContext fn = None \<longleftrightarrow> fn = None"
  by (simp add: withContext_def split: option.splits)

lemma run_registration_migration:
  assumes "registers_tx f = Some tx" and "NumericComponent filename = Inr v"
  shows "\<exists>m. run_registration filename f up down [] = Inr [(v, m)] \<and> (\<forall>dir. useTx m dir = Inr tx) \<and>
     (isEmpty m True \<longleftrightarrow> up = ''nil'') \<and> (isEmpty m False \<longleftrightarrow> down = ''nil'')"
proof -
  define u where "u = (if up = ''nil'' then None else Some (Fn up))"
  define d where "d = (if down = ''nil'' then None else Some (Fn down))"
  have n: "u = None \<longleftrightarrow> up = ''nil''" "d = None \<longleftrightarrow> down = ''nil''" by (simp_all add: u_def d_def)
  note r = named_registration [OF assms(2), of u d, unfolded n]
    named_registration [OF assms(2), of "withContext u" "withContext d", unfolded withContext_None n]
  note defs = run_registration_def Let_def u_def [symmetric] d_def [symmetric] AddMigration_def AddMigrationNoTx_def
    AddMigrationContext_def AddMigrationNoTxContext_def
  have "f = ''AddMigration'' \<and> tx \<or> f = ''AddMigrationContext'' \<and> tx \<or> f = ''AddMigrationNoTx'' \<and> \<not> tx \<or>
      f = ''AddMigrationNoTxContext'' \<and> \<not> tx"
    using assms(1) by (auto simp: registers_tx_def registerGoFuncName_def registerGoFuncNameContext_def
        registerGoFuncNameNoTx_def registerGoFuncNameNoTxContext_def split: if_splits)
  then show ?thesis
    by (elim disjE conjE) (use r in \<open>simp_all add: defs\<close>)
qed

lemma wait_None:
  assumes "wait_laws x"
  shows "group_wait x a b = None \<longleftrightarrow> a = None \<and> b = None"
proof -
  have "group_wait x a b \<in> (if a = None then {b} else if b = None then {a} else {a, b})" using assms unfolding wait_laws_def by blast
  then show ?thesis by (auto split: if_splits)
qed

lemma ParseAllFromFS_parts:
  assumes "wait_laws x"
  shows "ParseAllFromFS x fsys f = Inr p \<longleftrightarrow>
     (\<exists>us ds td. parse x fsys f DirectionUp = Inr (us, P_UseTx p) \<and> parse x fsys f DirectionDown = Inr (ds, td) \<and> us = P_Up p \<and> ds = P_Down p)"
proof (cases "parse x fsys f DirectionUp"; cases "parse x fsys f DirectionDown")
  fix u d assume "parse x fsys f DirectionUp = Inr u" "parse x fsys f DirectionDown = Inr d"
  then show ?thesis using wait_None [OF assms, of None None]
    by (cases p; cases u; cases d) (auto simp: ParseAllFromFS_def Let_def err_of_def)
qed (use wait_None [OF assms] in \<open>auto simp: ParseAllFromFS_def Let_def err_of_def split: option.splits\<close>)

lemma parse_closed:
  assumes "append_laws x" and "fs_Open fsys f = Inr g" and "f_close g = None"
  shows "parse x fsys f dir = Inr r \<longleftrightarrow> ParseSQLMigration x (f_reader g) dir = Inr r"
  using assms by (auto simp: parse_def append_laws_def split: sum.splits option.splits)

lemma parseSQLFile_all:
  assumes "append_laws x" and "wait_laws x" and "fs_Open fsys f = Inr g" and "f_close g = None" and "snd (f_reader g) = None"
  shows "parseSQLFile x (f_reader g) = Inr c \<longleftrightarrow>
     (\<exists>p. ParseAllFromFS x fsys f = Inr p \<and> c = \<lparr>sc_useTx = P_UseTx p, sc_upCount = length (P_Up p), sc_downCount = length (P_Down p)\<rparr>)"
proof -
  have r: "(fst (f_reader g), None) = f_reader g" using assms(5) by (metis prod.collapse)
  note c = ParseAllFromFS_parts [OF assms(2)] parse_closed [OF assms(1,3,4)]
  show ?thesis
  proof (cases "ParseSQLMigration x (f_reader g) DirectionUp"; cases "ParseSQLMigration x (f_reader g) DirectionDown")
    fix u d assume u: "ParseSQLMigration x (f_reader g) DirectionUp = Inr u" and d: "ParseSQLMigration x (f_reader g) DirectionDown = Inr d"
    obtain us tu ds td where ud: "u = (us, tu)" "d = (ds, td)" by fastforce
    have t: "tu = td" using parse_directions_agree [of x "f_reader g" us tu x ds td] u d ud by simp
    have "ParseAllFromFS x fsys f = Inr p \<longleftrightarrow> p = \<lparr>P_UseTx = tu, P_Up = us, P_Down = ds\<rparr>" for p
      using u d ud by (cases p) (auto simp: c)
    then show ?thesis using u d ud t assms(5) by (auto simp: parseSQLFile_def r)
  qed (use assms(5) in \<open>auto simp: parseSQLFile_def r c\<close>)
qed

lemma go_stats_right:
  assumes "fs_Open fsys f = Inr g" and "Ext f = ''.go''" and "NumericComponent f = Inr v"
  shows "(case parseGoFile gp (f_reader g) of
       Inl e \<Rightarrow> Inl (Wrap what e)
     | Inr m \<Rightarrow>
         (case gm_useTx m of
            None \<Rightarrow> Inl (Panic msg)
          | Some tx \<Rightarrow> Inr \<lparr>S_FileName = f, S_Version = v, S_Tx = tx, S_UpCount = nilAsNumber (gm_upFuncName m),
              S_DownCount = nilAsNumber (gm_downFuncName m)\<rparr>)) = Inr s \<longleftrightarrow> stats_right x gp fsys f s"
proof (cases "parseGoFile gp (f_reader g)")
  case (Inl e)
  then have "\<not> (\<exists>call up down. registers_init decls [(call, [Ident up, Ident down])] \<and> up \<noteq> [] \<and> down \<noteq> [])"
    if "gp (f_reader g) = Inr decls" for decls
    using that init_decl_exact [of decls] by (auto simp: parseGoFile_def)
  then have "\<not> stats_right x gp fsys f s" unfolding stats_right_def assms(2) using assms(1) by auto
  then show ?thesis using Inl by simp
next
  case (Inr gf)
  then obtain decls call up down where d: "gp (f_reader g) = Inr decls" "registers_init decls [(call, [Ident up, Ident down])]"
    "up \<noteq> ''''" "down \<noteq> ''''" and gf: "gf = registered_as call up down"
    by (auto simp: parseGoFile_def init_decl_exact split: sum.splits)
  obtain stmts where "registrations stmts = [(call, [Ident up, Ident down])]" using d(2) by (auto simp: registers_init_def)
  then have "(call, [Ident up, Ident down]) \<in> set (registrations stmts)" by simp
  then obtain tx where tx: "registers_tx call = Some tx" by (auto simp: registrations_def)
  obtain m where m: "run_registration f call up down [] = Inr [(v, m)]" "\<And>dir. useTx m dir = Inr tx"
    "isEmpty m True \<longleftrightarrow> up = ''nil''" "isEmpty m False \<longleftrightarrow> down = ''nil''"
    using run_registration_migration [OF tx assms(3), of up down] by (elim exE conjE) simp
  have one: "call' = call \<and> up' = up \<and> down' = down" if "registers_init decls [(call', [Ident up', Ident down'])]" for call' up' down'
  proof -
    have "calls = calls'" if "registers_init decls calls" "registers_init decls calls'" for calls calls'
      using that unfolding registers_init_def by (elim exE conjE) simp
    from this [OF that d(2)] show ?thesis by simp
  qed
  have "stats_right x gp fsys f s \<longleftrightarrow> S_FileName s = f \<and> S_Version s = v \<and> S_Tx s = tx \<and>
      S_UpCount s = nilAsNumber up \<and> S_DownCount s = nilAsNumber down"
  proof
    assume "stats_right x gp fsys f s"
    then obtain call' up' down' m' where s: "S_FileName s = f" "S_Version s = v" "registers_init decls [(call', [Ident up', Ident down'])]"
      "run_registration f call' up' down' [] = Inr [(S_Version s, m')]" "useTx m' True = Inr (S_Tx s)"
      "S_UpCount s = (if isEmpty m' True then 0 else 1)" "S_DownCount s = (if isEmpty m' False then 0 else 1)"
      unfolding stats_right_def using assms d(1) by auto
    then have "m' = m" using one [OF s(3)] m(1) by simp
    then show "S_FileName s = f \<and> S_Version s = v \<and> S_Tx s = tx \<and> S_UpCount s = nilAsNumber up \<and> S_DownCount s = nilAsNumber down"
      using s m by (simp add: nilAsNumber_def)
  next
    assume s: "S_FileName s = f \<and> S_Version s = v \<and> S_Tx s = tx \<and> S_UpCount s = nilAsNumber up \<and> S_DownCount s = nilAsNumber down"
    have "S_UpCount s = (if isEmpty m True then 0 else 1)" "S_DownCount s = (if isEmpty m False then 0 else 1)"
      using s m(3,4) by (simp_all add: nilAsNumber_def)
    then show "stats_right x gp fsys f s" unfolding stats_right_def using s assms d m(1,2) by fastforce
  qed
  then show ?thesis using Inr gf tx by (cases s) (auto simp: registered_as_def)
qed

lemma stats_of_file_right:
  assumes "append_laws x" and "wait_laws x" and "migration_file f" and "fs_Open fsys f = Inr g" and "f_close g = None"
    and "snd (f_reader g) = None"
  shows "stats_of_file x gp f (f_reader g) = Inr s \<longleftrightarrow> stats_right x gp fsys f s"
proof (cases "NumericComponent f")
  case (Inr v)
  show ?thesis
  proof (cases "Ext f = ''.sql''")
    case True
    show ?thesis
    proof (cases "parseSQLFile x (f_reader g)")
      case (Inl e)
      then show ?thesis using parseSQLFile_all [OF assms(1,2,4,5,6)] Inr True
        by (auto simp: stats_of_file_def stats_right_def)
    next
      case C: (Inr c)
      then obtain p where p: "ParseAllFromFS x fsys f = Inr p"
        "c = \<lparr>sc_useTx = P_UseTx p, sc_upCount = length (P_Up p), sc_downCount = length (P_Down p)\<rparr>"
        using parseSQLFile_all [OF assms(1,2,4,5,6)] by blast
      show ?thesis using C p Inr True by (cases s) (auto simp: stats_of_file_def stats_right_def)
    qed
  next
    case False
    then have "Ext f = ''.go''" using assms(3) by (simp add: migration_file_def)
    then show ?thesis using go_stats_right [OF assms(4) _ Inr] False Inr by (simp add: stats_of_file_def Let_def)
  qed
qed (auto simp: stats_of_file_def stats_right_def)


section \<open>Instances\<close>

definition ref_go_parser :: go_parser where
  "ref_go_parser r = Inr [OtherDecl, FuncDecl ''init''
     (Some [OtherStmt, ExprStmt (CallExpr (SelectorExpr (Ident ''goose'') ''AddMigrationNoTx'') [Ident ''up'', Ident ''nil''])])]"

definition stats_files :: fs where
  "stats_files =
     [(''3_c.go'', Inr \<lparr>f_reader = ('''', None), f_close = None\<rparr>),
      (''README'', Inr \<lparr>f_reader = ('''', None), f_close = None\<rparr>),
      (''7_a.sql'', Inr \<lparr>f_reader = (unlines [''-- +goose NO TRANSACTION'', lineUp, ''SELECT 1;'', ''SELECT 2;''], None), f_close = None\<rparr>)]"


end
