(* ===== verification/Cli.thy ===== *)
theory Cli
  imports Legacy_Files Migration_Stats Provider_Config "HOL-Library.Char_ord" "HOL-Library.List_Lexorder" "HOL-Library.Multiset"
begin

text \<open>
  The command \<open>goose\<close>: \<open>cmd/goose/main.go\<close> and the connection strings of \<open>cmd/goose/driver_mysql.go\<close>.
  The parsing of the flags, the loading of environment files, the parser of MySQL connection strings,
  the certificates and the opening of databases are parameters. The time-out of a command, the text
  of the usage and the alignment of the table of \<open>validate\<close> are left out.
\<close>

section \<open>Flags and environment\<close>

record cli_flags =
  fl_dir :: string
  fl_table :: string
  fl_verbose :: bool
  fl_help :: bool
  fl_version :: bool
  fl_certfile :: string
  fl_sequential :: bool
  fl_allowMissing :: bool
  fl_sslcert :: string
  fl_sslkey :: string
  fl_noVersioning :: bool
  fl_noColor :: bool
  fl_env :: string

definition DefaultMigrationDir :: string where
  "DefaultMigrationDir = ''.''"

type_synonym environment = "string \<Rightarrow> string"

definition envOr :: "environment \<Rightarrow> string \<Rightarrow> string \<Rightarrow> string" where
  "envOr getenv key def = (let val = getenv key in if val = '''' then def else val)"

record envConfig =
  ec_driver :: string
  ec_dbstring :: string
  ec_dir :: string
  ec_table :: string
  ec_noColor :: bool

text \<open>\<open>strconv.ParseBool\<close>, whose error is ignored.\<close>

definition parse_bool :: "string \<Rightarrow> bool" where
  "parse_bool s \<longleftrightarrow> s \<in> {''1'', ''t'', ''T'', ''true'', ''TRUE'', ''True''}"

definition loadEnvConfig :: "environment \<Rightarrow> envConfig" where
  "loadEnvConfig getenv =
     \<lparr>ec_driver = envOr getenv ''GOOSE_DRIVER'' '''', ec_dbstring = envOr getenv ''GOOSE_DBSTRING'' '''',
      ec_dir = envOr getenv ''GOOSE_MIGRATION_DIR'' DefaultMigrationDir, ec_table = envOr getenv ''GOOSE_TABLE'' '''',
      ec_noColor = parse_bool (envOr getenv ''NO_COLOR'' ''false'')\<rparr>"

definition listEnvs :: "envConfig \<Rightarrow> (string \<times> string) list" where
  "listEnvs c =
     [(''GOOSE_DRIVER'', ec_driver c), (''GOOSE_DBSTRING'', ec_dbstring c), (''GOOSE_MIGRATION_DIR'', ec_dir c),
      (''GOOSE_TABLE'', ec_table c), (''NO_COLOR'', if ec_noColor c then ''true'' else ''false'')]"

fun firstNonEmpty :: "string list \<Rightarrow> string" where
  "firstNonEmpty [] = ''''"
| "firstNonEmpty (v # values) = (if v \<noteq> '''' then v else firstNonEmpty values)"

definition mergeArgs :: "envConfig \<Rightarrow> string list \<Rightarrow> string list" where
  "mergeArgs config args =
     (if args = [] then args
      else
        (let args1 = (if ec_driver config \<noteq> '''' then ec_driver config # args else args)
         in if ec_dbstring config \<noteq> '''' then hd args1 # ec_dbstring config # tl args1 else args1))"

section \<open>Drivers\<close>

text \<open>\<open>driverMap\<close>: a key is the name up to the first slash.\<close>

definition driver_key :: "string \<Rightarrow> string" where
  "driver_key driver = (case Cut driver slash of None \<Rightarrow> driver | Some (pre, _) \<Rightarrow> pre)"

fun add_driver :: "string \<Rightarrow> (string \<times> string list) list \<Rightarrow> (string \<times> string list) list" where
  "add_driver driver [] = [(driver_key driver, [driver])]"
| "add_driver driver ((k, ds) # m) =
     (if k = driver_key driver then (k, ds @ [driver]) # m else (k, ds) # add_driver driver m)"

fun Join :: "string list \<Rightarrow> string \<Rightarrow> string" where
  "Join [] sep = ''''"
| "Join [s] sep = s"
| "Join (s # ss) sep = s @ sep @ Join ss sep"

text \<open>The order of the iteration over the map is an argument.\<close>

definition mergeDrivers :: "((string \<times> string list) list \<Rightarrow> (string \<times> string list) list) \<Rightarrow> string list \<Rightarrow> string list" where
  "mergeDrivers iter drivers =
     sort (map (\<lambda>(_, versions). Join (sort versions) '', '') (iter (fold add_driver drivers [])))"

definition printDrivers :: "((string \<times> string list) list \<Rightarrow> (string \<times> string list) list) \<Rightarrow> string list \<Rightarrow> string list" where
  "printDrivers iter available =
     (let drivers = mergeDrivers iter available
      in if drivers = [] then [''No drivers found''] else ''Available drivers:'' # map (\<lambda>d. ''  '' @ d) drivers)"

section \<open>Init and validate\<close>

text \<open>\<open>os.Stat\<close>: whether the path is a directory.\<close>

definition os_Stat :: "os \<Rightarrow> path \<Rightarrow> err + bool" where
  "os_Stat sys p = (if os_exists sys p then Inr False else case b_stat (os_fs sys) p of None \<Rightarrow> Inr True | Some e \<Rightarrow> Inl e)"

definition os_MkdirAll :: "os \<Rightarrow> path \<Rightarrow> err option \<times> os" where
  "os_MkdirAll sys p =
     (case os_fail sys p of
        Some e \<Rightarrow> (Some e, sys)
      | None \<Rightarrow> (None, sys\<lparr>os_fs := (os_fs sys)\<lparr>b_stat := (b_stat (os_fs sys))(p := None)\<rparr>\<rparr>))"

definition cli_sqlMigrationTemplate :: string where
  "cli_sqlMigrationTemplate =
     ''-- Thank you for giving goose a try!'' @ nl @
     ''-- '' @ nl @
     ''-- This file was automatically created running goose init. If you'' @ sq @ ''re familiar with goose'' @ nl @
     ''-- feel free to remove/rename this file, write some SQL and goose up. Briefly,'' @ nl @
     ''-- '' @ nl @
     ''-- Documentation can be found here: https://pressly.github.io/goose'' @ nl @
     ''--'' @ nl @
     ''-- A single goose .sql file holds both Up and Down migrations.'' @ nl @
     ''-- '' @ nl @
     ''-- All goose .sql files are expected to have a -- +goose Up annotation.'' @ nl @
     ''-- The -- +goose Down annotation is optional, but recommended, and must come after the Up annotation.'' @ nl @
     ''-- '' @ nl @
     ''-- The -- +goose NO TRANSACTION annotation may be added to the top of the file to run statements '' @ nl @
     ''-- outside a transaction. Both Up and Down migrations within this file will be run without a transaction.'' @ nl @
     ''-- '' @ nl @
     ''-- More complex statements that have semicolons within them must be annotated with '' @ nl @
     ''-- the -- +goose StatementBegin and -- +goose StatementEnd annotations to be properly recognized.'' @ nl @
     ''-- '' @ nl @
     ''-- Use GitHub issues for reporting bugs and requesting features, enjoy!'' @ nl @ nl @
     ''-- +goose Up'' @ nl @ ''SELECT '' @ sq @ ''up SQL query'' @ sq @ '';'' @ nl @ nl @
     ''-- +goose Down'' @ nl @ ''SELECT '' @ sq @ ''down SQL query'' @ sq @ '';'' @ nl"

definition gooseInit :: "unicode \<Rightarrow> bool \<Rightarrow> string \<Rightarrow> path \<Rightarrow> os \<Rightarrow> registry \<Rightarrow> err option \<times> os \<times> registry" where
  "gooseInit u sequential now dir0 sys reg =
     (let dir = (if dir0 = '''' \<or> dir0 = DefaultMigrationDir then ''migrations'' else dir0);
          create = (case os_MkdirAll sys dir of
             (Some e, sys1) \<Rightarrow> (Some e, sys1, reg)
           | (None, sys1) \<Rightarrow>
               CreateWithTemplate u sequential now dir (Some (\<lambda>_ _. (cli_sqlMigrationTemplate, None))) ''initial'' ''sql'' sys1 reg)
      in case os_Stat sys dir of
           Inr _ \<Rightarrow> (Some (Msg (''directory already exists: '' @ dir)), sys, reg)
         | Inl e \<Rightarrow>
             (if errors_Is e ErrNotExist then create
              else if errors_Is e ErrExist then (Some (Msg (''directory already exists: '' @ dir)), sys, reg)
              else (Some e, sys, reg)))"

definition gatherFilenames :: "os \<Rightarrow> path \<Rightarrow> err + path list" where
  "gatherFilenames sys filename =
     (case os_Stat sys filename of
        Inl e \<Rightarrow> Inl e
      | Inr isDir \<Rightarrow>
          Inr (sort (if isDir then Glob_dir (b_files (os_fs sys)) filename ''.sql'' @ Glob_dir (b_files (os_fs sys)) filename ''.go''
                     else [filename])))"

definition TrimPrefix :: "string \<Rightarrow> string \<Rightarrow> string" where
  "TrimPrefix s p = (if HasPrefix s p then drop (length p) s else s)"

text \<open>The rows of the table, cell by cell: lines, check marks and crosses in UTF-8.\<close>

definition rule_cell :: "nat \<Rightarrow> string" where
  "rule_cell n = concat (replicate n [CHR 0xE2, CHR 0x94, CHR 0x80])"

definition stats_row :: "Stats \<Rightarrow> string list" where
  "stats_row m =
     [TrimPrefix (Ext (S_FileName m)) ''.'', if S_Tx m then [CHR 0xE2, CHR 0x9C, CHR 0x94] else [CHR 0xE2, CHR 0x9C, CHR 0x98], FormatNat (S_UpCount m), FormatNat (S_DownCount m),
      Base (S_FileName m)]"

definition printValidate :: "ext \<Rightarrow> go_parser \<Rightarrow> os \<Rightarrow> path \<Rightarrow> bool \<Rightarrow> err + string list list" where
  "printValidate x gp sys filename verb =
     (case gatherFilenames sys filename of
        Inl e \<Rightarrow> Inl e
      | Inr filenames \<Rightarrow>
          (case GatherStats x gp (b_files (os_fs sys)) filenames of
             Inl e \<Rightarrow> Inl e
           | Inr stats \<Rightarrow> Inr (if verb
                           then [''Type'', ''Txn'', ''Up'', ''Down'', ''Name''] # map rule_cell [4, 3, 2, 4, 4] # map stats_row stats
                           else [])))"

section \<open>Connection strings\<close>

text \<open>
  \<open>my_dsn\<close> parses a MySQL connection string, turns on the parsing of times and, if asked, the
  certificates, and formats it again.
\<close>

record my_driver =
  my_tls :: "string \<Rightarrow> string \<Rightarrow> string \<Rightarrow> err option"
  my_dsn :: "string \<Rightarrow> bool \<Rightarrow> err + string"

definition normalizeDBString :: "my_driver \<Rightarrow> string \<Rightarrow> string \<Rightarrow> string \<Rightarrow> string \<Rightarrow> string \<Rightarrow> (string \<times> err) + string" where
  "normalizeDBString my driver str certfile sslcert sslkey =
     (if driver \<noteq> ''mysql'' then Inr str
      else
        (case (if certfile \<noteq> '''' then my_tls my certfile sslcert sslkey else None) of
           Some e \<Rightarrow> Inl (''goose run'', e)
         | None \<Rightarrow>
             (case my_dsn my str (certfile \<noteq> '''') of
                Inl e \<Rightarrow> Inl (''failed to normalize MySQL connection string'', e)
              | Inr str' \<Rightarrow> Inr str')))"

section \<open>The command\<close>

text \<open>An open database: the server, its state, and what closing it will say.\<close>

record 'd conn =
  k_engine :: "'d engine"
  k_world :: "'d world"
  k_close :: "err option"

record 'd shell =
  sh_unicode :: unicode
  sh_now :: string
  sh_ext :: ext
  sh_gp :: go_parser
  sh_getenv :: environment
  sh_dotenv :: "string option \<Rightarrow> err option \<times> environment"
  sh_drivers :: "string list"
  sh_iter :: "(string \<times> string list) list \<Rightarrow> (string \<times> string list) list"
  sh_my :: my_driver
  sh_open :: "string \<Rightarrow> string \<Rightarrow> err + 'd conn"
  sh_store :: "querier option"
  sh_linked :: string
  sh_build :: "string option"

text \<open>
  How the process ends: it prints lines, prints the usage and exits with a code, or logs a line and
  an error and exits with code 1. \<open>None\<close> in \<open>main\<close> is a command that does not return.
\<close>

datatype ending = Printed "string list" | Usage nat | Fatal string "err option"

record 'd cli_state =
  cl_os :: os
  cl_reg :: registry
  cl_db :: "'d world option"

definition ended_with :: "string \<Rightarrow> err option \<times> os \<times> registry \<Rightarrow> ending \<times> 'd cli_state" where
  "ended_with what r =
     (case r of (e, sys, reg) \<Rightarrow>
        (case e of Some _ \<Rightarrow> Fatal what e | None \<Rightarrow> Printed [], \<lparr>cl_os = sys, cl_reg = reg, cl_db = None\<rparr>))"

definition printed_version :: "'d shell \<Rightarrow> string" where
  "printed_version sh =
     ''goose version: '' @ TrimSpace (if sh_linked sh = '''' then (case sh_build sh of Some v \<Rightarrow> v | None \<Rightarrow> '''') else sh_linked sh)"

text \<open>The environment after the file of the flag \<open>-env\<close> is loaded; an error of the default file is ignored.\<close>

definition load_env :: "'d shell \<Rightarrow> string \<Rightarrow> err + environment" where
  "load_env sh envFile =
     (if envFile = '''' then Inr (snd (sh_dotenv sh None))
      else if envFile = ''none'' then Inr (sh_getenv sh)
      else (case sh_dotenv sh (Some envFile) of (Some e, _) \<Rightarrow> Inl e | (None, env) \<Rightarrow> Inr env))"

definition cli_options :: "cli_flags \<Rightarrow> envConfig \<Rightarrow> OptionsFunc list" where
  "cli_options fl cfg =
     (if fl_noColor fl \<or> ec_noColor cfg then [WithNoColor True] else []) @
     (if fl_allowMissing fl then [WithAllowMissing] else []) @ (if fl_noVersioning fl then [WithNoVersioning] else [])"

definition cli_table :: "cli_flags \<Rightarrow> envConfig \<Rightarrow> string" where
  "cli_table fl cfg = firstNonEmpty [fl_table fl, ec_table cfg, DefaultTablename]"

definition cli_dir :: "cli_flags \<Rightarrow> envConfig \<Rightarrow> string" where
  "cli_dir fl cfg = (if fl_dir fl = DefaultMigrationDir \<and> ec_dir cfg \<noteq> '''' then ec_dir cfg else fl_dir fl)"

text \<open>The commands that need a database.\<close>

definition run_on_database ::
    "'d shell \<Rightarrow> cli_flags \<Rightarrow> envConfig \<Rightarrow> string list \<Rightarrow> registry \<Rightarrow> os \<Rightarrow> (ending \<times> 'd cli_state) option" where
  "run_on_database sh fl cfg args reg sys =
     (let st = \<lparr>cl_os = sys, cl_reg = reg, cl_db = None\<rparr>
      in case args of
           driver # dbstring # command # arguments \<Rightarrow>
             (case normalizeDBString (sh_my sh) driver dbstring (fl_certfile fl) (fl_sslcert fl) (fl_sslkey fl) of
                Inl (what, e) \<Rightarrow> Some (Fatal what (Some e), st)
              | Inr str \<Rightarrow>
                  (case OpenDBWithDriver (sh_open sh) driver str (sh_store sh) of
                     (Inl e, _) \<Rightarrow> Some (Fatal (''-dbstring='' @ Quote dbstring) (Some e), st)
                   | (Inr c, None) \<Rightarrow> Some (Fatal ''panic'' (Some (Panic ''invalid memory address or nil pointer dereference'')), st)
                   | (Inr c, Some q) \<Rightarrow>
                       (case run (sh_unicode sh) (fl_sequential fl) (sh_now sh)
                               \<lparr>g_engine = k_engine c, g_querier = q, g_table = cli_table fl cfg, g_fs = os_fs sys, g_ext = sh_ext sh\<rparr>
                               command (cli_dir fl cfg) arguments (cli_options fl cfg) \<lparr>lw = k_world c, lreg = reg\<rparr> sys of
                          None \<Rightarrow> None
                        | Some (r, s, sys1) \<Rightarrow>
                            Some (case r of
                                    Some e \<Rightarrow> Fatal ''goose run'' (Some e)
                                  | None \<Rightarrow> (case k_close c of Some e \<Rightarrow> Fatal ''goose: failed to close DB'' (Some e) | None \<Rightarrow> Printed []),
                                  \<lparr>cl_os = sys1, cl_reg = lreg s, cl_db = Some (lw s)\<rparr>))))
         | _ \<Rightarrow> Some (Usage 1, st))"

definition dispatch ::
    "'d shell \<Rightarrow> cli_flags \<Rightarrow> envConfig \<Rightarrow> string list \<Rightarrow> registry \<Rightarrow> os \<Rightarrow> (ending \<times> 'd cli_state) option" where
  "dispatch sh fl cfg args reg sys =
     (let st = \<lparr>cl_os = sys, cl_reg = reg, cl_db = None\<rparr>; dir = cli_dir fl cfg; seq = fl_sequential fl; command = hd args
      in if command = ''init'' then Some (ended_with ''goose run'' (gooseInit (sh_unicode sh) seq (sh_now sh) dir sys reg))
         else if command = ''create''
         then Some (ended_with ''goose run'' (create_command (sh_unicode sh) seq (sh_now sh) dir (tl args) sys reg))
         else if command = ''fix'' then Some (ended_with ''goose run'' (Fix dir sys reg))
         else if command = ''env''
         then Some (Printed (map (\<lambda>(n, v). n @ ''='' @ Quote v) (listEnvs cfg)), st)
         else if command = ''validate''
         then
           Some (case printValidate (sh_ext sh) (sh_gp sh) sys dir (fl_verbose fl) of
                   Inl e \<Rightarrow> Fatal ''goose validate'' (Some e) | Inr rows \<Rightarrow> Printed (map (\<lambda>r. Join r [CHR 9]) rows), st)
         else if command = ''beta''
         then
           Some (if tl args = [] then Fatal ''goose beta: missing subcommand'' None
                 else if hd (tl args) = ''drivers'' then Printed (printDrivers (sh_iter sh) (sh_drivers sh))
                 else Printed [], st)
         else run_on_database sh fl cfg (mergeArgs cfg args) reg sys)"

definition main :: "'d shell \<Rightarrow> err + cli_flags \<times> string list \<Rightarrow> registry \<Rightarrow> os \<Rightarrow> (ending \<times> 'd cli_state) option" where
  "main sh parsed reg sys =
     (let st = \<lparr>cl_os = sys, cl_reg = reg, cl_db = None\<rparr>
      in case parsed of
           Inl e \<Rightarrow> Some (Fatal ''failed to parse args'' (Some e), st)
         | Inr (fl, args) \<Rightarrow>
             (if fl_version fl then Some (Printed [printed_version sh], st)
              else
                (case load_env sh (fl_env fl) of
                   Inl e \<Rightarrow> Some (Fatal ''failed to load env file'' (Some e), st)
                 | Inr env \<Rightarrow>
                     (if fl_help fl then Some (Usage 0, st)
                      else if args = [] then Some (Usage 1, st)
                      else dispatch sh fl (loadEnvConfig env) args reg sys))))"

end
