(* ===== verification/File_Claims.thy ===== *)
theory File_Claims
  imports Legacy_Files Migration_Stats
begin

text \<open>
  Properties of the operations on migration files: the names given to new files, the split into
  versioned and timestamped migrations, and \<open>Create\<close>.
\<close>

section \<open>Names\<close>

text \<open>The words of a name are its longest runs of letters and numbers.\<close>

function words :: "unicode \<Rightarrow> rune list \<Rightarrow> rune list list" where
  "words u [] = []"
| "words u (r # rs) =
     (if isAlphaNum u r then (r # takeWhile (isAlphaNum u) rs) # words u (dropWhile (isAlphaNum u) rs) else words u rs)"
  by pat_completeness auto
termination by (relation "measure (length \<circ> snd)") (auto simp: le_imp_less_Suc length_dropWhile_le)

definition capital :: "unicode \<Rightarrow> rune list \<Rightarrow> rune list" where
  "capital u w = (case w of [] \<Rightarrow> [] | r # rs \<Rightarrow> u_upper u r # map (u_lower u) rs)"

fun join_words :: "rune list list \<Rightarrow> rune list" where
  "join_words [] = []"
| "join_words [w] = w"
| "join_words (w # ws) = w @ [95] @ join_words ws"

definition one_delimiter_at_end :: "unicode \<Rightarrow> rune list \<Rightarrow> bool" where
  "one_delimiter_at_end u rs \<longleftrightarrow> 2 \<le> length rs \<and> \<not> isAlphaNum u (last rs) \<and> isAlphaNum u (last (butlast rs))"

lemma camel_delimiter: "camel_loop u Delimiter rs = camel_loop u CsIdle rs"
  by (cases rs) simp_all

lemma camel_in_word:
  "s \<in> {FirstAlphaNum, AlphaNum} \<Longrightarrow>
     camel_loop u s rs = map (u_lower u) (takeWhile (isAlphaNum u) rs) @ camel_loop u CsIdle (dropWhile (isAlphaNum u) rs)"
proof (induction rs arbitrary: s)
  case (Cons r rs)
  have "camel_loop u s (r # rs) = (if isAlphaNum u r then u_lower u r # camel_loop u AlphaNum rs else camel_loop u CsIdle rs)"
    using Cons.prems by (auto simp: camel_delimiter)
  then show ?case using Cons.IH [of AlphaNum] by simp
qed simp

lemma camel_words: "camel_loop u CsIdle rs = concat (map (capital u) (words u rs))"
  by (induction u rs rule: words.induct) (auto simp: camel_in_word capital_def)

text \<open>The underscores of \<open>snakeCase\<close>: one after each word that a delimiter follows.\<close>

function ended_words :: "unicode \<Rightarrow> rune list \<Rightarrow> rune list" where
  "ended_words u [] = []"
| "ended_words u (r # rs) =
     (if isAlphaNum u r
      then map (u_lower u) (r # takeWhile (isAlphaNum u) rs) @ (if dropWhile (isAlphaNum u) rs = [] then [] else [95]) @
        ended_words u (dropWhile (isAlphaNum u) rs)
      else ended_words u rs)"
  by pat_completeness auto
termination by (relation "measure (length \<circ> snd)") (auto simp: le_imp_less_Suc length_dropWhile_le)

lemma snake_delimiter: "rs \<noteq> [] \<Longrightarrow> snake_loop u Delimiter rs = snake_loop u CsIdle rs"
  by (cases rs) simp_all

lemma snake_delimiter_fst: "fst (snake_loop u Delimiter rs) = fst (snake_loop u CsIdle rs)"
  by (cases "rs = []") (simp_all add: snake_delimiter)

lemma snake_in_word:
  "s \<in> {FirstAlphaNum, AlphaNum} \<Longrightarrow>
     fst (snake_loop u s rs) = map (u_lower u) (takeWhile (isAlphaNum u) rs) @ (if dropWhile (isAlphaNum u) rs = [] then [] else [95]) @
       fst (snake_loop u CsIdle (dropWhile (isAlphaNum u) rs))"
proof (induction rs arbitrary: s)
  case (Cons r rs)
  have "fst (snake_loop u s (r # rs)) =
      (if isAlphaNum u r then u_lower u r # fst (snake_loop u AlphaNum rs) else 95 # fst (snake_loop u CsIdle rs))"
    using Cons.prems by (auto simp: snake_delimiter_fst case_prod_beta)
  moreover have "fst (snake_loop u CsIdle (r # rs)) = fst (snake_loop u CsIdle rs)" if "\<not> isAlphaNum u r"
    using that by (simp add: case_prod_beta)
  ultimately show ?case using Cons.IH [of AlphaNum] by (simp del: snake_loop.simps)
qed simp

lemma snake_ended: "fst (snake_loop u CsIdle rs) = ended_words u rs"
  by (induction u rs rule: words.induct) (auto simp: snake_in_word case_prod_beta)

lemma words_Nil: "words u rs = [] \<longleftrightarrow> (\<forall>r\<in>set rs. \<not> isAlphaNum u r)"
  by (induction u rs rule: words.induct) auto

lemma last_dropWhile_word: "dropWhile P rs \<noteq> [] \<Longrightarrow> last (dropWhile P rs) = last rs"
  by (metis last_appendR takeWhile_dropWhile_id)

lemma ended_words_joined:
  "ended_words u rs = join_words (map (map (u_lower u)) (words u rs)) @
     (if words u rs \<noteq> [] \<and> \<not> isAlphaNum u (last rs) then [95] else [])"
proof (induction u rs rule: words.induct)
  case (2 u r rs)
  let ?rest = "dropWhile (isAlphaNum u) rs" and ?w = "r # takeWhile (isAlphaNum u) rs"
  show ?case
  proof (cases "isAlphaNum u r")
    case True
    show ?thesis
    proof (cases "?rest = []")
      case True
      then have "\<forall>x\<in>set rs. isAlphaNum u x" by simp
      then have "isAlphaNum u (last (r # rs))" using \<open>isAlphaNum u r\<close> by (metis last_in_set list.distinct(1) set_ConsD)
      then show ?thesis using True \<open>isAlphaNum u r\<close> by (simp del: dropWhile_eq_Nil_conv)
    next
      case False
      then have "rs \<noteq> []" by auto
      then have l: "last (r # rs) = last ?rest" using False by (simp add: last_dropWhile_word)
      have "join_words (map (map (u_lower u)) (?w # words u ?rest)) =
          map (u_lower u) ?w @ (if words u ?rest = [] then [] else [95] @ join_words (map (map (u_lower u)) (words u ?rest)))"
        by (cases "words u ?rest") simp_all
      moreover have "\<not> isAlphaNum u (last ?rest)" if "words u ?rest = []" using that False by (simp add: words_Nil)
      ultimately show ?thesis using 2(1) [OF True] True False l by auto
    qed
  next
    case False
    then show ?thesis using 2(2) [OF False] by (cases rs) (auto simp: words_Nil)
  qed
qed simp

lemma snake_end: "snd (snake_loop u s rs) = foldl (cs_next u) s rs"
  by (induction rs arbitrary: s) (simp_all add: Let_def case_prod_beta)

lemma end_state:
  "foldl (cs_next u) CsIdle rs \<in>
     (if rs = [] then {CsIdle} else if isAlphaNum u (last rs) then {FirstAlphaNum, AlphaNum}
      else if one_delimiter_at_end u rs then {Delimiter} else {CsIdle})"
proof (induction rs rule: rev_induct)
  case (snoc r rs)
  show ?case
  proof (cases rs rule: rev_cases)
    case (snoc rs' q)
    then show ?thesis using \<open>foldl (cs_next u) CsIdle rs \<in> _\<close> by (auto simp: one_delimiter_at_end_def butlast_append split: if_splits)
  qed (simp add: one_delimiter_at_end_def)
qed simp

lemma snakeCase_words:
  "snakeCase u str = u_encode u (join_words (map (map (u_lower u)) (words u (u_decode u str))) @
     (if one_delimiter_at_end u (u_decode u str) then [95] else []))"
proof -
  let ?rs = "u_decode u str"
  obtain out st where o: "snake_loop u CsIdle ?rs = (out, st)" by fastforce
  have out: "out = ended_words u ?rs" using snake_ended [of u ?rs] o by simp
  have st: "st \<in> (if ?rs = [] then {CsIdle} else if isAlphaNum u (last ?rs) then {FirstAlphaNum, AlphaNum}
      else if one_delimiter_at_end u ?rs then {Delimiter} else {CsIdle})"
    using end_state [of u ?rs] snake_end [of u CsIdle ?rs] o by simp
  have w: "words u ?rs \<noteq> []" if "one_delimiter_at_end u ?rs"
  proof -
    have "length (butlast ?rs) \<noteq> 0" using that by (simp add: one_delimiter_at_end_def)
    then have "last (butlast ?rs) \<in> set (butlast ?rs)" by (intro last_in_set) (metis list.size(3))
    then show ?thesis using that by (auto simp: words_Nil one_delimiter_at_end_def dest: in_set_butlastD)
  qed
  have j: "words u ?rs = []" if "?rs = []" using that by simp
  have "(if st = CsIdle \<and> out \<noteq> [] \<and> last out = 95 then butlast out else out) =
      join_words (map (map (u_lower u)) (words u ?rs)) @ (if one_delimiter_at_end u ?rs then [95] else [])"
  proof (cases "?rs = [] \<or> isAlphaNum u (last ?rs)")
    case True
    then show ?thesis using st unfolding out ended_words_joined by (auto simp: one_delimiter_at_end_def split: if_splits)
  next
    case False
    then show ?thesis using st w unfolding out ended_words_joined by (auto split: if_splits)
  qed
  then show ?thesis using o by (simp add: snakeCase_def)
qed

text \<open>
  C33: the camel case of a name is its words, capitalised, and the snake case its words in lower case
  with an underscore between two words. Delimiters at the beginning leave nothing and several at the
  end leave nothing, but a single delimiter at the end leaves an underscore at the end.
\<close>

theorem names_from_words:
  "camelCase u str = u_encode u (concat (map (capital u) (words u (u_decode u str)))) \<and>
   snakeCase u str = u_encode u (join_words (map (map (u_lower u)) (words u (u_decode u str))) @
     (if one_delimiter_at_end u (u_decode u str) then [95] else []))"
  using snakeCase_words [of u str] by (simp add: camelCase_def camel_words)

section \<open>Versioned and timestamped migrations\<close>

lemma digits_val_None: "digits_val a s = None \<longleftrightarrow> digits_val b s = None"
proof (induction s arbitrary: a b)
  case (Cons c s)
  then show ?case by (cases "digit_val c") simp_all
qed simp

lemma digits_val_acc: "digits_val acc s = Some n \<Longrightarrow> \<exists>m. digits_val 0 s = Some m \<and> n = acc * 10 ^ length s + m"
proof (induction s arbitrary: acc n)
  case (Cons c s)
  then obtain d where d: "digit_val c = Some d" "digits_val (10 * acc + d) s = Some n" by (auto split: option.splits)
  from Cons.IH [OF d(2)] obtain m where m: "digits_val 0 s = Some m" "n = (10 * acc + d) * 10 ^ length s + m" by blast
  have "digits_val d s \<noteq> None" using m(1) digits_val_None [of d s 0] by simp
  then obtain k where k: "digits_val d s = Some k" by blast
  from Cons.IH [OF k] m(1) have "k = d * 10 ^ length s + m" by simp
  then show ?case using d(1) k m(2) by (simp add: algebra_simps)
qed simp

lemma digits_val_split:
  assumes "digits_val 0 s = Some n"
  shows "n = the (digits_val 0 (take k s)) * 10 ^ (length s - k) + the (digits_val 0 (drop k s))" and "digits_val 0 (drop k s) \<noteq> None"
proof -
  have "digits_val 0 (take k s @ drop k s) = Some n" using assms by simp
  then obtain a where a: "digits_val 0 (take k s) = Some a" "digits_val a (drop k s) = Some n"
    by (auto simp only: digits_val_append split: option.splits)
  from digits_val_acc [OF a(2)] a(1) show "n = the (digits_val 0 (take k s)) * 10 ^ (length s - k) + the (digits_val 0 (drop k s))"
    "digits_val 0 (drop k s) \<noteq> None" by auto
qed

lemma digits_val_part:
  assumes "digits_val 0 (drop a s) = Some n" and "b = a + k" and "length s = 14"
  shows "n = the (digits_val 0 (take k (drop a s))) * 10 ^ (14 - b) + the (digits_val 0 (drop b s))"
    and "digits_val 0 (drop b s) = Some (the (digits_val 0 (drop b s)))"
  using digits_val_split [OF assms(1), of k] assms(2,3) by (auto simp: ac_simps)

text \<open>The number a time stamp is.\<close>

definition stamp_number :: "nat \<times> nat \<times> nat \<times> nat \<times> nat \<times> nat \<Rightarrow> nat" where
  "stamp_number t = (case t of (y, mo, d, h, mi, se) \<Rightarrow>
     y * 10000000000 + mo * 100000000 + d * 1000000 + h * 10000 + mi * 100 + se)"

lemma time_Parse_number:
  assumes "time_Parse s = Some t" and "digits_val 0 s = Some n"
  shows "n = stamp_number t"
proof -
  let ?f = "\<lambda>a k. the (digits_val 0 (take k (drop a s)))"
  have l: "length s = 14" and t: "t = (?f 0 4, ?f 4 2, ?f 6 2, ?f 8 2, ?f 10 2, ?f 12 2)"
    using assms(1) by (auto simp: time_Parse_def Let_def split: if_splits)
  have n0: "digits_val 0 (drop 0 s) = Some n" using assms(2) by simp
  note p1 = digits_val_part [OF n0, of 4 4, simplified, OF l]
  note p2 = digits_val_part [OF p1(2), of 6 2, simplified, OF l]
  note p3 = digits_val_part [OF p2(2), of 8 2, simplified, OF l]
  note p4 = digits_val_part [OF p3(2), of 10 2, simplified, OF l]
  note p5 = digits_val_part [OF p4(2), of 12 2, simplified, OF l]
  have "take 2 (drop 12 s) = drop 12 s" using l by simp
  then show ?thesis using p1(1) p2(1) p3(1) p4(1) p5(1) by (simp add: t stamp_number_def)
qed

lemma time_Parse_fields:
  assumes "time_Parse s = Some t"
  shows "case t of (y, mo, d, h, mi, se) \<Rightarrow> 1 \<le> mo \<and> mo \<le> 12 \<and> 1 \<le> d \<and> d \<le> 31 \<and> h < 24 \<and> mi < 60 \<and> se < 60"
  using assms by (auto simp: time_Parse_def Let_def days_in_def split: if_splits)

lemma stamp_order:
  assumes "time_Parse s = Some t"
  shows "before_epoch t \<longleftrightarrow> stamp_number t < 19700101000000" and "after_epoch t \<longleftrightarrow> 19700101000000 < stamp_number t"
proof -
  obtain y mo d h mi se where t: "t = (y, mo, d, h, mi, se)" by (cases t) auto
  note f = time_Parse_fields [OF assms, unfolded t prod.case]
  show "before_epoch t \<longleftrightarrow> stamp_number t < 19700101000000" using f unfolding t before_epoch_def stamp_number_def by simp linarith
  show "after_epoch t \<longleftrightarrow> 19700101000000 < stamp_number t" using f unfolding t after_epoch_def stamp_number_def by simp linarith
qed

lemma time_Parse_version:
  assumes "time_Parse (FormatInt v) = Some t"
  shows "int (stamp_number t) = v"
proof (cases "v < 0")
  case True
  then show ?thesis using assms by (simp add: time_Parse_def FormatInt_def digit_val_def)
next
  case False
  then have "digits_val 0 (FormatInt v) = Some (nat v)" by (simp add: FormatInt_def digits_val_nat_digits)
  from time_Parse_number [OF assms this] False show ?thesis by simp
qed

lemma stamp_side:
  assumes "time_Parse (FormatInt v) = Some t"
  shows "before_epoch t \<longleftrightarrow> v < 19700101000000" and "after_epoch t \<longleftrightarrow> 19700101000000 < v"
proof -
  have "v = int (stamp_number t)" using time_Parse_version [OF assms] by simp
  moreover note stamp_order [OF assms]
  ultimately show "before_epoch t \<longleftrightarrow> v < 19700101000000" "after_epoch t \<longleftrightarrow> 19700101000000 < v" by linarith+
qed

lemma version_split:
  "(case time_Parse (FormatInt v) of None \<Rightarrow> True | Some t \<Rightarrow> before_epoch t) \<longleftrightarrow>
     time_Parse (FormatInt v) = None \<or> v < 19700101000000"
  "(case time_Parse (FormatInt v) of None \<Rightarrow> False | Some t \<Rightarrow> after_epoch t) \<longleftrightarrow>
     time_Parse (FormatInt v) \<noteq> None \<and> 19700101000000 < v"
  by (cases "time_Parse (FormatInt v)"; simp add: stamp_side)+

text \<open>
  The timestamped migrations are those whose version is a date and time after the epoch, as a
  number of 14 digits; the versioned migrations are the others, but for the version that is the first
  second of 1970, which is in neither list.
\<close>

lemma version_lists:
  "set (versioned ms) = {m \<in> set ms. time_Parse (FormatInt (Version m)) = None \<or> Version m < 19700101000000} \<and>
   set (timestamped ms) = {m \<in> set ms. time_Parse (FormatInt (Version m)) \<noteq> None \<and> 19700101000000 < Version m} \<and>
   set ms = set (versioned ms) \<union> set (timestamped ms) \<union> {m \<in> set ms. Version m = 19700101000000}"
proof -
  have v: "set (versioned ms) = {m \<in> set ms. time_Parse (FormatInt (Version m)) = None \<or> Version m < 19700101000000}"
    by (simp only: versioned_def version_split set_filter)
  have t: "set (timestamped ms) = {m \<in> set ms. time_Parse (FormatInt (Version m)) \<noteq> None \<and> 19700101000000 < Version m}"
    by (simp only: timestamped_def version_split set_filter)
  show ?thesis using v t by force
qed

section \<open>Create\<close>

text \<open>Of the tables of \<open>unicode\<close>: the lower case of letters and numbers, and underscores, are not encoded with a slash.\<close>

definition unicode_laws :: "unicode \<Rightarrow> bool" where
  "unicode_laws u \<longleftrightarrow> (\<forall>rs. (\<forall>r\<in>set rs. r = 95 \<or> (\<exists>q. isAlphaNum u q \<and> r = u_lower u q)) \<longrightarrow> slash \<notin> set (u_encode u rs))"

lemma words_chars: "w \<in> set (words u rs) \<Longrightarrow> r \<in> set w \<Longrightarrow> isAlphaNum u r"
  by (induction u rs rule: words.induct) (auto split: if_splits dest: set_takeWhileD)

lemma join_words_chars: "r \<in> set (join_words ws) \<Longrightarrow> r = 95 \<or> (\<exists>w\<in>set ws. r \<in> set w)"
  by (induction ws rule: join_words.induct) auto

lemma snakeCase_no_slash:
  assumes "unicode_laws u"
  shows "slash \<notin> set (snakeCase u name)"
proof -
  let ?ws = "words u (u_decode u name)"
  have "r = 95 \<or> (\<exists>q. isAlphaNum u q \<and> r = u_lower u q)"
    if "r \<in> set (join_words (map (map (u_lower u)) ?ws) @ (if one_delimiter_at_end u (u_decode u name) then [95] else []))" for r
    using that join_words_chars [of r "map (map (u_lower u)) ?ws"] words_chars [of _ u "u_decode u name"] by (auto split: if_splits)
  then show ?thesis using assms unfolding unicode_laws_def snakeCase_words by blast
qed

lemma template_parses:
  "ParseSQLMigration x (sqlMigrationTemplate, None) DirectionUp = Inr ([''SELECT '' @ sq @ ''up SQL query'' @ sq @ '';''], True)"
  "ParseSQLMigration x (sqlMigrationTemplate, None) DirectionDown = Inr ([''SELECT '' @ sq @ ''down SQL query'' @ sq @ '';''], True)"
  by code_simp+

text \<open>A number with zeros before it.\<close>

lemma digits_val_zeros: "digits_val 0 (replicate k (CHR ''0'') @ s) = digits_val 0 s"
  by (induction k) (auto simp: digit_val_def)

lemma ParseInt_zeros:
  assumes "0 \<le> v" and "v \<le> MaxInt64"
  shows "ParseInt (replicate k (CHR ''0'') @ FormatInt v) = Inr v"
proof (cases k)
  case 0
  then show ?thesis using ParseInt_FormatInt [of v] assms by (simp add: in_int64_def MinInt64_def)
next
  case (Suc j)
  have "digits_val 0 (replicate k (CHR ''0'') @ FormatInt v) = Some (nat v)"
    using assms(1) by (simp add: digits_val_zeros FormatInt_def digits_val_nat_digits)
  then have "parse_magnitude (replicate k (CHR ''0'') @ FormatInt v) = Some (nat v)" using Suc by (simp add: parse_magnitude_def)
  then show ?thesis using Suc assms by (simp add: ParseInt_def in_int64_def MinInt64_def)
qed

lemma seqVersion_zeros: "0 \<le> v \<Longrightarrow> \<exists>k. seqVersion v = replicate k (CHR ''0'') @ FormatInt v"
  by (auto simp: seqVersion_def FormatInt_def)

lemma NumericComponent_padded:
  assumes "1 \<le> v" and "v \<le> MaxInt64" and "ver = replicate k (CHR ''0'') @ FormatInt v" and "slash \<notin> set name" and "d = [] \<or> last d = slash"
  shows "NumericComponent (d @ ver @ ''_'' @ name @ ''.sql'') = Inr v" and "Base (d @ ver @ ''_'' @ name @ ''.sql'') = ver @ ''_'' @ name @ ''.sql''"
proof -
  let ?b = "ver @ ''_'' @ name @ ''.sql''"
  have f: "CHR ''_'' \<notin> set ver" "slash \<notin> set ver" using assms(3) FormatInt_free by (auto simp: slash_def)
  show b: "Base (d @ ?b) = ?b" using assms(4,5) f by (intro Base_in_dir) (auto simp: slash_def)
  have e: "Ext ?b = ''.sql''" using Ext_sql_go(1) [of "ver @ ''_'' @ name"] by simp
  have c: "Cut ?b (CHR ''_'') = Some (ver, name @ ''.sql'')" using f(1) Cut_append by simp
  have p: "ParseInt ver = Inr v" unfolding assms(3) using assms(1,2) by (intro ParseInt_zeros) simp_all
  show "NumericComponent (d @ ?b) = Inr v" using assms(1) unfolding NumericComponent_def b Let_def e c by (simp add: p)
qed

definition dir_prefix :: "path \<Rightarrow> path" where
  "dir_prefix dir = (if dir = '''' \<or> dir = ''.'' then [] else if dir = [slash] then [slash] else dir @ [slash])"

lemma path_Join_dir: "path_Join dir name = dir_prefix dir @ name" "dir_prefix dir = [] \<or> last (dir_prefix dir) = slash"
  by (simp_all add: path_Join_def dir_prefix_def)

text \<open>The migrations \<open>Create\<close> finds, none when there are no files.\<close>

definition known_migrations :: "os \<Rightarrow> path \<Rightarrow> registry \<Rightarrow> Migration list" where
  "known_migrations sys dir reg =
     (case fst (collectMigrationsFS (os_fs sys) dir minVersion maxVersion reg) of Inr ms \<Rightarrow> ms | Inl _ \<Rightarrow> [])"

lemma next_version_after:
  assumes "sorted_wrt (<) (map Version ms)" and "\<forall>m\<in>set ms. 1 \<le> Version m \<and> Version m < MaxInt64"
  shows "1 \<le> next_version ms \<and> next_version ms \<le> MaxInt64 \<and> (\<forall>m\<in>set (versioned ms). Version m < next_version ms)"
proof (cases "versioned ms = []")
  case False
  let ?l = "last (versioned ms)"
  have l: "?l \<in> set ms" using last_in_set [OF False] by (simp add: versioned_def)
  have w: "wrap64 (Version ?l + 1) = Version ?l + 1"
    using assms(2) l by (intro wrap64_id) (auto simp: in_int64_def MinInt64_def)
  have "sorted_wrt (<) (map Version (versioned ms))"
    using assms(1) unfolding versioned_def sorted_wrt_map by (rule sorted_wrt_filter)
  then have "Version m \<le> Version ?l" if "m \<in> set (versioned ms)" for m
    using that False by (cases "versioned ms" rule: rev_cases) (auto simp: sorted_wrt_append)
  then show ?thesis using False w assms(2) l by (fastforce simp: next_version_def Last_def)
qed (simp add: next_version_def Last_def MaxInt64_def)

lemma known_migrations_sorted:
  assumes "registry_named reg"
  shows "sorted_wrt (<) (map Version (known_migrations sys dir reg)) \<and> (\<forall>m\<in>set (known_migrations sys dir reg). 1 \<le> Version m)"
proof (cases "collectMigrationsFS (os_fs sys) dir minVersion maxVersion reg")
  case (Pair r reg1)
  show ?thesis
  proof (cases r)
    case (Inr ms)
    note c = Pair [unfolded Inr]
    have "1 \<le> Version m" if "m \<in> set ms" for m
      using collect_range [OF assms c that] by (auto simp: versionFilter_def minVersion_def maxVersion_def split: if_splits)
    then show ?thesis using collectMigrationsFS_versions [OF assms c] c by (simp add: known_migrations_def)
  qed (simp add: known_migrations_def Pair)
qed

lemma created_version:
  assumes "create_version sys sequential now dir reg = (Inr ver, reg1)" and "registry_named reg"
    and "sequential \<or> (now = FormatInt stamp \<and> 1 \<le> stamp \<and> stamp \<le> MaxInt64)"
    and "sequential \<longrightarrow> (\<forall>m\<in>set (known_migrations sys dir reg). Version m < MaxInt64)"
  shows "\<exists>k v. ver = replicate k (CHR ''0'') @ FormatInt v \<and> 1 \<le> v \<and> v \<le> MaxInt64 \<and>
     (sequential \<longrightarrow> (\<forall>m\<in>set (versioned (known_migrations sys dir reg)). Version m < v))"
proof (cases sequential)
  case True
  let ?ms = "known_migrations sys dir reg"
  have ver: "ver = seqVersion (next_version ?ms)"
    using assms(1) True by (auto simp: create_version_def known_migrations_def split: prod.splits sum.splits if_splits)
  have n: "1 \<le> next_version ?ms \<and> next_version ?ms \<le> MaxInt64 \<and> (\<forall>m\<in>set (versioned ?ms). Version m < next_version ?ms)"
    using known_migrations_sorted [OF assms(2)] assms(4) True by (intro next_version_after) auto
  then show ?thesis using ver seqVersion_zeros [of "next_version ?ms"] by force
next
  case False
  then have "ver = FormatInt stamp" using assms(1,3) by (auto simp: create_version_def)
  then show ?thesis using False assms(3) by (intro exI [of _ 0] exI [of _ stamp]) simp
qed

lemma CreateWithTemplate_file:
  assumes "unicode_laws u" and "registry_named reg"
    and "CreateWithTemplate u sequential now dir tmpl name ''sql'' sys reg = (None, sys', reg')"
    and "sequential \<or> (now = FormatInt stamp \<and> 1 \<le> stamp \<and> stamp \<le> MaxInt64)"
    and "sequential \<longrightarrow> (\<forall>m\<in>set (known_migrations sys dir reg). Version m < MaxInt64)"
  shows "\<exists>base v ver g. f_close g = None \<and> f_reader g = (case tmpl of None \<Rightarrow> sqlMigrationTemplate | Some t \<Rightarrow> fst (t ver (camelCase u name)), None) \<and>
     \<not> os_exists sys (path_Join dir base) \<and> Base (path_Join dir base) = base \<and> HasSuffix base ''.sql'' \<and>
     os_fs sys' = (os_fs sys)\<lparr>b_files := b_files (os_fs sys) @ [(path_Join dir base, Inr g)]\<rparr> \<and>
     fs_Open (b_files (os_fs sys')) (path_Join dir base) = Inr g \<and> NumericComponent (path_Join dir base) = Inr v \<and>
     (sequential \<longrightarrow> (\<forall>m\<in>set (versioned (known_migrations sys dir reg)). Version m < v))"
proof -
  obtain ver reg1 where ver: "create_version sys sequential now dir reg = (Inr ver, reg1)"
    using assms(3) by (auto simp: CreateWithTemplate_def split: prod.splits sum.splits)
  let ?b = "ver @ ''_'' @ snakeCase u name @ ''.sql''" and ?text = "case tmpl of None \<Rightarrow> sqlMigrationTemplate | Some t \<Rightarrow> fst (t ver (camelCase u name))"
  let ?f = "path_Join dir ?b" and ?g = "\<lparr>f_reader = (?text, None), f_close = None\<rparr>"
  have n: "\<not> os_exists sys ?f" and w: "sys' = os_write sys ?f ?text"
    using assms(3) ver by (auto simp: CreateWithTemplate_def Let_def split: if_splits option.splits)
  from created_version [OF ver assms(2,4,5)] obtain k v where v: "ver = replicate k (CHR ''0'') @ FormatInt v" "1 \<le> v" "v \<le> MaxInt64"
    "sequential \<longrightarrow> (\<forall>m\<in>set (versioned (known_migrations sys dir reg)). Version m < v)" by blast
  have p: "NumericComponent ?f = Inr v" "Base ?f = ?b"
    unfolding path_Join_dir(1) using NumericComponent_padded [OF v(2,3,1) snakeCase_no_slash [OF assms(1)] path_Join_dir(2)] by blast+
  have files: "os_fs sys' = (os_fs sys)\<lparr>b_files := b_files (os_fs sys) @ [(?f, Inr ?g)]\<rparr>" by (simp add: w os_write_def)
  have o: "fs_Open (b_files (os_fs sys')) ?f = Inr ?g"
    using n by (simp add: files fs_Open_def os_exists_def map_add_def)
  have "HasSuffix ?b ''.sql''" by (simp add: HasSuffix_iff suffix_def)
  moreover have "f_close ?g = None" "f_reader ?g = (?text, None)" by simp_all
  ultimately show ?thesis using n files o p v(4) by blast
qed

lemma file_parsed:
  assumes "append_laws x" and "wait_laws x" and "fs_Open fsys f = Inr g" and "f_close g = None"
    and "ParseSQLMigration x (f_reader g) DirectionUp = Inr (us, t)" and "ParseSQLMigration x (f_reader g) DirectionDown = Inr (ds, t)"
  shows "ParseAllFromFS x fsys f = Inr \<lparr>P_UseTx = t, P_Up = us, P_Down = ds\<rparr>"
  unfolding ParseAllFromFS_parts [OF assms(2)] using assms(5,6) by (simp add: parse_closed [OF assms(1,3,4)])

text \<open>
  C12: a successful \<open>Create\<close> of a SQL migration adds one new file and changes no other. The file is among
  those collected from the directory, it has the version of its name (the time stamp, or a number
  greater than every versioned migration), and it parses, to one statement in each direction. The
  version wraps around only after a migration with the greatest version of all.
\<close>

theorem Create_roundtrip:
  assumes "unicode_laws u" and "append_laws x" and "wait_laws x" and "registry_named reg"
    and "Create u sequential now dir name ''sql'' sys reg = (None, sys', reg')"
    and "sequential \<or> (now = FormatInt stamp \<and> 1 \<le> stamp \<and> stamp \<le> MaxInt64)"
    and "\<forall>m\<in>set (known_migrations sys dir reg). Version m < MaxInt64"
  shows "\<exists>f v. \<not> os_exists sys f \<and>
     b_files (os_fs sys') = b_files (os_fs sys) @ [(f, Inr \<lparr>f_reader = (sqlMigrationTemplate, None), f_close = None\<rparr>)] \<and>
     f \<in> set (Glob_dir (b_files (os_fs sys')) dir ''.sql'') \<and> NumericComponent f = Inr v \<and>
     (sequential \<longrightarrow> (\<forall>m\<in>set (versioned (known_migrations sys dir reg)). Version m < v)) \<and>
     ParseAllFromFS x (b_files (os_fs sys')) f =
       Inr \<lparr>P_UseTx = True, P_Up = [''SELECT '' @ sq @ ''up SQL query'' @ sq @ '';''], P_Down = [''SELECT '' @ sq @ ''down SQL query'' @ sq @ '';'']\<rparr>"
proof -
  obtain base v g where g: "f_close g = None" "f_reader g = (sqlMigrationTemplate, None)" "\<not> os_exists sys (path_Join dir base)"
    "Base (path_Join dir base) = base" "HasSuffix base ''.sql''"
    "b_files (os_fs sys') = b_files (os_fs sys) @ [(path_Join dir base, Inr g)]"
    "fs_Open (b_files (os_fs sys')) (path_Join dir base) = Inr g" "NumericComponent (path_Join dir base) = Inr v"
    "sequential \<longrightarrow> (\<forall>m\<in>set (versioned (known_migrations sys dir reg)). Version m < v)"
    using CreateWithTemplate_file [OF assms(1,4) assms(5) [unfolded Create_def] assms(6)] assms(7) by fastforce
  have "path_Join dir base \<in> set (Glob_dir (b_files (os_fs sys')) dir ''.sql'')" using g(4-6) by (simp add: Glob_dir_def)
  moreover have "g = \<lparr>f_reader = (sqlMigrationTemplate, None), f_close = None\<rparr>" using g(1,2) by simp
  moreover note file_parsed [OF assms(2,3) g(7,1), unfolded g(2), OF template_parses]
  ultimately show ?thesis using g(3,6,8,9) by blast
qed

section \<open>Instances\<close>

text \<open>The ASCII letters and digits.\<close>

definition ascii :: unicode where
  "ascii = \<lparr>u_decode = map of_char, u_encode = map char_of, u_letter = (\<lambda>r. 65 \<le> r \<and> r \<le> 90 \<or> 97 \<le> r \<and> r \<le> 122),
     u_number = (\<lambda>r. 48 \<le> r \<and> r \<le> 57), u_lower = (\<lambda>r. if 65 \<le> r \<and> r \<le> 90 then r + 32 else r),
     u_upper = (\<lambda>r. if 97 \<le> r \<and> r \<le> 122 then r - 32 else r)\<rparr>"

lemma ascii_laws: "unicode_laws ascii"
proof -
  have "slash \<notin> char_of ` set rs" if h: "\<forall>r\<in>set rs. r = 95 \<or> (\<exists>q. isAlphaNum ascii q \<and> r = u_lower ascii q)" for rs
  proof
    assume "slash \<in> char_of ` set rs"
    then obtain r where r: "r \<in> set rs" "slash = char_of r" by blast
    have "r = 95 \<or> (\<exists>q. isAlphaNum ascii q \<and> r = u_lower ascii q)" using h r(1) by blast
    then have "r < 128 \<and> r \<noteq> 47" by (auto simp: isAlphaNum_def ascii_def split: if_splits)
    moreover have "of_char slash = r mod 256" unfolding r(2) by (simp add: of_char_of)
    moreover have "of_char slash = (47::nat)" by (simp add: slash_def)
    ultimately show False by simp
  qed
  then show ?thesis by (simp add: unicode_laws_def ascii_def)
qed

definition ref_os :: "path list \<Rightarrow> os" where
  "ref_os fs = \<lparr>os_fs = \<lparr>b_files = map (\<lambda>f. (f, Inr \<lparr>f_reader = (f, None), f_close = None\<rparr>)) fs, b_stat = (\<lambda>_. None)\<rparr>, os_fail = (\<lambda>_. None)\<rparr>"

theorem Create_roundtrip_witness:
  "\<exists>f v. NumericComponent f = Inr v \<and> 7 < v \<and>
     f \<in> set (Glob_dir (b_files (os_fs (fst (snd (Create ascii True '''' ''db'' ''Add users!'' ''sql'' (ref_os [''db/00007_a.sql'']) []))))) ''db'' ''.sql'')"
proof -
  let ?sys = "ref_os [''db/00007_a.sql'']"
  have k: "map Version (known_migrations ?sys ''db'' []) = [7]" "map Version (versioned (known_migrations ?sys ''db'' [])) = [7]" by code_simp+
  obtain m where m: "m \<in> set (versioned (known_migrations ?sys ''db'' []))" "Version m = 7"
    using k(2) by (cases "versioned (known_migrations ?sys ''db'' [])") auto
  have c: "fst (Create ascii True '''' ''db'' ''Add users!'' ''sql'' ?sys []) = None" by code_simp
  obtain sys' reg' where s: "Create ascii True '''' ''db'' ''Add users!'' ''sql'' ?sys [] = (None, sys', reg')"
    using c by (metis prod.collapse)
  have "Version x = 7" if "x \<in> set (known_migrations ?sys ''db'' [])" for x
  proof -
    have "Version x \<in> set (map Version (known_migrations ?sys ''db'' []))" using that by simp
    then show ?thesis unfolding k(1) by simp
  qed
  then have "\<forall>x\<in>set (known_migrations ?sys ''db'' []). Version x < MaxInt64" by (simp add: MaxInt64_def)
  from Create_roundtrip [OF ascii_laws ref_ext_laws _ s _ this, of 1] m s show ?thesis
    by (fastforce simp: registry_named_def)
qed

end
