(* ===== verification/Fix_Claims.thy ===== *)
theory Fix_Claims
  imports File_Claims
begin

text \<open>
  \<open>Fix\<close>: which files it renames, to which names, and what stays. Files are SQL or Go files whose name
  has a version, in any of the forms \<open>NumericComponent\<close> reads.
\<close>

section \<open>Numbers in names\<close>

lemma digit_val_Some: "digit_val c = Some d \<Longrightarrow> d < 10 \<and> c = digit_char d"
  by (auto simp: digit_val_def digit_char_def Let_def split: if_splits)

lemma zero_char: "digit_char 0 = CHR ''0''"
  by code_simp

lemma digits_val_0: "digits_val 0 s = Some 0 \<Longrightarrow> s = replicate (length s) (CHR ''0'')"
proof (induction s)
  case (Cons c s)
  obtain d where d: "digit_val c = Some d" "digits_val d s = Some 0" using Cons.prems by (auto split: option.splits)
  have ge: "digits_val a t = Some n \<Longrightarrow> a \<le> n" for a t n
    by (induction t arbitrary: a) (auto split: option.splits, fastforce)
  have "d = 0" using ge [OF d(2)] by simp
  then show ?case using Cons.IH d digit_val_Some [OF d(1)] by (simp add: zero_char)
qed simp

lemma digits_val_inverse: "digits_val 0 s = Some n \<Longrightarrow> 1 \<le> n \<Longrightarrow> \<exists>k. s = replicate k (CHR ''0'') @ nat_digits n"
proof (induction s arbitrary: n rule: rev_induct)
  case (snoc c s)
  obtain a d where a: "digits_val 0 s = Some a" and d: "digit_val c = Some d" and n: "n = 10 * a + d"
    using snoc.prems(1) by (auto simp: digits_val_append split: option.splits)
  have c: "d < 10" "c = digit_char d" using digit_val_Some [OF d] by auto
  show ?case
  proof (cases "a = 0")
    case True
    then show ?thesis using digits_val_0 [of s] a c n by (intro exI [of _ "length s"]) (simp add: nat_digits.simps [of d])
  next
    case False
    then obtain k where "s = replicate k (CHR ''0'') @ nat_digits a" using snoc.IH [OF a] by auto
    moreover have "nat_digits n = nat_digits a @ [digit_char d]" using False c(1) n by (simp add: nat_digits.simps [of "10 * a + d"])
    ultimately show ?thesis using c(2) by auto
  qed
qed simp

lemma nat_digits_hd: "1 \<le> n \<Longrightarrow> hd (nat_digits n) \<noteq> CHR ''0'' \<and> hd (nat_digits n) \<noteq> CHR ''+''"
proof (induction n rule: nat_digits.induct)
  case (1 n)
  show ?case
  proof (cases "n < 10")
    case True
    then have "hd (nat_digits n) = digit_char n" "digit_val (digit_char n) = Some n" by (simp_all add: nat_digits.simps [of n])
    moreover have "digit_val (CHR ''0'') = Some 0" "digit_val (CHR ''+'') = None" by (simp_all add: digit_val_def)
    ultimately show ?thesis using 1(2) by (metis not_one_le_zero option.inject option.distinct(1))
  next
    case False
    then have "hd (nat_digits n) = hd (nat_digits (n div 10))" by (simp add: nat_digits.simps [of n])
    then show ?thesis using 1(1) False by simp
  qed
qed

text \<open>What may stand before the digits of a positive number.\<close>

definition number_prefix :: "string \<Rightarrow> bool" where
  "number_prefix z \<longleftrightarrow> (\<exists>k. z = replicate k (CHR ''0'') \<or> z = CHR ''+'' # replicate k (CHR ''0''))"

lemma ParseInt_inverse:
  assumes "ParseInt s = Inr v" and "1 \<le> v"
  obtains z where "number_prefix z" "s = z @ FormatInt v"
proof -
  obtain body where b: "digits_val 0 body = Some (nat v)" "s = body \<or> s = CHR ''+'' # body"
  proof (cases s)
    case (Cons c t)
    have "digits_val 0 (if c = CHR ''+'' then t else s) = Some (nat v)"
      using assms Cons by (auto simp: ParseInt_def parse_magnitude_def Let_def split: if_splits option.splits)
    then show thesis using Cons by (intro that [of "if c = CHR ''+'' then t else s"]) auto
  qed (use assms in \<open>simp add: ParseInt_def parse_magnitude_def\<close>)
  have "1 \<le> nat v" using assms(2) by simp
  from digits_val_inverse [OF b(1) this] assms(2) obtain k where "body = replicate k (CHR ''0'') @ FormatInt v"
    by (auto simp: FormatInt_def)
  with b(2) show thesis by (intro that [of "take (length s - length (FormatInt v)) s"]) (auto simp: number_prefix_def)
qed

lemma ParseInt_prefixed:
  assumes "number_prefix z" and "0 \<le> v" and "v \<le> MaxInt64"
  shows "ParseInt (z @ replicate j (CHR ''0'') @ FormatInt v) = Inr v"
proof -
  obtain k where "z = replicate k (CHR ''0'') \<or> z = CHR ''+'' # replicate k (CHR ''0'')" using assms(1) by (auto simp: number_prefix_def)
  then show ?thesis
  proof
    assume "z = replicate k (CHR ''0'')"
    then show ?thesis using ParseInt_zeros [OF assms(2,3), of "k + j"] by (simp add: replicate_add)
  next
    assume z: "z = CHR ''+'' # replicate k (CHR ''0'')"
    have "digits_val 0 (replicate k (CHR ''0'') @ replicate j (CHR ''0'') @ FormatInt v) = Some (nat v)"
      using assms(2) by (simp add: digits_val_zeros FormatInt_def digits_val_nat_digits)
    then show ?thesis using z assms(2,3) by (simp add: ParseInt_def parse_magnitude_def FormatInt_def in_int64_def MinInt64_def)
  qed
qed

lemma number_prefix_free: "number_prefix z \<Longrightarrow> CHR ''_'' \<notin> set z \<and> slash \<notin> set z"
  by (auto simp: number_prefix_def slash_def)

lemma number_prefix_first: "number_prefix z \<Longrightarrow> 1 \<le> v \<Longrightarrow> hd (FormatInt v) \<notin> set z"
  using nat_digits_hd [of "nat v"] by (auto simp: number_prefix_def FormatInt_def)


section \<open>Names of migration files\<close>

lemma Base_slash:
  assumes "HasSuffix (Base f) e" and "slash \<notin> set e" and "e \<noteq> []"
  shows "slash \<notin> set (Base f)"
proof -
  have "Base f \<noteq> [slash]" using assms by (auto simp: HasSuffix_iff suffix_def Cons_eq_append_conv)
  then show ?thesis by (auto simp: Base_def Let_def slash_def dest: set_takeWhileD split: if_splits)
qed

lemma tail_after: "b @ c # a = y @ e \<Longrightarrow> c \<notin> set e \<Longrightarrow> \<exists>x. a = x @ e"
  by (auto simp: append_eq_append_conv2 Cons_eq_append_conv)

text \<open>The name of a file with a version, around the digits of the version.\<close>

lemma named_parts:
  assumes "NumericComponent f = Inr v" and "slash \<notin> set (Base f)"
  obtains z x e where "number_prefix z" "Base f = z @ FormatInt v @ ''_'' @ x @ e" "e \<in> {''.sql'', ''.go''}" "Ext (Base f) = e"
proof -
  obtain before after where c: "Cut (Base f) (CHR ''_'') = Some (before, after)" "ParseInt before = Inr v" "1 \<le> v"
    and e: "Ext (Base f) \<in> {''.sql'', ''.go''}"
    using assms(1) by (auto simp: NumericComponent_def Let_def split: if_splits option.splits sum.splits)
  obtain z where z: "number_prefix z" "before = z @ FormatInt v" using ParseInt_inverse [OF c(2,3)] by blast
  have b: "Base f = before @ CHR ''_'' # after" using Cut_Some [OF c(1)] by blast
  have "HasSuffix (Base f) (Ext (Base f))" using Ext_suffix [of "Base f"] e by auto
  then obtain y where y: "before @ CHR ''_'' # after = y @ Ext (Base f)" using b by (auto simp: HasSuffix_iff suffix_def)
  have "CHR ''_'' \<notin> set (Ext (Base f))" using e by auto
  then obtain x where "after = x @ Ext (Base f)" using tail_after [OF y] by blast
  then show thesis using that z b e by auto
qed

lemma renumbered:
  assumes "number_prefix z" and "ver = replicate j (CHR ''0'') @ FormatInt w" and "1 \<le> w" and "w \<le> MaxInt64"
    and "slash \<notin> set x" and "e \<in> {''.sql'', ''.go''}" and "d = [] \<or> last d = slash"
  shows "NumericComponent (d @ z @ ver @ ''_'' @ x @ e) = Inr w" and "Base (d @ z @ ver @ ''_'' @ x @ e) = z @ ver @ ''_'' @ x @ e"
proof -
  let ?b = "z @ ver @ ''_'' @ x @ e"
  have f: "CHR ''_'' \<notin> set (z @ ver)" "slash \<notin> set (z @ ver)" using assms(2) number_prefix_free [OF assms(1)] FormatInt_free by (auto simp: slash_def)
  show b: "Base (d @ ?b) = ?b" using assms(5,6,7) f by (intro Base_in_dir) (auto simp: slash_def)
  have e: "Ext ?b = e" using Ext_sql_go [of "z @ ver @ ''_'' @ x"] assms(6) by auto
  have c: "Cut ?b (CHR ''_'') = Some (z @ ver, x @ e)" using f(1) Cut_append [of "CHR ''_''" "z @ ver" "x @ e"] by simp
  have p: "ParseInt (z @ ver) = Inr w" unfolding assms(2) using assms(1,3,4) by (intro ParseInt_prefixed) simp_all
  show "NumericComponent (d @ ?b) = Inr w" using assms(3,6) unfolding NumericComponent_def b Let_def e c by (auto simp: p)
qed

text \<open>A change of the text before the last underscore does not make a Go test of a file.\<close>

lemma test_suffix: "HasSuffix (p @ CHR ''_'' # s) ''_test.go'' \<longleftrightarrow> HasSuffix (CHR ''_'' # s) ''_test.go''"
proof
  assume "HasSuffix (p @ CHR ''_'' # s) ''_test.go''"
  then obtain y where y: "p @ CHR ''_'' # s = y @ ''_test.go''" by (auto simp: HasSuffix_iff suffix_def)
  show "HasSuffix (CHR ''_'' # s) ''_test.go''"
  proof (cases "length p \<le> length y")
    case True
    then obtain u where "y = p @ u" using y by (metis append_eq_append_conv_if append_take_drop_id)
    then show ?thesis using y by (simp add: HasSuffix_iff suffix_def)
  next
    case False
    then obtain u where u: "p = y @ u" "u \<noteq> []" using y
      by (metis append_eq_append_conv_if append_take_drop_id append_Nil2 nat_le_linear order_refl)
    then have "u @ CHR ''_'' # s = ''_test.go''" using y by simp
    then show ?thesis using u(2) by (auto simp: append_eq_Cons_conv)
  qed
next
  assume "HasSuffix (CHR ''_'' # s) ''_test.go''"
  then show "HasSuffix (p @ CHR ''_'' # s) ''_test.go''" by (auto simp: HasSuffix_iff suffix_def)
qed

section \<open>Replacing the version\<close>

lemma Replace1_after:
  assumes "old \<noteq> []" and "slash \<notin> set old" and "\<not> Contains d old" and "d = [] \<or> last d = slash"
  shows "Replace1 (d @ s) old new = d @ Replace1 s old new"
  using assms(3,4)
proof (induction d)
  case (Cons c d)
  have n: "\<not> HasPrefix ((c # d) @ s) old"
  proof
    assume "HasPrefix ((c # d) @ s) old"
    then obtain r where r: "(c # d) @ s = old @ r" by (auto simp: HasPrefix_iff prefix_def)
    show False
    proof (cases "length old \<le> length (c # d)")
      case True
      then have "prefix old (c # d)" using r by (metis append_eq_append_conv_if prefix_def append_take_drop_id)
      then have "HasPrefix (c # d) old" by (simp add: HasPrefix_iff)
      then show False using Cons.prems(1) by simp
    next
      case False
      then have "prefix (c # d) old" using r by (metis append_eq_append_conv_if nat_le_linear prefix_def append_take_drop_id)
      then have "last (c # d) \<in> set old" by (metis last_in_set list.distinct(1) set_mono_prefix subsetD)
      then show False using Cons.prems(2) assms(2) by simp
    qed
  qed
  have "d = [] \<or> last d = slash" using Cons.prems(2) by (auto split: if_splits)
  moreover have "\<not> Contains d old" using Cons.prems(1) by auto
  ultimately show ?case using Cons.IH n by simp
qed simp

lemma Replace1_first:
  assumes "old \<noteq> []" and "hd old \<notin> set z"
  shows "Replace1 (z @ old @ rest) old new = z @ new @ rest"
  using assms(2)
proof (induction z)
  case Nil
  obtain c s where "old = c # s" using assms(1) by (cases old) auto
  moreover have "HasPrefix (old @ rest) old" by simp
  ultimately show ?case by simp
next
  case (Cons c z)
  then have "\<not> HasPrefix ((c # z) @ old @ rest) old" using assms(1) by (cases old) auto
  then show ?case using Cons by simp
qed

text \<open>What a renaming does to the files.\<close>

lemma map_of_renamed:
  assumes "new \<noteq> old"
  shows "map_of (map (\<lambda>(f, c). (if f = old then new else f, c)) (filter (\<lambda>(f, c). f \<noteq> new) F)) g =
     (if g = old then None else if g = new then map_of F old else map_of F g)"
proof (induction F)
  case (Cons a F)
  obtain f c where "a = (f, c)" by fastforce
  then show ?case using Cons assms by (cases "f = old"; cases "f = new"; cases "g = old"; cases "g = new"; simp)
qed simp

abbreviation os_file :: "os \<Rightarrow> path \<Rightarrow> (err + go_file) option" where
  "os_file sys \<equiv> map_of (b_files (os_fs sys))"

lemma Rename_file:
  assumes "os_Rename old new sys = (None, sys')" and "\<not> os_exists sys new"
  shows "os_exists sys old" and "os_file sys' = (os_file sys)(new := os_file sys old, old := None)" and "os_fail sys' = os_fail sys"
proof -
  have old: "os_exists sys old" using assms(1) by (auto simp: os_Rename_def split: option.splits if_splits)
  then have ne: "new \<noteq> old" using assms(2) by auto
  then have sys': "sys' = sys\<lparr>os_fs := (os_fs sys)\<lparr>b_files :=
      map (\<lambda>(f, c). (if f = old then new else f, c)) (filter (\<lambda>(f, c). f \<noteq> new) (b_files (os_fs sys)))\<rparr>\<rparr>"
    using assms(1) by (auto simp: os_Rename_def split: option.splits if_splits)
  show "os_exists sys old" by (rule old)
  show "os_file sys' = (os_file sys)(new := os_file sys old, old := None)" by (rule ext) (simp add: sys' map_of_renamed [OF ne])
  show "os_fail sys' = os_fail sys" by (simp add: sys')
qed

text \<open>The new paths of a list of migrations, numbered from a version.\<close>

fun fixed_paths :: "Migration list \<Rightarrow> version \<Rightarrow> path list" where
  "fixed_paths [] version = []"
| "fixed_paths (m # ms) version = fixed_path m version # fixed_paths ms (wrap64 (version + 1))"

lemma fix_loop_files:
  assumes "fix_loop ms version sys = (None, sys')" and "distinct (map MSourcePath ms)" and "distinct (fixed_paths ms version)"
    and "\<forall>f\<in>set (fixed_paths ms version). \<not> os_exists sys f" and "\<forall>m\<in>set ms. os_exists sys (MSourcePath m)"
  shows "list_all2 (\<lambda>m f. os_file sys' f = os_file sys (MSourcePath m)) ms (fixed_paths ms version) \<and>
     (\<forall>f. f \<notin> set (fixed_paths ms version) \<and> f \<notin> MSourcePath ` set ms \<longrightarrow> os_file sys' f = os_file sys f) \<and>
     (\<forall>f\<in>MSourcePath ` set ms. os_file sys' f = None)"
  using assms
proof (induction ms arbitrary: version sys)
  case (Cons m ms)
  let ?old = "MSourcePath m" and ?new = "fixed_path m version" and ?rest = "fixed_paths ms (wrap64 (version + 1))"
  obtain sys1 where s1: "os_Rename ?old ?new sys = (None, sys1)" and l: "fix_loop ms (wrap64 (version + 1)) sys1 = (None, sys')"
    using Cons.prems(1) by (auto split: prod.splits option.splits)
  have nn: "\<not> os_exists sys ?new" using Cons.prems(4) by simp
  note r = Rename_file [OF s1 nn]
  have src: "f \<noteq> ?old \<and> f \<noteq> ?new" if "f \<in> MSourcePath ` set ms" for f
  proof -
    have "?old \<notin> MSourcePath ` set ms" using Cons.prems(2) by simp
    moreover have "os_exists sys f" using that Cons.prems(5) by auto
    ultimately show ?thesis using that nn by blast
  qed
  have tgt: "f \<noteq> ?old \<and> f \<noteq> ?new" if "f \<in> set ?rest" for f
    using that Cons.prems(3,4,5) by auto
  have "\<forall>f\<in>set ?rest. \<not> os_exists sys1 f" using Cons.prems(4) tgt r(2) by (auto simp: os_exists_def)
  moreover have "\<forall>x\<in>set ms. os_exists sys1 (MSourcePath x)" using Cons.prems(5) src r(2) by (auto simp: os_exists_def)
  ultimately have IH: "list_all2 (\<lambda>m f. os_file sys' f = os_file sys1 (MSourcePath m)) ms ?rest"
    "\<And>f. f \<notin> set ?rest \<Longrightarrow> f \<notin> MSourcePath ` set ms \<Longrightarrow> os_file sys' f = os_file sys1 f"
    "\<And>f. f \<in> MSourcePath ` set ms \<Longrightarrow> os_file sys' f = None"
    using Cons.IH [OF l] Cons.prems(2,3) by auto
  have ne: "?new \<noteq> ?old" using nn r(1) by auto
  have s: "?new \<notin> MSourcePath ` set ms" "?old \<notin> MSourcePath ` set ms" using src by blast+
  have t: "?new \<notin> set ?rest" "?old \<notin> set ?rest" using tgt by blast+
  have new: "os_file sys' ?new = os_file sys ?old" using IH(2) [OF t(1) s(1)] r(2) ne by simp
  have old: "os_file sys' ?old = None" using IH(2) [OF t(2) s(2)] r(2) by simp
  have "list_all2 (\<lambda>m f. os_file sys' f = os_file sys (MSourcePath m)) ms ?rest"
    by (rule list.rel_mono_strong [OF IH(1)]) (use src r(2) in auto)
  moreover have "os_file sys' f = os_file sys f" if "f \<notin> set ?rest" "f \<notin> MSourcePath ` set ms" "f \<noteq> ?old" "f \<noteq> ?new" for f
    using IH(2) [OF that(1,2)] that(3,4) r(2) by simp
  ultimately show ?case using new old IH(3) by auto
qed simp

text \<open>
  A migration whose source is a SQL or Go file of the directory that goose collects, which leaves out
  the files of Go tests.
\<close>

definition in_directory :: "fs \<Rightarrow> path \<Rightarrow> Migration \<Rightarrow> bool" where
  "in_directory fsys dir m \<longleftrightarrow> MSourcePath m \<in> set (Glob_dir fsys dir ''.sql'') \<or>
     MSourcePath m \<in> set (Glob_dir fsys dir ''.go'') \<and> \<not> HasSuffix (MSourcePath m) ''_test.go''"

definition collectable :: "path \<Rightarrow> path \<Rightarrow> bool" where
  "collectable dir f \<longleftrightarrow> f = path_Join dir (Base f) \<and>
     (HasSuffix (Base f) ''.sql'' \<or> HasSuffix (Base f) ''.go'' \<and> \<not> HasSuffix f ''_test.go'')"

lemma in_directory_collectable: "in_directory fsys dir m \<Longrightarrow> collectable dir (MSourcePath m)"
  by (auto simp: in_directory_def collectable_def Glob_dir_def)

lemma FormatInt_nonempty: "FormatInt v \<noteq> []"
  by (simp add: FormatInt_def)

lemma fixed_path_named:
  assumes "collectable dir (MSourcePath m)" and "NumericComponent (MSourcePath m) = Inr (Version m)"
    and "\<not> Contains (dir_prefix dir) (FormatInt (Version m))" and "1 \<le> w" and "w \<le> MaxInt64"
  shows "NumericComponent (fixed_path m w) = Inr w" and "collectable dir (fixed_path m w)"
proof -
  let ?f = "MSourcePath m" and ?v = "Version m" and ?d = "dir_prefix dir"
  have no: "slash \<notin> set (Base ?f)" using assms(1) Base_slash [of ?f "''.sql''"] Base_slash [of ?f "''.go''"]
    by (auto simp: collectable_def slash_def)
  obtain z x e where p: "number_prefix z" "Base ?f = z @ FormatInt ?v @ ''_'' @ x @ e" "e \<in> {''.sql'', ''.go''}" "Ext (Base ?f) = e"
    using named_parts [OF assms(2) no] by blast
  have f: "?f = ?d @ z @ FormatInt ?v @ ''_'' @ x @ e" using assms(1) p(2) by (metis collectable_def path_Join_dir(1))
  have v: "1 \<le> ?v" using NumericComponent_bounds [OF assms(2)] by blast
  have g: "fixed_path m w = ?d @ z @ seqVersion w @ ''_'' @ x @ e"
    unfolding fixed_path_def f Replace1_after [OF FormatInt_nonempty FormatInt_free(2) assms(3) path_Join_dir(2)]
    by (simp add: Replace1_first [OF FormatInt_nonempty number_prefix_first [OF p(1) v]])
  obtain j where j: "seqVersion w = replicate j (CHR ''0'') @ FormatInt w" using seqVersion_zeros [of w] assms(4) by auto
  have x: "slash \<notin> set x" using no p(2) by auto
  note r = renumbered [OF p(1) j assms(4,5) x p(3) path_Join_dir(2)]
  show "NumericComponent (fixed_path m w) = Inr w" unfolding g by (rule r(1))
  have t: "HasSuffix ?f ''_test.go'' \<longleftrightarrow> HasSuffix (fixed_path m w) ''_test.go''"
    using test_suffix [of "?d @ z @ FormatInt ?v" "x @ e"] test_suffix [of "?d @ z @ seqVersion w" "x @ e"] by (simp add: f g)
  have "HasSuffix (Base ?f) ''.sql'' \<Longrightarrow> e = ''.sql''" using p(4) by (auto simp: HasSuffix_iff suffix_def)
  then show "collectable dir (fixed_path m w)"
    using assms(1) p(3) t unfolding collectable_def g r(2) path_Join_dir(1) by (auto simp: HasSuffix_iff suffix_def)
qed

lemma fixed_paths_named:
  assumes "\<forall>m\<in>set ms. collectable dir (MSourcePath m) \<and> NumericComponent (MSourcePath m) = Inr (Version m) \<and>
      \<not> Contains (dir_prefix dir) (FormatInt (Version m))"
    and "1 \<le> n" and "n + int (length ms) \<le> MaxInt64"
  shows "map NumericComponent (fixed_paths ms n) = map (\<lambda>i. Inr (n + int i)) [0..<length ms] \<and>
     (\<forall>f\<in>set (fixed_paths ms n). collectable dir f)"
  using assms
proof (induction ms arbitrary: n)
  case (Cons m ms)
  have w: "wrap64 (n + 1) = n + 1" using Cons.prems by (intro wrap64_id) (simp add: in_int64_def MinInt64_def)
  have u: "[0..<length (m # ms)] = 0 # map Suc [0..<length ms]" by (simp add: upt_conv_Cons map_Suc_upt del: upt_Suc)
  have f: "NumericComponent (fixed_path m n) = Inr n" "collectable dir (fixed_path m n)"
    using fixed_path_named [of dir m n] Cons.prems by simp_all
  have "map NumericComponent (fixed_paths ms (n + 1)) = map (\<lambda>i. Inr (n + 1 + int i)) [0..<length ms] \<and>
      (\<forall>f\<in>set (fixed_paths ms (n + 1)). collectable dir f)"
    using Cons.prems by (intro Cons.IH) auto
  then show ?case using f w unfolding u by (simp add: o_def add.commute add.left_commute)
qed simp

text \<open>Every collected migration has the version of its source.\<close>

lemma connect_sources: "map (\<lambda>m. (MSourcePath m, Version m)) (connect prev ms) = map (\<lambda>m. (MSourcePath m, Version m)) ms"
  by (induction prev ms rule: connect.induct) simp_all

lemma collect_sql_sources: "collect_sql current target files = Inr ms \<Longrightarrow> m \<in> set ms \<Longrightarrow> NumericComponent (MSourcePath m) = Inr (Version m)"
  by (induction files arbitrary: ms) (auto simp: file_migration_def split: sum.splits if_splits)

lemma check_registered_ok: "check_registered reg = None \<Longrightarrow> (v, m) \<in> set reg \<Longrightarrow> \<exists>n. NumericComponent (MSourcePath m) = Inr n"
  by (induction reg rule: check_registered.induct) (auto split: sum.splits)

lemma go_sources_named: "(f, v) \<in> set (go_sources current target files) \<Longrightarrow> NumericComponent f = Inr v"
  by (induction files) (auto split: sum.splits if_splits)

lemma registered_in_range_sub: "registered_in_range current target reg = Inr ms \<Longrightarrow> m \<in> set ms \<Longrightarrow> \<exists>v. (v, m) \<in> set reg"
proof (induction reg arbitrary: ms)
  case (Cons e reg)
  obtain v x where e: "e = (v, x)" by (cases e)
  show ?case using Cons.prems Cons.IH unfolding e by (fastforce split: sum.splits if_splits)
qed simp

lemma collected_source:
  assumes "registry_named reg" and "collectMigrationsFS fsys dir current target reg = (Inr ms, reg')" and "m \<in> set ms"
  shows "NumericComponent (MSourcePath m) = Inr (Version m)"
proof -
  obtain sqls gos where c: "collect_sql current target (Glob_dir (b_files fsys) dir ''.sql'') = Inr sqls"
    "collectGoMigrations fsys dir reg current target = Inr gos" and s: "sortAndConnectMigrations (sqls @ gos) = Inr ms"
    using assms(2) by (auto simp: collectMigrationsFS_def split: option.splits sum.splits if_splits)
  have "map (\<lambda>m. (MSourcePath m, Version m)) ms = map (\<lambda>m. (MSourcePath m, Version m)) (sort_key Version (sqls @ gos))"
    using s by (auto simp: sortAndConnectMigrations_def connect_sources split: if_splits)
  then have "set (map (\<lambda>m. (MSourcePath m, Version m)) ms) = (\<lambda>m. (MSourcePath m, Version m)) ` set (sqls @ gos)"
    by (simp only: set_map set_sort)
  then have "(MSourcePath m, Version m) \<in> (\<lambda>m. (MSourcePath m, Version m)) ` set (sqls @ gos)"
    using imageI [OF assms(3), of "\<lambda>m. (MSourcePath m, Version m)"] by (simp only: set_map)
  then obtain m' where m': "m' \<in> set (sqls @ gos)" "(MSourcePath m, Version m) = (MSourcePath m', Version m')" by (elim imageE)
  have reg: "check_registered reg = None" using c(2) by (auto simp: collectGoMigrations_def split: option.splits)
  have named: "NumericComponent (MSourcePath x) = Inr (Version x)" if "(v, x) \<in> set reg" for v x
    using check_registered_ok [OF reg that] that assms(1) by (auto simp: registry_named_def)
  have "NumericComponent (MSourcePath x) = Inr (Version x)" if x: "x \<in> set gos" for x
  proof (cases "go_sources current target (Glob_dir (b_files fsys) dir ''.go'') = []")
    case True
    then have "gos = [] \<or> registered_in_range current target reg = Inr gos"
      using c(2) by (auto simp: collectGoMigrations_def Let_def split: option.splits if_splits)
    then show ?thesis using registered_in_range_sub x named by fastforce
  next
    case False
    then obtain f v where "(f, v) \<in> set (go_sources current target (Glob_dir (b_files fsys) dir ''.go''))"
      "x = (case map_of reg v of Some m \<Rightarrow> m | None \<Rightarrow> file_migration v f)"
      using c(2) x by (auto simp: collectGoMigrations_def Let_def split: option.splits if_splits)
    then show ?thesis using go_sources_named named
      by (auto simp: file_migration_def split: option.splits dest!: map_of_SomeD)
  qed
  then show ?thesis using collect_sql_sources [OF c(1)] m' by auto
qed

text \<open>
  C13: \<open>Fix\<close> gives the timestamped migrations, in their order, the versions that follow the last
  versioned migration; every file keeps its contents under its new name, no file is overwritten, and
  the other files stay as they are. This is for migrations, in SQL and in Go, whose files are in the
  directory (a registered Go migration may name one elsewhere), as long as the path of the directory
  contains none of their versions, because \<open>Fix\<close> replaces the first occurrence of the version in the
  whole path; the new numbers stay below the time stamps, and no version is the largest \<open>int64\<close>.
\<close>

theorem Fix_renumbers:
  assumes "registry_named reg" and "collectMigrationsFS (os_fs sys) dir minVersion maxVersion reg = (Inr ms, reg1)"
    and "Fix dir sys reg = (None, sys', reg')" and "\<forall>m\<in>set ms. Version m < MaxInt64"
    and "\<forall>m\<in>set (timestamped ms). in_directory (b_files (os_fs sys)) dir m \<and> \<not> Contains (dir_prefix dir) (FormatInt (Version m))"
    and "next_version ms + int (length (timestamped ms)) < 19700101000000"
    and "paths = fixed_paths (timestamped ms) (next_version ms)"
  shows "map NumericComponent paths = map (\<lambda>i. Inr (next_version ms + int i)) [0..<length (timestamped ms)] \<and>
     (\<forall>m\<in>set (versioned ms). Version m < next_version ms) \<and> (\<forall>f\<in>set paths. \<not> os_exists sys f) \<and>
     list_all2 (\<lambda>m f. os_file sys' f = os_file sys (MSourcePath m)) (timestamped ms) paths \<and>
     (\<forall>f. f \<notin> set paths \<and> f \<notin> MSourcePath ` set (timestamped ms) \<longrightarrow> os_file sys' f = os_file sys f)"
proof -
  let ?ts = "timestamped ms" and ?n = "next_version ms"
  have k: "known_migrations sys dir reg = ms" using assms(2) by (simp add: known_migrations_def)
  have ms: "sorted_wrt (<) (map Version ms)" "\<forall>m\<in>set ms. 1 \<le> Version m"
    using known_migrations_sorted [OF assms(1), of sys dir] by (simp_all add: k)
  have n: "1 \<le> ?n" "\<forall>m\<in>set (versioned ms). Version m < ?n" using next_version_after [OF ms(1)] ms(2) assms(4) by auto
  have len: "?n + int (length ?ts) \<le> MaxInt64" using assms(6) by (simp add: MaxInt64_def)
  have sub: "set ?ts \<subseteq> set ms" by (auto simp: timestamped_def)
  have ts: "\<forall>m\<in>set ?ts. collectable dir (MSourcePath m) \<and> NumericComponent (MSourcePath m) = Inr (Version m) \<and>
      \<not> Contains (dir_prefix dir) (FormatInt (Version m))"
    using assms(5) sub in_directory_collectable collected_source [OF assms(1,2)] by blast
  note p = fixed_paths_named [OF ts n(1) len, folded assms(7), THEN conjunct1] fixed_paths_named [OF ts n(1) len, folded assms(7), THEN conjunct2]
  have free: "\<not> os_exists sys f" if f: "f \<in> set paths" for f
  proof
    assume "os_exists sys f"
    then have "f \<in> set (map fst (b_files (os_fs sys)))" by (simp add: os_exists_def map_of_eq_None_iff)
    then have g: "f \<in> set (Glob_dir (b_files (os_fs sys)) dir ''.sql'') \<or>
        f \<in> set (Glob_dir (b_files (os_fs sys)) dir ''.go'') \<and> \<not> HasSuffix f ''_test.go''"
      using p(2) f by (auto simp: Glob_dir_def collectable_def)
    have "NumericComponent f \<in> set (map NumericComponent paths)" using f by simp
    then obtain i where i: "i < length ?ts" "NumericComponent f = Inr (?n + int i)" unfolding p(1) by auto
    let ?w = "?n + int i"
    have vf: "versionFilter ?w minVersion maxVersion" using n(1) i(1) assms(6)
      by (simp add: versionFilter_def minVersion_def maxVersion_def)
    have "?w \<in> snd ` set (go_sources minVersion maxVersion (Glob_dir (b_files (os_fs sys)) dir ''.go''))"
      if "f \<in> set (Glob_dir (b_files (os_fs sys)) dir ''.go'') \<and> \<not> HasSuffix f ''_test.go''"
      using that vf i(2) unfolding go_sources_range by blast
    then have "?w \<in> Version ` set ms"
      using collectMigrationsFS_versions [OF assms(1,2)] g i(2) vf by (auto simp: go_versions_def Let_def)
    then obtain m where m: "m \<in> set ms" "Version m = ?w" by auto
    have "?w < 19700101000000" using i(1) assms(6) by linarith
    then have "m \<in> set (versioned ms)" using version_lists [of ms] m by auto
    then show False using n(2) m(2) by auto
  qed
  have "distinct (map Version ms)" using ms(1) by (simp add: strict_sorted_iff)
  then have "distinct (map Version ?ts)" unfolding timestamped_def by (rule distinct_map_filter)
  then have d: "distinct (map MSourcePath ?ts)" using ts by (auto simp: distinct_map inj_on_def) (metis sum.inject(2))
  have "distinct (map NumericComponent paths)" unfolding p(1) by (simp add: distinct_map inj_on_def)
  then have dp: "distinct paths" by (simp add: distinct_map)
  have l: "fix_loop ?ts ?n sys = (None, sys')" using assms(2,3) by (auto simp: Fix_def split: prod.splits)
  have ex: "\<forall>m\<in>set ?ts. os_exists sys (MSourcePath m)"
    using assms(5) by (force simp: in_directory_def Glob_dir_def os_exists_def map_of_eq_None_iff)
  have "list_all2 (\<lambda>m f. os_file sys' f = os_file sys (MSourcePath m)) ?ts paths \<and>
      (\<forall>f. f \<notin> set paths \<and> f \<notin> MSourcePath ` set ?ts \<longrightarrow> os_file sys' f = os_file sys f)"
    using fix_loop_files [OF l d] dp free ex unfolding assms(7) by blast
  then show ?thesis using p(1) n(2) free by blast
qed

section \<open>An instance\<close>

abbreviation "ref_stamped \<equiv> ref_os [''db/00007_a.sql'', ''db/20240131120000_b.go'']"

abbreviation "ref_stamp \<equiv> zeroMigration\<lparr>Version := 20240131120000, Next := -1, Previous := 7, MSourcePath := ''db/20240131120000_b.go''\<rparr>"

abbreviation "ref_first \<equiv> zeroMigration\<lparr>Version := 7, Next := 20240131120000, Previous := -1, MSourcePath := ''db/00007_a.sql''\<rparr>"

lemma digit_chars:
  "digit_char 0 = CHR ''0''" "digit_char 1 = CHR ''1''" "digit_char 2 = CHR ''2''" "digit_char 3 = CHR ''3''" "digit_char 4 = CHR ''4''"
  "digit_char 7 = CHR ''7''"
  by code_simp+

lemma ref_digits:
  "digit_val (CHR ''0'') = Some 0" "digit_val (CHR ''1'') = Some 1" "digit_val (CHR ''2'') = Some 2" "digit_val (CHR ''3'') = Some 3"
  "digit_val (CHR ''4'') = Some 4"
  by code_simp+

lemma ref_stamp_text: "FormatInt 20240131120000 = ''20240131120000''"
  by (simp add: FormatInt_def nat_digits.simps digit_chars One_nat_def [symmetric] del: One_nat_def)

lemma ref_not_test: "HasSuffix ''db/20240131120000_b.go'' ''_test.go'' = False"
  by code_simp

lemma ref_stamped_collected: "collectMigrationsFS (os_fs ref_stamped) ''db'' minVersion maxVersion [] = (Inr [ref_first, ref_stamp], [])"
proof -
  have g: "Glob_dir (b_files (os_fs ref_stamped)) ''db'' ''.sql'' = [''db/00007_a.sql'']"
    "Glob_dir (b_files (os_fs ref_stamped)) ''db'' ''.go'' = [''db/20240131120000_b.go'']" by code_simp+
  have n: "NumericComponent ''db/00007_a.sql'' = Inr 7" by code_simp
  have "NumericComponent (''db/'' @ ''20240131120000'' @ ''_'' @ ''b'' @ ''.go'') = Inr 20240131120000"
    using NumericComponent_file [of 20240131120000 "''b''" "''.go''" "''db/''"] ref_stamp_text
    by (simp add: MaxInt64_def slash_def)
  then have n2: "NumericComponent ''db/20240131120000_b.go'' = Inr 20240131120000" by simp
  have s: "b_stat (os_fs ref_stamped) ''db'' = None" by (simp add: ref_os_def)
  show ?thesis
    by (simp add: collectMigrationsFS_def g n n2 s ref_not_test collectGoMigrations_def versionFilter_def minVersion_def
        maxVersion_def file_migration_def sortAndConnectMigrations_def store_registered_def)
qed

lemma ref_stamped_split: "timestamped [ref_first, ref_stamp] = [ref_stamp]" "next_version [ref_first, ref_stamp] = 8"
proof -
  have t: "time_Parse (FormatInt 20240131120000) = Some (2024, 1, 31, 12, 0, 0)" "time_Parse (FormatInt 7) = None"
    by (simp_all only: ref_stamp_text) (simp_all add: time_Parse_def ref_digits days_in_def FormatInt_def nat_digits.simps)
  show "timestamped [ref_first, ref_stamp] = [ref_stamp]" by (simp add: timestamped_def t after_epoch_def)
  show "next_version [ref_first, ref_stamp] = 8" by (simp add: next_version_def versioned_def t before_epoch_def Last_def wrap64_def)
qed

lemma ref_fixed: "fixed_path ref_stamp 8 = ''db/00008_b.go''"
  unfolding fixed_path_def by (simp add: ref_stamp_text) code_simp

theorem Fix_renumbers_witness:
  "\<exists>sys'. Fix ''db'' ref_stamped [] = (None, sys', []) \<and>
     os_file sys' ''db/00008_b.go'' = Some (Inr \<lparr>f_reader = (''db/20240131120000_b.go'', None), f_close = None\<rparr>) \<and>
     os_file sys' ''db/00007_a.sql'' = os_file ref_stamped ''db/00007_a.sql''"
proof -
  let ?ms = "[ref_first, ref_stamp]"
  have e: "os_exists ref_stamped ''db/20240131120000_b.go''"
    "os_file ref_stamped ''db/20240131120000_b.go'' = Some (Inr \<lparr>f_reader = (''db/20240131120000_b.go'', None), f_close = None\<rparr>)"
    "Contains (dir_prefix ''db'') ''20240131120000'' = False" by code_simp+
  have g: "''db/20240131120000_b.go'' \<in> set (Glob_dir (b_files (os_fs ref_stamped)) ''db'' ''.go'')" by code_simp
  obtain sys' where s: "Fix ''db'' ref_stamped [] = (None, sys', [])"
    using e(1) by (simp add: Fix_def ref_stamped_collected ref_stamped_split ref_fixed os_Rename_def) (simp add: ref_os_def)
  have n: "\<forall>m\<in>set (timestamped ?ms). in_directory (b_files (os_fs ref_stamped)) ''db'' m \<and> \<not> Contains (dir_prefix ''db'') (FormatInt (Version m))"
    unfolding ref_stamped_split using e(3) ref_stamp_text ref_not_test g by (simp add: in_directory_def)
  have p: "[''db/00008_b.go''] = fixed_paths (timestamped ?ms) (next_version ?ms)" by (simp add: ref_stamped_split ref_fixed)
  have "os_file sys' ''db/00008_b.go'' = os_file ref_stamped ''db/20240131120000_b.go'' \<and>
      os_file sys' ''db/00007_a.sql'' = os_file ref_stamped ''db/00007_a.sql''"
    using Fix_renumbers [OF _ ref_stamped_collected s _ n _ p] by (simp add: registry_named_def MaxInt64_def ref_stamped_split)
  then show ?thesis using s e(2) by simp
qed

text \<open>The version in the path of the directory is replaced instead of the one in the name of the file.\<close>

lemma fix_renames_directory:
  "fixed_path (ref_stamp\<lparr>MSourcePath := ''db20240131120000/20240131120000_b.go''\<rparr>) 8 = ''db00008/20240131120000_b.go''"
  unfolding fixed_path_def by (simp add: ref_stamp_text) code_simp

end
