(* ===== verification/Cli_Claims.thy ===== *)
theory Cli_Claims
  imports Cli Fix_Claims
begin

text \<open>Properties of the command \<open>goose\<close>.\<close>

section \<open>Drivers\<close>

lemma add_driver_keys: "set (map fst (add_driver d m)) = insert (driver_key d) (set (map fst m))"
  by (induction d m rule: add_driver.induct) auto

lemma add_driver_distinct: "distinct (map fst m) \<Longrightarrow> distinct (map fst (add_driver d m))"
proof (induction d m rule: add_driver.induct)
  case (2 d k ds m)
  then show ?case using add_driver_keys [of d m] by auto
qed simp

lemma add_driver_values:
  "distinct (map fst m) \<Longrightarrow> (k, vs) \<in> set (add_driver d m) \<longleftrightarrow>
     (if k = driver_key d then vs = (case map_of m k of None \<Rightarrow> [] | Some ws \<Rightarrow> ws) @ [d] else (k, vs) \<in> set m)"
proof (induction d m rule: add_driver.induct)
  case (2 d k' ds m)
  then have m: "distinct (map fst m)" "k' \<notin> fst ` set m" by auto
  show ?case
  proof (cases "k' = driver_key d")
    case True
    have "(k, vs) \<notin> set m" if "k = k'" using that m(2) by force
    then show ?thesis using True by auto
  next
    case False
    then show ?thesis using "2.IH" [OF False m(1)] by auto
  qed
qed auto

definition grouped :: "string list \<Rightarrow> string \<Rightarrow> string list" where
  "grouped ds k = filter (\<lambda>d. driver_key d = k) ds"

lemma driver_map:
  "distinct (map fst (fold add_driver ds [])) \<and> set (fold add_driver ds []) = (\<lambda>k. (k, grouped ds k)) ` (driver_key ` set ds)"
proof (induction ds rule: rev_induct)
  case (snoc d ds)
  let ?m = "fold add_driver ds []"
  have m: "distinct (map fst ?m)" "set ?m = (\<lambda>k. (k, grouped ds k)) ` (driver_key ` set ds)" using snoc by auto
  have lk: "(case map_of ?m k of None \<Rightarrow> [] | Some ws \<Rightarrow> ws) = grouped ds k" for k
  proof (cases "k \<in> driver_key ` set ds")
    case True
    then have "map_of ?m k = Some (grouped ds k)" using m by (intro map_of_is_SomeI) auto
    then show ?thesis by simp
  next
    case False
    then have "map_of ?m k = None" using m(2) by (auto simp: map_of_eq_None_iff)
    moreover have "grouped ds k = []" using False by (auto simp: grouped_def filter_empty_conv)
    ultimately show ?thesis by simp
  qed
  have "(k, vs) \<in> set (add_driver d ?m) \<longleftrightarrow> (k, vs) \<in> (\<lambda>k. (k, grouped (ds @ [d]) k)) ` (driver_key ` set (ds @ [d]))" for k vs
    unfolding add_driver_values [OF m(1)] lk m(2) by (auto simp: grouped_def)
  then have "set (add_driver d ?m) = (\<lambda>k. (k, grouped (ds @ [d]) k)) ` (driver_key ` set (ds @ [d]))" by auto
  then show ?case using add_driver_distinct [OF m(1)] by simp
qed simp

lemma sort_mset: "mset xs = mset ys \<Longrightarrow> sort xs = sort ys"
  by (metis sorted_list_of_multiset_mset)

text \<open>
  Whatever the order in which the map is iterated, the list of drivers has one line for each
  prefix, with all the drivers that have it, everything sorted.
\<close>

lemma mergeDrivers_exact:
  assumes "\<And>m. mset (iter m) = mset m"
  shows "mergeDrivers iter drivers = sort (map (\<lambda>k. Join (sort (grouped drivers k)) '', '') (remdups (map driver_key drivers)))"
proof -
  let ?m = "fold add_driver drivers []" and ?r = "map (\<lambda>k. (k, grouped drivers k)) (remdups (map driver_key drivers))"
  have d: "distinct ?m" using driver_map [of drivers] by (simp add: distinct_map)
  have dr: "distinct ?r" by (simp add: distinct_map inj_on_def)
  have "set ?m = set ?r" using driver_map [of drivers] by auto
  then have "mset ?m = mset ?r" using set_eq_iff_mset_eq_distinct [OF d dr] by simp
  then have "mset (map (\<lambda>(_, versions). Join (sort versions) '', '') (iter ?m)) = mset (map (\<lambda>(_, versions). Join (sort versions) '', '') ?r)"
    using assms [of ?m] by (simp only: mset_map)
  then have "mergeDrivers iter drivers = sort (map (\<lambda>(_, versions). Join (sort versions) '', '') ?r)"
    unfolding mergeDrivers_def by (rule sort_mset)
  then show ?thesis by (simp add: o_def)
qed

section \<open>Arguments and environment\<close>

text \<open>The commands that \<open>main\<close> handles before it looks for a driver.\<close>

definition early_commands :: "string set" where
  "early_commands = {''init'', ''create'', ''fix'', ''env'', ''validate'', ''beta''}"

lemma dispatch_late:
  "hd args \<notin> early_commands \<Longrightarrow> dispatch sh fl cfg args reg sys = run_on_database sh fl cfg (mergeArgs cfg args) reg sys"
  by (simp add: dispatch_def early_commands_def)

lemma shell_environment:
  fixes sh :: "'d shell"
  defines "sh' \<equiv> \<lambda>g h. sh\<lparr>sh_getenv := g, sh_dotenv := h\<rparr>"
  shows "sh_unicode (sh' g h) = sh_unicode sh" "sh_now (sh' g h) = sh_now sh" "sh_ext (sh' g h) = sh_ext sh"
  "sh_my (sh' g h) = sh_my sh" "sh_open (sh' g h) = sh_open sh" "sh_store (sh' g h) = sh_store sh"
  by (simp_all add: sh'_def)

text \<open>
  C32: for the commands that use a database (every one but \<open>init\<close>, \<open>create\<close>, \<open>fix\<close>, \<open>env\<close>,
  \<open>validate\<close> and \<open>beta\<close>, which take no driver) it is the same to give the driver and the connection
  string in the environment or as the first two arguments. In the first call the environment, after
  the file of \<open>-env\<close> (the default \<open>.env\<close>, a named file or none) is loaded, has both; in the second
  call it differs only in having neither, wherever they came from; no driver has the name of one of
  those six commands. Then the two calls end in the same way and leave the same files, registry and database.
\<close>

theorem environment_equals_arguments:
  assumes "load_env sh (fl_env fl) = Inr env" and "env ''GOOSE_DRIVER'' = driver" and "env ''GOOSE_DBSTRING'' = dbstring"
    and "driver \<noteq> ''''" and "dbstring \<noteq> ''''"
    and "args \<noteq> []" and "hd args \<notin> early_commands" and "driver \<notin> early_commands"
    and "sh' = sh\<lparr>sh_getenv := g, sh_dotenv := h\<rparr>"
    and "load_env sh' (fl_env fl) = Inr (env(''GOOSE_DRIVER'' := '''', ''GOOSE_DBSTRING'' := ''''))"
  shows "main sh (Inr (fl, args)) reg sys = main sh' (Inr (fl, driver # dbstring # args)) reg sys"
proof -
  let ?c = "loadEnvConfig env" and ?e = "env(''GOOSE_DRIVER'' := '''', ''GOOSE_DBSTRING'' := '''')"
  have c: "loadEnvConfig ?e = ?c\<lparr>ec_driver := '''', ec_dbstring := ''''\<rparr>" by (simp add: loadEnvConfig_def envOr_def)
  have d: "ec_driver ?c = driver" "ec_dbstring ?c = dbstring" using assms(2-5) by (simp_all add: loadEnvConfig_def envOr_def)
  have "mergeArgs ?c args = driver # dbstring # args" using assms(4-6) by (simp add: mergeArgs_def d)
  moreover have "mergeArgs (loadEnvConfig ?e) (driver # dbstring # args) = driver # dbstring # args" by (simp add: c mergeArgs_def)
  moreover have eqs: "cli_table fl (loadEnvConfig ?e) = cli_table fl ?c" "cli_dir fl (loadEnvConfig ?e) = cli_dir fl ?c"
    "cli_options fl (loadEnvConfig ?e) = cli_options fl ?c" by (simp_all add: c cli_table_def cli_dir_def cli_options_def)
  moreover have "run_on_database sh fl ?c as reg sys = run_on_database sh' fl (loadEnvConfig ?e) as reg sys" for as
    unfolding assms(9) run_on_database_def shell_environment eqs ..
  ultimately have "dispatch sh fl ?c args reg sys = dispatch sh' fl (loadEnvConfig ?e) (driver # dbstring # args) reg sys"
    using assms(7,8) by (simp add: dispatch_late)
  moreover have "printed_version sh' = printed_version sh" by (simp add: assms(9) printed_version_def)
  ultimately show ?thesis using assms(1,6,10) by (simp add: main_def Let_def)
qed

section \<open>Init and validate\<close>

text \<open>The comments of the template that name an annotation are taken for annotations, which they are not.\<close>

lemma init_template_fails: "isl (ParseSQLMigration x (cli_sqlMigrationTemplate, None) DirectionUp)"
  by code_simp

definition init_dir :: "path \<Rightarrow> path" where
  "init_dir dir0 = (if dir0 = '''' \<or> dir0 = DefaultMigrationDir then ''migrations'' else dir0)"

lemma gooseInit_made:
  assumes "gooseInit u sequential now dir0 sys reg = (None, sys', reg')"
  obtains sys1 where "\<not> os_exists sys (init_dir dir0)"
    and "os_fs sys1 = (os_fs sys)\<lparr>b_stat := (b_stat (os_fs sys))(init_dir dir0 := None)\<rparr>"
    and "CreateWithTemplate u sequential now (init_dir dir0) (Some (\<lambda>_ _. (cli_sqlMigrationTemplate, None))) ''initial'' ''sql'' sys1 reg = (None, sys', reg')"
proof (rule that)
  let ?sys1 = "sys\<lparr>os_fs := (os_fs sys)\<lparr>b_stat := (b_stat (os_fs sys))(init_dir dir0 := None)\<rparr>\<rparr>"
  note i = assms [unfolded gooseInit_def Let_def init_dir_def [symmetric]]
  show "\<not> os_exists sys (init_dir dir0)" using i by (auto simp: os_Stat_def)
  show "CreateWithTemplate u sequential now (init_dir dir0) (Some (\<lambda>_ _. (cli_sqlMigrationTemplate, None))) ''initial'' ''sql'' ?sys1 reg = (None, sys', reg')"
    using i by (auto simp: os_Stat_def os_MkdirAll_def split: if_splits option.splits)
qed simp

lemma Walk_all:
  assumes "Walk fsys fn filenames = Inr as" and "f \<in> set filenames" and "migration_file f" and "fs_Open fsys f = Inr g"
  shows "\<not> isl (fn f (f_reader g))"
  using assms by (induction filenames arbitrary: as) (auto split: if_splits sum.splits)

text \<open>
  C34: \<open>goose init\<close> writes a migration that goose cannot read. The lines of its introduction that
  begin with two hyphens and mention an annotation are taken for annotations: the file has a version
  and is found in the directory, but parsing it fails, and so does \<open>goose validate\<close> on the new
  directory. A second \<open>goose init\<close> refuses the directory and changes nothing.
\<close>

theorem init_file_unreadable:
  assumes "unicode_laws u" and "append_laws x" and "wait_laws x" and "registry_named reg"
    and "gooseInit u False (FormatInt stamp) dir0 sys reg = (None, sys', reg')" and "1 \<le> stamp" and "stamp \<le> MaxInt64"
  shows "(\<exists>f v. f \<in> set (Glob_dir (b_files (os_fs sys')) (init_dir dir0) ''.sql'') \<and> NumericComponent f = Inr v \<and>
       isl (ParseAllFromFS x (b_files (os_fs sys')) f)) \<and>
     isl (printValidate x gp sys' (init_dir dir0) verb) \<and>
     gooseInit u seq now dir0 sys' reg' = (Some (Msg (''directory already exists: '' @ init_dir dir0)), sys', reg')"
proof -
  let ?d = "init_dir dir0"
  obtain sys1 where e: "\<not> os_exists sys ?d" and s1: "os_fs sys1 = (os_fs sys)\<lparr>b_stat := (b_stat (os_fs sys))(?d := None)\<rparr>"
    and c: "CreateWithTemplate u False (FormatInt stamp) ?d (Some (\<lambda>_ _. (cli_sqlMigrationTemplate, None))) ''initial'' ''sql'' sys1 reg = (None, sys', reg')"
    using gooseInit_made [OF assms(5)] .
  obtain base v g where g: "f_close g = None" "f_reader g = (cli_sqlMigrationTemplate, None)" "Base (path_Join ?d base) = base" "HasSuffix base ''.sql''"
    "os_fs sys' = (os_fs sys1)\<lparr>b_files := b_files (os_fs sys1) @ [(path_Join ?d base, Inr g)]\<rparr>"
    "fs_Open (b_files (os_fs sys')) (path_Join ?d base) = Inr g" "NumericComponent (path_Join ?d base) = Inr v"
    using CreateWithTemplate_file [OF assms(1,4) c, of stamp] assms(6,7) by fastforce
  let ?f = "path_Join ?d base"
  have files: "b_files (os_fs sys') = b_files (os_fs sys) @ [(?f, Inr g)]" "b_stat (os_fs sys') ?d = None" using g(5) s1 by simp_all
  have ext: "Ext ?f = ''.sql''" using g(4) Ext_sql_go(1) [of "dir_prefix ?d @ _"] by (auto simp: path_Join_dir(1) HasSuffix_iff suffix_def)
  have "base \<noteq> ''''" "?d \<noteq> ''''" using g(4) by (auto simp: HasSuffix_iff init_dir_def DefaultMigrationDir_def)
  then have "?f \<noteq> ?d" using g(3,4) by (auto simp: path_Join_def init_dir_def DefaultMigrationDir_def split: if_splits)
  then have st: "os_Stat sys' ?d = Inr True" using e files by (simp add: os_Stat_def os_exists_def map_add_def)
  have gl: "?f \<in> set (Glob_dir (b_files (os_fs sys')) ?d ''.sql'')" using g(3,4) by (simp add: files(1) Glob_dir_def)
  have p: "\<not> (\<exists>r. ParseSQLMigration x (f_reader g) DirectionUp = Inr r)" using init_template_fails [of x] g(2) by auto
  then have "isl (ParseAllFromFS x (b_files (os_fs sys')) ?f)"
    by (cases "ParseAllFromFS x (b_files (os_fs sys')) ?f") (auto simp: ParseAllFromFS_parts [OF assms(3)] parse_closed [OF assms(2) g(6,1)])
  moreover have "isl (stats_of_file x gp ?f (f_reader g))"
    using p by (auto simp: stats_of_file_def g(2,7) ext parseSQLFile_def split: sum.splits)
  then have gs: "isl (GatherStats x gp (b_files (os_fs sys')) filenames)" if "?f \<in> set filenames" for filenames
    using Walk_all [OF _ that _ g(6)] ext by (cases "GatherStats x gp (b_files (os_fs sys')) filenames") (auto simp: GatherStats_def migration_file_def)
  have "isl (printValidate x gp sys' ?d verb)"
    using gs [of "sort (Glob_dir (b_files (os_fs sys')) ?d ''.sql'' @ Glob_dir (b_files (os_fs sys')) ?d ''.go'')"] gl
    by (auto simp: printValidate_def gatherFilenames_def st split: sum.splits)
  moreover have "gooseInit u seq now dir0 sys' reg' = (Some (Msg (''directory already exists: '' @ ?d)), sys', reg')"
    using st unfolding gooseInit_def Let_def init_dir_def [symmetric] by simp
  ultimately show ?thesis using gl g(7) by blast
qed

theorem init_file_unreadable_witness:
  "isl (printValidate ref_ext ref_go_parser
     (fst (snd (gooseInit ascii False (FormatInt 7) ''.''
        \<lparr>os_fs = \<lparr>b_files = [], b_stat = (\<lambda>_. Some (Sent ErrNotExist))\<rparr>, os_fail = (\<lambda>_. None)\<rparr> []))) ''migrations'' False)"
proof -
  let ?sys = "\<lparr>os_fs = \<lparr>b_files = [], b_stat = (\<lambda>_. Some (Sent ErrNotExist))\<rparr>, os_fail = (\<lambda>_. None)\<rparr>"
  have n: "fst (gooseInit ascii False (FormatInt 7) ''.'' ?sys []) = None" by code_simp
  obtain sys' reg' where i: "gooseInit ascii False (FormatInt 7) ''.'' ?sys [] = (None, sys', reg')" using n by (metis prod.collapse)
  have d: "init_dir ''.'' = ''migrations''" by (simp add: init_dir_def DefaultMigrationDir_def)
  from init_file_unreadable [OF ascii_laws ref_ext_laws _ i, of ref_go_parser False] show ?thesis
    by (simp add: i d registry_named_def MaxInt64_def)
qed

section \<open>An instance\<close>

definition ref_flags :: cli_flags where
  "ref_flags =
     \<lparr>fl_dir = ''.'', fl_table = '''', fl_verbose = False, fl_help = False, fl_version = False, fl_certfile = '''', fl_sequential = False,
      fl_allowMissing = False, fl_sslcert = '''', fl_sslkey = '''', fl_noVersioning = False, fl_noColor = False, fl_env = ''none''\<rparr>"

definition ref_shell :: "ref_db shell" where
  "ref_shell =
     \<lparr>sh_unicode = ascii, sh_now = ''20240131120000'', sh_ext = ref_ext, sh_gp = ref_go_parser, sh_getenv = (\<lambda>_. ''''),
      sh_dotenv = (\<lambda>_. (None, \<lambda>_. '''')), sh_drivers = [''pgx''], sh_iter = rev,
      sh_my = \<lparr>my_tls = (\<lambda>_ _ _. None), my_dsn = (\<lambda>s _. Inr s)\<rparr>,
      sh_open = (\<lambda>_ _. Inr \<lparr>k_engine = ref_engine NewPostgres DefaultTablename,
        k_world = \<lparr>committed = (None, []), txn = None, faults = [], conns = 0\<rparr>, k_close = None\<rparr>),
      sh_store = Some NewPostgres, sh_linked = '''', sh_build = Some ''v3''\<rparr>"

definition ref_env :: environment where
  "ref_env k = (if k = ''GOOSE_DRIVER'' then ''postgres'' else if k = ''GOOSE_DBSTRING'' then ''host=db'' else '''')"

theorem environment_equals_arguments_witness:
  "main (ref_shell\<lparr>sh_dotenv := \<lambda>_. (None, ref_env)\<rparr>) (Inr (ref_flags\<lparr>fl_env := ''''\<rparr>, [''version''])) [] (ref_os []) =
   main (ref_shell\<lparr>sh_getenv := \<lambda>_. '''', sh_dotenv := \<lambda>_. (None, ref_env(''GOOSE_DRIVER'' := '''', ''GOOSE_DBSTRING'' := ''''))\<rparr>)
     (Inr (ref_flags\<lparr>fl_env := ''''\<rparr>, [''postgres'', ''host=db'', ''version''])) [] (ref_os [])"
  by (rule environment_equals_arguments [where env = ref_env])
    (simp_all add: ref_env_def early_commands_def ref_flags_def ref_shell_def load_env_def)

end
