(* ===== verification/Cli_Up.thy ===== *)
theory Cli_Up
  imports Cli_Claims Legacy_Witness
begin

text \<open>
  The command \<open>goose up\<close> from the arguments to the version table: the command, the choice of the
  dialect and the driver, the package-level operation, the collection and the run of the migrations
  composed.
\<close>

text \<open>The package as \<open>main\<close> sets it up for an open database.\<close>

definition cli_package :: "'d shell \<Rightarrow> cli_flags \<Rightarrow> envConfig \<Rightarrow> os \<Rightarrow> 'd conn \<Rightarrow> querier \<Rightarrow> 'd package" where
  "cli_package sh fl cfg sys c q =
     \<lparr>g_engine = k_engine c, g_querier = q, g_table = cli_table fl cfg, g_fs = os_fs sys, g_ext = sh_ext sh\<rparr>"

lemma cli_options_flags:
  "o_noVersioning (options_of (cli_options fl cfg)) = fl_noVersioning fl"
  "o_allowMissing (options_of (cli_options fl cfg)) = fl_allowMissing fl"
  "\<not> o_applyUpByOne (options_of (cli_options fl cfg))"
  by (simp_all add: options_of_def cli_options_def)

text \<open>A command that needs a database reaches \<open>run\<close> with the dialect of the driver.\<close>

definition opens :: "'d shell \<Rightarrow> cli_flags \<Rightarrow> string \<Rightarrow> string \<Rightarrow> 'd conn \<Rightarrow> querier \<Rightarrow> bool" where
  "opens sh fl driver dbstring c q \<longleftrightarrow>
     (case normalizeDBString (sh_my sh) driver dbstring (fl_certfile fl) (fl_sslcert fl) (fl_sslkey fl) of
        Inl _ \<Rightarrow> False | Inr str \<Rightarrow> sh_open sh (driver_of_name driver) str = Inr c) \<and>
     (case dialect_of_name driver of None \<Rightarrow> False | Some d \<Rightarrow> q = the (map_of builtin_queriers d))"

definition ended_on :: "'d conn \<Rightarrow> err option \<times> 'd lstate \<times> os \<Rightarrow> ending \<times> 'd cli_state" where
  "ended_on c r =
     (case r of (e, s, sys) \<Rightarrow>
        (case e of
           Some e' \<Rightarrow> Fatal ''goose run'' (Some e')
         | None \<Rightarrow> (case k_close c of Some e' \<Rightarrow> Fatal ''goose: failed to close DB'' (Some e') | None \<Rightarrow> Printed []),
         \<lparr>cl_os = sys, cl_reg = lreg s, cl_db = Some (lw s)\<rparr>))"

lemma main_reaches_run:
  assumes "\<not> fl_version fl" and "\<not> fl_help fl" and "load_env sh (fl_env fl) = Inr env" and "cfg = loadEnvConfig env"
    and "args \<noteq> []" and "hd args \<notin> early_commands" and "mergeArgs cfg args = driver # dbstring # command # arguments"
    and "opens sh fl driver dbstring c q"
  shows "main sh (Inr (fl, args)) reg sys =
     map_option (ended_on c) (run (sh_unicode sh) (fl_sequential fl) (sh_now sh) (cli_package sh fl cfg sys c q) command
       (cli_dir fl cfg) arguments (cli_options fl cfg) \<lparr>lw = k_world c, lreg = reg\<rparr> sys)"
proof -
  have "main sh (Inr (fl, args)) reg sys = run_on_database sh fl cfg (driver # dbstring # command # arguments) reg sys"
    using assms(1-7) by (simp add: main_def Let_def dispatch_late)
  also have "\<dots> = map_option (ended_on c) (run (sh_unicode sh) (fl_sequential fl) (sh_now sh) (cli_package sh fl cfg sys c q) command
       (cli_dir fl cfg) arguments (cli_options fl cfg) \<lparr>lw = k_world c, lreg = reg\<rparr> sys)"
    using assms(8)
    by (auto simp: run_on_database_def opens_def OpenDBWithDriver_cases cli_package_def ended_on_def split: sum.splits option.splits)
  finally show ?thesis .
qed

text \<open>
  C31: \<open>goose up\<close>, from the command line to the version table. However the driver and the connection
  string are given, once the database is open the command ends, leaves no transaction open and no
  file changed, keeps every recorded version and records only versions of the migrations collected
  from the directory; unless it ends with the error of the run, every collected version is recorded.
\<close>

theorem goose_up_records:
  assumes "\<not> fl_version fl" and "\<not> fl_help fl" and "\<not> fl_noVersioning fl" and "load_env sh (fl_env fl) = Inr env" and "cfg = loadEnvConfig env"
    and "args \<noteq> []" and "hd args \<notin> early_commands" and "mergeArgs cfg args = [driver, dbstring, ''up'']"
    and "opens sh fl driver dbstring c q" and "g = cli_package sh fl cfg sys c q" and "s = \<lparr>lw = k_world c, lreg = reg\<rparr>"
    and "package_ok view added g" and "registry_named reg" and "txn (k_world c) = None"
    and "zero_ok (view (committed (k_world c)))" and "\<forall>v\<in>lrecorded view s. 0 \<le> v"
    and "CollectMigrations g (cli_dir fl cfg) minVersion maxVersion s = (Inr ms, s1)" and "\<forall>m\<in>set ms. regular view g m True"
  shows "\<exists>how s'. main sh (Inr (fl, args)) reg sys = Some (how, \<lparr>cl_os = sys, cl_reg = lreg s', cl_db = Some (lw s')\<rparr>) \<and>
     txn (lw s') = None \<and> lrecorded view s \<subseteq> lrecorded view s' \<and>
     lrecorded view s' \<subseteq> insert 0 (lrecorded view s) \<union> Version ` set ms \<and>
     ((\<exists>e. how = Fatal ''goose run'' (Some e)) \<or> Version ` set ms \<subseteq> lrecorded view s')"
proof -
  obtain r s' where u: "legacy_UpTo g (cli_dir fl cfg) maxVersion (cli_options fl cfg) s = (r, s')" by fastforce
  have m: "main sh (Inr (fl, args)) reg sys = Some (ended_on c (r, s', sys))"
    using main_reaches_run [OF assms(1,2,4-9), of reg sys] u assms(10,11) by (simp add: run_def on_db_def legacy_Up_def)
  have "registry_named (lreg s)" "txn (lw s) = None" "zero_ok (view (committed (lw s)))" "0 \<le> maxVersion"
    "\<not> o_noVersioning (options_of (cli_options fl cfg))"
    using assms(3,11,13-15) by (simp_all add: maxVersion_def cli_options_flags)
  from legacy_UpTo_result [OF assms(12) this(1-3) assms(16) this(4) assms(17,18) this(5) u] show ?thesis
    unfolding m by (cases r) (auto simp: ended_on_def cli_options_flags)
qed

definition up_shell :: "ref_db shell" where
  "up_shell =
     ref_shell\<lparr>sh_open := (\<lambda>_ _. Inr \<lparr>k_engine = ref_engine NewPostgres ''goose_db_version'', k_world = lw (ref_lstate None), k_close = None\<rparr>)\<rparr>"

definition up_os :: os where
  "up_os = \<lparr>os_fs = \<lparr>b_files = ref_files, b_stat = (\<lambda>_. None)\<rparr>, os_fail = (\<lambda>_. None)\<rparr>"

theorem goose_up_records_witness:
  "\<exists>s'. main up_shell (Inr (ref_flags, [''postgres'', ''host=db'', ''up''])) [(2, ref_registered)] up_os =
       Some (Printed [], \<lparr>cl_os = up_os, cl_reg = lreg s', cl_db = Some (lw s')\<rparr>) \<and> {1, 2} \<subseteq> lrecorded fst s'"
proof -
  let ?args = "[''postgres'', ''host=db'', ''up'']" and ?cfg = "loadEnvConfig (\<lambda>_. '''')"
  let ?c = "\<lparr>k_engine = ref_engine NewPostgres ''goose_db_version'', k_world = lw (ref_lstate None), k_close = None\<rparr>"
  have p: "cli_package up_shell ref_flags ?cfg up_os ?c NewPostgres = ref_package"
    by (simp add: cli_package_def ref_package_def up_os_def up_shell_def ref_shell_def cli_table_def ref_flags_def loadEnvConfig_def
        envOr_def DefaultTablename_def)
  have s: "\<lparr>lw = lw (ref_lstate None), lreg = [(2, ref_registered)]\<rparr> = ref_lstate None" by (simp add: ref_lstate_def)
  have d: "cli_dir ref_flags ?cfg = ''.''" by (simp add: cli_dir_def ref_flags_def loadEnvConfig_def envOr_def DefaultMigrationDir_def)
  have o: "opens up_shell ref_flags ''postgres'' ''host=db'' ?c NewPostgres"
    by (simp add: opens_def normalizeDBString_def up_shell_def dialect_of_name_def builtin_queriers_def)
  have env: "load_env up_shell (fl_env ref_flags) = Inr (\<lambda>_. '''')" by (simp add: load_env_def up_shell_def ref_shell_def ref_flags_def)
  have merged: "mergeArgs ?cfg ?args = ?args" by (simp add: mergeArgs_def loadEnvConfig_def envOr_def)
  have flags: "\<not> fl_version ref_flags" "\<not> fl_help ref_flags" "\<not> fl_noVersioning ref_flags" by (simp_all add: ref_flags_def)
  have late: "?args \<noteq> []" "hd ?args \<notin> early_commands" by (simp_all add: early_commands_def)
  have z: "\<forall>v\<in>lrecorded fst (ref_lstate None). 0 \<le> v" "txn (lw (ref_lstate None)) = None"
    by (simp_all add: lrecorded_def)
  have named: "registry_named [(2, ref_registered)]" using ref_named [of None] by (simp add: ref_lstate_def)
  have v: "Version ` set ref_collected = {1, 2}" using arg_cong [OF ref_collected_versions, of set] by simp
  have r: "\<forall>m\<in>set ref_collected. regular fst ref_package m True" using ref_regular(2) by blast
  have ended: "map_option fst (main up_shell (Inr (ref_flags, ?args)) [(2, ref_registered)] up_os) = Some (Printed [])" by code_simp
  have "\<exists>how s'. main up_shell (Inr (ref_flags, ?args)) [(2, ref_registered)] up_os =
        Some (how, \<lparr>cl_os = up_os, cl_reg = lreg s', cl_db = Some (lw s')\<rparr>) \<and> txn (lw s') = None \<and>
      lrecorded fst (ref_lstate None) \<subseteq> lrecorded fst s' \<and> lrecorded fst s' \<subseteq> insert 0 (lrecorded fst (ref_lstate None)) \<union> Version ` set ref_collected \<and>
      ((\<exists>e. how = Fatal ''goose run'' (Some e)) \<or> Version ` set ref_collected \<subseteq> lrecorded fst s')"
    by (rule goose_up_records [OF flags env refl late merged o p [symmetric] _ ref_package_ok named])
      (simp_all add: s d z ref_collect r zero_ok_def)
  with ended v show ?thesis by fastforce
qed

end
