(* ===== verification/Result_Text.thy ===== *)
theory Result_Text
  imports Migrations
begin

text \<open>
  The texts of results and migrations: \<open>MigrationResult.String\<close> of \<open>provider_types.go\<close>, the \<open>String\<close>
  methods of \<open>migration.go\<close> and \<open>migrate.go\<close>, and \<open>truncateDuration\<close>, which rounds the durations shown.
  A duration is a 64-bit number of nanoseconds; \<open>Round\<close> and \<open>String\<close> of \<open>time.Duration\<close> are part of the
  model. A result of the other theories has no duration, so it is an argument here.
\<close>

section \<open>Durations\<close>

type_synonym Duration = int

definition Microsecond :: Duration where "Microsecond = 1000"
definition Millisecond :: Duration where "Millisecond = 1000000"
definition Second :: Duration where "Second = 1000000000"

lemmas unit_defs = Microsecond_def Millisecond_def Second_def

text \<open>\<open>Round\<close> goes to the nearest multiple, halves away from zero; past the end of the range it saturates.\<close>

definition Duration_Round :: "Duration \<Rightarrow> Duration \<Rightarrow> Duration" where
  "Duration_Round d m =
     (if m \<le> 0 then d
      else if d < 0
      then
        (let r = (- d) mod m; d1 = wrap64 (d - m + r)
         in if r + r < m then d + r else if d1 < d then d1 else MinInt64)
      else
        (let r = d mod m; d1 = wrap64 (d + m - r)
         in if r + r < m then d - r else if d1 > d then d1 else MaxInt64))"

fun truncate_by :: "Duration list \<Rightarrow> Duration \<Rightarrow> Duration" where
  "truncate_by [] d = d"
| "truncate_by (v # vs) d = (if d > v then Duration_Round d (v div 100) else truncate_by vs d)"

definition truncateDuration :: "Duration \<Rightarrow> Duration" where
  "truncateDuration d = truncate_by [Second, Millisecond, Microsecond] d"

text \<open>\<open>fmtFrac\<close> of \<open>time\<close>: the decimals without the zeros at the end, and without the point if none is left.\<close>

definition fmt_frac :: "nat \<Rightarrow> nat \<Rightarrow> string" where
  "fmt_frac v prec =
     (let ds = nat_digits (v mod 10 ^ prec); padded = (if prec = 0 then [] else replicate (prec - length ds) (CHR ''0'') @ ds);
          kept = rev (dropWhile (\<lambda>c. c = CHR ''0'') (rev padded))
      in if kept = [] then [] else CHR ''.'' # kept)"

definition with_unit :: "nat \<Rightarrow> nat \<Rightarrow> string \<Rightarrow> string" where
  "with_unit u prec unit = FormatNat (u div 10 ^ prec) @ fmt_frac u prec @ unit"

definition Duration_String :: "Duration \<Rightarrow> string" where
  "Duration_String d =
     (let u = nat \<bar>d\<bar>; s = u div 10 ^ 9;
          text =
            (if u = 0 then ''0s''
             else if u < 10 ^ 3 then with_unit u 0 ''ns''
             else if u < 10 ^ 6 then with_unit u 3 [CHR 0xC2, CHR 0xB5, CHR ''s'']
             else if u < 10 ^ 9 then with_unit u 6 ''ms''
             else
               (if s \<ge> 3600 then FormatNat (s div 3600) @ ''h'' else []) @
               (if s \<ge> 60 then FormatNat (s div 60 mod 60) @ ''m'' else []) @
               FormatNat (s mod 60) @ fmt_frac u 9 @ ''s'')
      in if d < 0 then CHR ''-'' # text else text)"

section \<open>Texts\<close>

text \<open>The verb \<open>%-ns\<close>.\<close>

definition pad_right :: "nat \<Rightarrow> string \<Rightarrow> string" where
  "pad_right n s = s @ replicate (n - length s) (CHR '' '')"

definition MigrationResult_String :: "Duration \<Rightarrow> MigrationResult \<Rightarrow> string" where
  "MigrationResult_String duration m =
     pad_right 5 (if REmpty m then ''EMPTY'' else ''OK'') @ '' '' @
     pad_right (if RDirection m = ''up'' then 2 else 4) (RDirection m) @ '' '' @
     Base (SPath (RSource m)) @ '' ('' @ Duration_String (truncateDuration duration) @ '')''"

definition Migration_String :: "Migration \<Rightarrow> string" where
  "Migration_String m = MSourcePath m"

fun Migrations_String :: "Migration list \<Rightarrow> string" where
  "Migrations_String [] = []"
| "Migrations_String (m # ms) = Migration_String m @ nl @ Migrations_String ms"

section \<open>Lemmas\<close>

lemma Round_near:
  assumes "0 \<le> d" and "d \<le> MaxInt64" and "0 < m" and "d + m \<le> MaxInt64 \<or> MaxInt64 mod m * 2 < m"
  shows "m dvd Duration_Round d m" and "2 * \<bar>Duration_Round d m - d\<bar> \<le> m" and "0 \<le> Duration_Round d m"
    and "Duration_Round d m \<le> MaxInt64"
proof -
  define r where "r = d mod m"
  have r: "0 \<le> r" "r < m" and q: "d - r = m * (d div m)" using assms(3) by (simp_all add: r_def minus_mod_eq_mult_div)
  have up: "d + m - r \<le> MaxInt64" if "\<not> r + r < m"
  proof (rule ccontr)
    assume n: "\<not> ?thesis"
    then have "m * (d div m) \<le> MaxInt64" "MaxInt64 < m * (d div m) + m" using q r(1) assms(2) by linarith+
    then have "(MaxInt64 - m * (d div m) + m * (d div m)) mod m = MaxInt64 - m * (d div m)"
      unfolding mod_mult_self2 by (intro mod_pos_pos_trivial) linarith+
    then have "MaxInt64 mod m = MaxInt64 - m * (d div m)" by simp
    moreover have "MaxInt64 mod m * 2 < m" using assms(4) n r by linarith
    ultimately show False using that assms(2) q by linarith
  qed
  have w: "wrap64 (d + m - r) = d + m - r" if "\<not> r + r < m"
    using up [OF that] assms(1,3) r by (intro wrap64_id) (auto simp: in_int64_def MinInt64_def)
  have e: "Duration_Round d m = (if r + r < m then d - r else d + m - r)"
    using assms(1,3) r w by (simp add: Duration_Round_def r_def [symmetric] Let_def)
  have "d + m - r = m * (d div m + 1)" using q by (simp add: algebra_simps)
  then show "m dvd Duration_Round d m" using q by (simp add: e del: dvd_diff)
  show "2 * \<bar>Duration_Round d m - d\<bar> \<le> m" "0 \<le> Duration_Round d m" "Duration_Round d m \<le> MaxInt64"
    using r q assms up mult_nonneg_nonneg [of m "d div m"] by (auto simp: e pos_imp_zdiv_nonneg_iff)
qed

lemma Round_multiple: "0 \<le> d \<Longrightarrow> 0 < m \<Longrightarrow> m dvd d \<Longrightarrow> Duration_Round d m = d"
  by (simp add: Duration_Round_def)

text \<open>The three cases of \<open>truncateDuration\<close> beyond a microsecond.\<close>

lemma truncate_cases:
  assumes "Microsecond < d"
  obtains v where "v \<in> {Microsecond, Millisecond, Second}" "v < d" "v = Second \<or> d \<le> 1000 * v"
    "truncateDuration d = Duration_Round d (v div 100)"
proof -
  consider "Second < d" | "Millisecond < d" "d \<le> Second" | "d \<le> Millisecond" by linarith
  then show thesis
    by cases (rule that [of Second] that [of Millisecond] that [of Microsecond]; use assms in \<open>simp add: truncateDuration_def unit_defs\<close>)+
qed

lemma truncate_multiple:
  assumes "v \<in> {Microsecond, Millisecond, Second}" and "v \<le> t" and "v = Second \<or> t \<le> 1000 * v" and "v div 100 dvd t"
  shows "truncateDuration t = t"
proof -
  have "(10000000 :: int) dvd t \<Longrightarrow> 10000 dvd t" "(10000 :: int) dvd t \<Longrightarrow> 10 dvd t" by (auto elim: dvd_trans [rotated])
  then show ?thesis using assms by (auto simp: truncateDuration_def unit_defs Round_multiple)
qed

lemma near_below:
  fixes t :: int
  assumes "2 * (d - t) \<le> m" and "100 * m < d" and "0 < m"
  shows "99 * m < t"
proof (rule ccontr)
  assume "\<not> ?thesis"
  then have "2 * t \<le> 198 * m" by simp
  then have "2 * d \<le> 199 * m" using assms(1) by simp
  then show False using assms(2,3) by simp
qed

text \<open>
  The durations shown are off by at most half a percent; rounding never leaves the range of 64 bits,
  so it never saturates, and rounding a second time changes nothing.
\<close>

lemma truncateDuration_near:
  assumes "0 \<le> d" and "d \<le> MaxInt64"
  shows "200 * \<bar>truncateDuration d - d\<bar> \<le> d \<and> truncateDuration d \<le> MaxInt64 \<and>
     truncateDuration (truncateDuration d) = truncateDuration d"
proof (cases "Microsecond < d")
  case True
  then obtain v where v: "v \<in> {Microsecond, Millisecond, Second}" "v < d" "v = Second \<or> d \<le> 1000 * v"
    "truncateDuration d = Duration_Round d (v div 100)" by (rule truncate_cases)
  define m where "m = v div 100"
  have m: "0 < m" "d + m \<le> MaxInt64 \<or> MaxInt64 mod m * 2 < m" "v = 100 * m" using v(1,3) by (auto simp: m_def unit_defs MaxInt64_def)
  let ?t = "truncateDuration d"
  note near = Round_near [OF assms m(1,2), folded v(4) [folded m_def]]
  have near2: "2 * (?t - d) \<le> m" "2 * (d - ?t) \<le> m" using near(2) by arith+
  obtain k where k: "?t = m * k" using near(1) by blast
  have "m * 99 < m * k" using near_below [OF near2(2)] v(2) m(1,3) by (simp add: k mult.commute)
  then have "v \<le> ?t" using m(1,3) k by simp
  moreover have "?t < 100001 * m" if "d \<le> 1000 * v" using near2(1) that m(1,3) by simp
  then have "m * k < m * 100001" if "d \<le> 1000 * v" using that by (simp add: k mult.commute)
  then have "v = Second \<or> ?t \<le> 1000 * v" using v(3) m(1,3) k by auto
  ultimately have "truncateDuration ?t = ?t" using truncate_multiple [OF v(1)] near(1) m_def by blast
  moreover have "200 * \<bar>?t - d\<bar> \<le> d" using near(2) v(2) m(3) by simp
  ultimately show ?thesis using near(4) by blast
next
  case False
  then have "truncateDuration d = d" by (simp add: truncateDuration_def unit_defs)
  then show ?thesis using assms by simp
qed

end
