(* ===== verification/Spec2Isabelle.thy ===== *)
theory Spec2Isabelle
  imports Provider_Witness Legacy_Witness Lock_Claims Cli_Up Result_Text
begin

text \<open>
  A model of goose, a tool that runs database migrations, and the properties that make it correct.
  File names below are relative to \<open>src/\<close>.

  \<^bold>\<open>The program.\<close> A migration is a SQL file or a pair of Go functions with a version number. The
  versions applied to a database are the rows of a version table in it. There are two interfaces over
  the same parts. A \<^emph>\<open>provider\<close> is a value with its own options, file system and registry
  (\<open>provider*.go\<close>). The older \<^emph>\<open>package-level\<close> functions work on global variables (\<open>up.go\<close>, \<open>down.go\<close>,
  \<open>migrate.go\<close> and so on) and are what the command \<open>goose\<close> (\<open>cmd/goose\<close>) runs. Both collect the
  migrations, ask a store for the recorded versions, choose the pending ones, parse the SQL files, run
  each migration, in a transaction or not, and record it. A provider can hold a lock meanwhile (\<open>lock\<close>).

  \<^bold>\<open>The theories and the code.\<close>

    \<^item> \<open>Go_Prelude\<close>: bytes and strings, the functions of \<open>strings\<close>, \<open>strconv\<close> and \<open>path\<close> the code calls,
      64-bit integers as \<open>int\<close> with the wrap-around \<open>wrap64\<close> written out. \<open>Goose_Errors\<close>: error values, with
      \<open>errors_Is\<close> following the wrapping, and the data of \<open>provider_types.go\<close> and \<open>provider_errors.go\<close>.
      \<open>Result_Text\<close>: their texts, with the rounding of durations.
    \<^item> \<open>Sql_Parser\<close>: \<open>internal/sqlparser\<close>. The line scanner, the state machine (\<open>parserState\<close>,
      \<open>handle_annotation\<close>) and the parse of both directions of a file. An outline of a file gives the
      specification: the machine refines it, files made of blocks are read back exactly.
    \<^item> \<open>Resolve\<close>: \<open>internal/gooseutil/resolve.go\<close>; \<open>UpVersions\<close> selects exactly the pending versions and fails
      exactly on the documented inputs.
    \<^item> \<open>Migrations\<close>, \<open>Collect\<close>: \<open>migration.go\<close>, \<open>globals.go\<close>, \<open>register.go\<close>, \<open>provider_collect.go\<close>. The registry is
      an association list; collection from a file system is exact, and so is the merge.
    \<^item> \<open>Dialects\<close>: every statement of \<open>internal/dialects\<close>, \<open>dialect.go\<close>, \<open>db.go\<close>. The statements of one dialect are
      pairwise different for every table name.
    \<^item> \<open>Database\<close>, \<open>Version_Store\<close>: \<open>database/*.go\<close>, \<open>internal/controller\<close>. The state of a database is a
      \<open>world\<close>: what is committed, the open transaction, the connections in use and the faults to come. Each
      statement or commit may fail before or after it took effect. The locale \<open>version_store\<close> is the
      contract of the interface \<open>Store\<close> on the abstract list of recorded versions, \<open>sql_engine\<close> the documented
      meaning of the statements; the default store over any \<open>sql_engine\<close> is a \<open>version_store\<close>.
    \<^item> \<open>Provider_Config\<close>, \<open>Provider_Run\<close>, \<open>Provider\<close>: \<open>provider_options.go\<close>, \<open>provider_run.go\<close>, \<open>provider.go\<close>, one
      definition per function, and a provider state with the mutex, the \<open>sync.Once\<close> and the migrations.
      \<open>Provider_Run_Lemmas\<close>, \<open>Provider_Init_Lemmas\<close> and \<open>Provider_Ops_Lemmas\<close> prove inside \<open>version_store\<close> what each
      step does to the recorded versions; \<open>Provider_Props\<close>, \<open>Provider_Down\<close> and \<open>Provider_Queries\<close> hold the
      properties: \<open>Up\<close> applies exactly the pending versions, a migration in a transaction is all or
      nothing, a failure is reported with what was applied, every operation gives back the mutex, the
      connection and the lock, and single migrations go up and down again. \<open>Provider_Witness\<close> applies them
      on a small reference server.
    \<^item> \<open>Legacy_Collect\<close>, \<open>Legacy_Run\<close>, \<open>Legacy_Ops\<close>: the package-level functions (\<open>migrate.go\<close>, \<open>migration.go\<close>,
      \<open>migration_sql.go\<close>, \<open>internal/legacystore\<close>, \<open>up.go\<close>, \<open>down.go\<close>, \<open>redo.go\<close>, \<open>reset.go\<close>, \<open>status.go\<close>,
      \<open>version.go\<close>). \<open>Legacy_Lemmas\<close> shows that they run a migration as a provider does; \<open>Legacy_Up\<close> and
      \<open>Legacy_Down\<close> have the properties of the operations, \<open>Legacy_Witness\<close> their instances.
    \<^item> \<open>Legacy_Files\<close>, \<open>File_Claims\<close>, \<open>Fix_Claims\<close>: \<open>create.go\<close>, \<open>fix.go\<close>, \<open>helpers.go\<close>, \<open>goose.go\<close>. A created file
      is found and parsed, and when sequential has a version above the versioned ones; \<open>Fix\<close> renumbers SQL
      and Go files of a directory without losing one, unless the path of the directory has the version.
    \<^item> \<open>Migration_Stats\<close>: \<open>internal/migrationstats\<close>. What is reported of a SQL file is what the provider parses,
      and of a Go file the migration that its registration gives the provider.
    \<^item> \<open>Lock_Store\<close>, \<open>Lock_Contract\<close>, \<open>Lock_MySQL\<close>: \<open>lock/internal/store\<close>. The locale \<open>lock_table_store\<close> is the
      contract of \<open>LockStore\<close> on an abstract table with leases and a clock; both stores meet it over any
      server that gives their statements the documented meaning. \<open>Table_Locker\<close> is \<open>lock/internal/table\<close>
      and its options, \<open>Lock_System\<close> the system of several instances as a step relation, and \<open>Lock_Props\<close>
      its invariant, at most one instance holds an unexpired lease, and what an instance that waits for
      the lock obtains while the clock and the others move. \<open>Session_Locker\<close> has the advisory
      locks of \<open>lock/postgres.go\<close>. \<open>Lock_Ref\<close> is a reference server and \<open>Lock_Claims\<close> holds the properties.
    \<^item> \<open>Cli\<close>, \<open>Cli_Claims\<close>, \<open>Cli_Up\<close>: \<open>cmd/goose\<close>, from the parsed flags to the end of the process;
      \<open>goose up\<close> is followed from the arguments to the version table.

  \<^bold>\<open>Conventions.\<close> A Go function that returns an error gives a sum (\<open>Inl\<close> the error) or an \<open>err option\<close>
  beside the new state. A panic that leaves goose and a wait for ever are the error values \<open>Panic\<close> and
  \<open>Blocked\<close>, so that a property that excludes errors excludes them. A nil pointer is \<open>None\<close>. Loops are
  recursive functions with a proof that they end, but for two. The loop of the package-level \<open>DownTo\<close>
  need not end; it is a \<open>partial_function\<close>, whose result \<open>None\<close> means that it does not return, and it is
  proved to return when every migration records its version (and not to, when the flag of a run without
  versioning stays). The attempts of a retry are bounded by the back-off the code configures; the
  back-off is a parameter, and \<open>attempts k\<close> is the instance with \<open>k\<close> attempts after the first: at most
  three in a provider, as \<open>provider_run.go\<close> configures it, and any number in the properties of the
  lockers. With \<open>attempts k\<close> the database does not change between two attempts of one call;
  \<open>attempts_in pauses\<close> is the instance in which the \<open>n\<close>-th pause applies the \<open>n\<close>-th function of the list to
  the database, for the clock and the other instances that move while the code sleeps.

  \<^bold>\<open>Simplifications.\<close> The clock of a lock server does not move between the statements of one transaction,
  and instance names are compared byte by byte, where the default collation of MySQL ignores case. The
  duration of a lease in seconds is an integer division, equal to the conversion through \<open>float64\<close> below
  \<open>2 ^ 23\<close> seconds. \<open>merge\<close> returns the registry with the \<open>Source\<close> it sets, but \<open>newProvider\<close> does not put it back
  into the global registry: package-level functions called after a provider was made in the same
  process start from the registry as it was before.

  \<^bold>\<open>Parameters.\<close> Code that is not in the repository is an argument, with what is relied on as a named
  hypothesis: environment substitution, \<open>multierr\<close> and \<open>errgroup\<close> (\<open>append_laws\<close>, \<open>wait_laws\<close>), the retry package
  (\<open>retry_laws\<close>), the database server and its driver (the locales above), lockers and stores given by the
  caller (\<open>locker_laws\<close>, \<open>version_store\<close>), the functions of Go migrations, the tables of \<open>unicode\<close>
  (\<open>unicode_laws\<close>), \<open>go/parser\<close>, the parsing of flags, environment files and connection strings, clocks,
  random numbers and failures of the operating system. A migration is assumed not to write to the
  version table itself. Each hypothesis is met by a concrete instance in the witnesses.

  \<^bold>\<open>Not modelled.\<close> The Docker manager (\<open>pkg/dockermanage\<close>) only drives a service for tests; test helpers and
  examples; the output of loggers (\<open>log.go\<close>, \<open>verboseInfo\<close>, \<open>logf\<close>) and \<open>osfs.go\<close>, which is \<open>os\<close> behind an
  interface; the usage text of the command; cancellation and time-outs of a context, which the driver
  reports as one more failure of a statement; the time a migration took or was applied; \<open>Ping\<close> and \<open>Close\<close>,
  which call the database handle. The verb \<open>%q\<close> is modelled with its escapes for ASCII; other bytes are
  printed as they are.
\<close>

end
